theory Spec2Isabelle
  imports Complex_Main "HOL-Library.Char_ord" "HOL-Library.List_Lexorder"
begin

section \<open>Topic names\<close>

text \<open>
  Topic names are strings. \<open>String.prototype.split("/")\<close> cuts a string at every
  slash and always returns at least one segment (the empty string gives one empty segment).
\<close>

fun split_on :: "char \<Rightarrow> string \<Rightarrow> string list" where
  "split_on sep [] = [[]]"
| "split_on sep (c # cs) =
     (if c = sep then [] # split_on sep cs
      else (case split_on sep cs of
              [] \<Rightarrow> [[c]]
            | p # ps \<Rightarrow> (c # p) # ps))"

text \<open>
  The loop of \<open>cameraInfoTopicMatches\<close>: \<open>for (let i = 0; i < imageParts.length - 1; i++)\<close>,
  returning false at the first index where the segments differ.
\<close>

function matchesLoop :: "string list \<Rightarrow> string list \<Rightarrow> nat \<Rightarrow> bool" where
  "matchesLoop imageParts infoParts i =
     (if i < length imageParts - 1
      then (if imageParts ! i \<noteq> infoParts ! i then False
            else matchesLoop imageParts infoParts (i + 1))
      else True)"
  by pat_completeness auto
termination
  by (relation "measure (\<lambda>(imageParts, infoParts, i). length imageParts - 1 - i)") auto

declare matchesLoop.simps [simp del]

definition cameraInfoTopicMatches :: "string \<Rightarrow> string \<Rightarrow> bool" where
  "cameraInfoTopicMatches topic cameraInfoTopic =
     (let imageParts = split_on CHR ''/'' topic;
          infoParts = split_on CHR ''/'' cameraInfoTopic
      in if length imageParts \<noteq> length infoParts then False
         else matchesLoop imageParts infoParts 0)"


section \<open>Messages and settings\<close>

type_synonym Time = "int \<times> int" \<comment> \<open>\<open>sec\<close>, \<open>nsec\<close>\<close>

record Header =
  frame_id :: string
  stamp :: Time

text \<open>
  \<open>Image | CompressedImage\<close>. A raw image carries height, width, encoding and data; a
  compressed image carries a format string and data.
\<close>

datatype Image =
    RawImage (header: Header) nat nat string "nat list"
  | CompressedImage (header: Header) string "nat list"

text \<open>
  The test \<open>(image as Partial<CompressedImage>).format\<close>: the property is missing on a
  raw image, and the empty string is falsy.
\<close>

fun hasFormat :: "Image \<Rightarrow> bool" where
  "hasFormat (RawImage h height width encoding bytes) = False"
| "hasFormat (CompressedImage h format bytes) = (format \<noteq> [])"

text \<open>
  Modelled from the spec: \<open>rosTimeToNanoSec\<close> is imported from \<open>../ros\<close> and is not
  part of the sources. The specification only calls its result the source timestamp; it is
  read as seconds times \<open>10\<^sup>9\<close> plus nanoseconds, on unbounded integers
  (\<open>bigint\<close>).
\<close>

definition rosTimeToNanoSec :: "Time \<Rightarrow> int" where
  "rosTimeToNanoSec t = fst t * 1000000000 + snd t"

text \<open>
  \<open>LayerSettingsImage\<close>. The distance is a finite double, kept as the real number it
  denotes: the settings are stored and compared, never computed with.
\<close>

record LayerSettingsImage =
  visible :: bool
  cameraInfoTopic :: "string option"
  distance :: real
  color :: string

text \<open>
  \<open>Partial<LayerSettingsImage>\<close>: \<open>None\<close> is an absent key. The key
  \<open>cameraInfoTopic\<close> may also be present with the value \<open>undefined\<close>
  (\<open>Some None\<close>), as it is in \<open>DEFAULT_SETTINGS\<close>.
\<close>

record PartialSettings =
  p_visible :: "bool option"
  p_cameraInfoTopic :: "string option option"
  p_distance :: "real option"
  p_color :: "string option"

definition DEFAULT_DISTANCE :: real where
  "DEFAULT_DISTANCE = 1"

definition DEFAULT_SETTINGS :: LayerSettingsImage where
  "DEFAULT_SETTINGS =
     \<lparr>visible = True, cameraInfoTopic = None, distance = DEFAULT_DISTANCE, color = ''#ffffff''\<rparr>"

definition noSettings :: PartialSettings where
  "noSettings = \<lparr>p_visible = None, p_cameraInfoTopic = None, p_distance = None, p_color = None\<rparr>"

text \<open>The object spread \<open>{ ...prev, ...s }\<close>: every key present in \<open>s\<close> wins.\<close>

definition spread :: "LayerSettingsImage \<Rightarrow> PartialSettings \<Rightarrow> LayerSettingsImage" where
  "spread prev s =
     \<lparr>visible = (case p_visible s of None \<Rightarrow> visible prev | Some v \<Rightarrow> v),
      cameraInfoTopic = (case p_cameraInfoTopic s of None \<Rightarrow> cameraInfoTopic prev | Some c \<Rightarrow> c),
      distance = (case p_distance s of None \<Rightarrow> distance prev | Some d \<Rightarrow> d),
      color = (case p_color s of None \<Rightarrow> color prev | Some c \<Rightarrow> c)\<rparr>"

text \<open>A full settings object passed where a partial one is expected: every key is present.\<close>

definition asPartial :: "LayerSettingsImage \<Rightarrow> PartialSettings" where
  "asPartial s =
     \<lparr>p_visible = Some (visible s), p_cameraInfoTopic = Some (cameraInfoTopic s),
      p_distance = Some (distance s), p_color = Some (color s)\<rparr>"

section \<open>Auto-selection of the camera-info topic\<close>

text \<open>
  \<open>cameraInfoTopics\<close> is a \<open>Set<string>\<close>, kept as the list of its elements in insertion
  order. \<open>candidates.sort()\<close> orders strings by code units; on the byte strings of the
  model this is the lexicographic order of lists of characters. \<open>candidates[0]\<close> is
  \<open>undefined\<close> for the empty array.
\<close>

definition autoSelectCameraInfoTopic ::
  "LayerSettingsImage \<Rightarrow> string \<Rightarrow> string list \<Rightarrow> LayerSettingsImage" where
  "autoSelectCameraInfoTopic output imageTopic cameraInfoTopics =
     (let candidates = sort (filter (cameraInfoTopicMatches imageTopic) cameraInfoTopics)
      in output\<lparr>cameraInfoTopic := (case candidates of [] \<Rightarrow> None | c # cs \<Rightarrow> Some c)\<rparr>)"

section \<open>Numbers\<close>

text \<open>
  The numbers of the source are IEEE 754 doubles. A finite double is a real number, and a
  number that comes from outside (a distance of the settings, the pixel size of a camera) is
  kept as the real it denotes; not-a-number and the infinities are not modelled, and the two
  zeros are not told apart. An arithmetic operation of the source returns the exact result
  rounded to a double, and a store into a \<open>Float32Array\<close> rounds once more, to single
  precision. These roundings are not computed here: what the arithmetic returns is kept as
  the operation applied to its operands, so that nothing is said about a result beyond what
  was computed from what.
\<close>

datatype Number =
    Num real                \<comment> \<open>the double with this value\<close>
  | Literal real            \<comment> \<open>the double nearest to a decimal literal of the source\<close>
  | Times Number Number     \<comment> \<open>the product, rounded to a double\<close>
  | Minus Number Number     \<comment> \<open>the difference, rounded to a double\<close>
  | Over Number Number      \<comment> \<open>the quotient, rounded to a double\<close>
  | Fround Number           \<comment> \<open>the number rounded to single precision\<close>

text \<open>
  The operators \<open>*\<close> and \<open>/\<close>. Where IEEE arithmetic is exact whatever the other
  operand is, the result is that operand or zero itself: a product with one, a product with
  zero, a quotient by one.
\<close>

definition jsTimes :: "Number \<Rightarrow> Number \<Rightarrow> Number" where
  "jsTimes a b =
     (if a = Num 1 then b
      else if b = Num 1 then a
      else if a = Num 0 \<or> b = Num 0 then Num 0
      else Times a b)"

definition jsOver :: "Number \<Rightarrow> Number \<Rightarrow> Number" where
  "jsOver a b = (if b = Num 1 then a else Over a b)"

text \<open>
  What an element of a \<open>Float32Array\<close> holds after a number is stored into it
  (\<open>Math.fround\<close> of the number). Zero and one are single-precision numbers and are stored
  as they are.
\<close>

definition fround :: "Number \<Rightarrow> Number" where
  "fround a = (if a = Num 0 \<or> a = Num 1 then a else Fround a)"

type_synonym Float32Array = "Number list"

section \<open>Geometry\<close>

text \<open>
  \<open>PinholeCameraModel\<close> is an external collaborator: its pixel size and its two
  operations are taken as they are. \<open>rectifyPixel(pixel, pixel)\<close> writes the rectified
  pixel and returns it; \<open>projectPixelTo3dRay(p, pixel)\<close> writes the ray into \<open>p\<close>.
\<close>

record PinholeCameraModel =
  cm_width :: real
  cm_height :: real
  rectifyPixel :: "Number \<times> Number \<Rightarrow> Number \<times> Number"
  projectPixelTo3dRay :: "Number \<times> Number \<Rightarrow> Number \<times> Number \<times> Number"

text \<open>
  A \<open>THREE.PlaneGeometry(1, 1, 1, 1)\<close> with its \<open>position\<close> and \<open>uv\<close> attributes
  (item sizes 3 and 2), each over a \<open>Float32Array\<close>.
\<close>

record PlaneGeometry =
  widthSegments :: nat
  heightSegments :: nat
  position :: Float32Array
  uv :: Float32Array

definition multiplyScalar ::
  "Number \<times> Number \<times> Number \<Rightarrow> Number \<Rightarrow> Number \<times> Number \<times> Number" where
  "multiplyScalar vec scalar =
     (case vec of (x, y, z) \<Rightarrow> (jsTimes x scalar, jsTimes y scalar, jsTimes z scalar))"

definition gridX :: nat where "gridX = 1"
definition gridY :: nat where "gridY = 1"
definition gridX1 :: nat where "gridX1 = gridX + 1"
definition gridY1 :: nat where "gridY1 = gridY + 1"
definition EPS :: Number where "EPS = Literal (1 / 1000)"

text \<open>
  The inner loop over \<open>ix\<close>, writing one vertex and one UV pair per round. The loop counters
  and the offsets are small integers, kept as naturals; every assignment to an element of
  \<open>vertices\<close> or \<open>uvs\<close> is a store into a \<open>Float32Array\<close>.
\<close>

function geometryRow ::
  "PinholeCameraModel \<Rightarrow> real \<Rightarrow> nat \<Rightarrow> nat \<Rightarrow> Float32Array \<times> Float32Array \<Rightarrow>
     Float32Array \<times> Float32Array" where
  "geometryRow cameraModel depth iy ix buffers =
     (if ix < gridX1 then
        (let vertices = fst buffers;
             uvs = snd buffers;
             segment_width = jsOver (Num (cm_width cameraModel)) (Num (real gridX));
             segment_height = jsOver (Num (cm_height cameraModel)) (Num (real gridY));
             vOffset = (iy * gridX1 + ix) * 3;
             uvOffset = (iy * gridX1 + ix) * 2;
             pixel = (jsTimes (Num (real ix)) segment_width,
                      jsTimes (Num (real iy)) segment_height);
             p = multiplyScalar
                   (projectPixelTo3dRay cameraModel (rectifyPixel cameraModel pixel))
                   (Num depth);
             vertices' = vertices[vOffset := fround (fst p),
                                  vOffset + 1 := fround (fst (snd p)),
                                  vOffset + 2 := fround (Minus (snd (snd p)) EPS)];
             uvs' = uvs[uvOffset := fround (jsOver (Num (real ix)) (Num (real gridX))),
                        uvOffset + 1 := fround (jsOver (Num (real iy)) (Num (real gridY)))]
         in geometryRow cameraModel depth iy (ix + 1) (vertices', uvs'))
      else buffers)"
  by pat_completeness auto
termination
  by (relation "measure (\<lambda>(cameraModel, depth, iy, ix, buffers). gridX1 - ix)") auto

declare geometryRow.simps [simp del]

text \<open>The outer loop over \<open>iy\<close>.\<close>

function geometryRows ::
  "PinholeCameraModel \<Rightarrow> real \<Rightarrow> nat \<Rightarrow> Float32Array \<times> Float32Array \<Rightarrow>
     Float32Array \<times> Float32Array" where
  "geometryRows cameraModel depth iy buffers =
     (if iy < gridY1
      then geometryRows cameraModel depth (iy + 1) (geometryRow cameraModel depth iy 0 buffers)
      else buffers)"
  by pat_completeness auto
termination
  by (relation "measure (\<lambda>(cameraModel, depth, iy, buffers). gridY1 - iy)") auto

declare geometryRows.simps [simp del]

text \<open>\<open>new Float32Array(n)\<close> is filled with zeros.\<close>

definition createGeometry :: "PinholeCameraModel \<Rightarrow> real \<Rightarrow> PlaneGeometry" where
  "createGeometry cameraModel depth =
     (let size = gridX1 * gridY1;
          buffers = geometryRows cameraModel depth 0
                      (replicate (size * 3) (Num 0), replicate (size * 2) (Num 0))
      in \<lparr>widthSegments = 1, heightSegments = 1, position = fst buffers, uv = snd buffers\<rparr>)"

section \<open>Renderables and their resources\<close>

datatype ImageBitmap = ImageBitmap (bitmap_width: nat) (bitmap_height: nat) (bitmap_data: "nat list")

text \<open>
  The \<open>THREE.CanvasTexture\<close> of a renderable. Its mapping, wrapping, filter, format and
  encoding arguments are constants of the source; what varies is the bitmap it shows.
\<close>

record Texture =
  tex_image :: ImageBitmap

text \<open>
  The \<open>THREE.MeshBasicMaterial\<close> built by \<open>createMaterial\<close>. Its colour, opacity,
  \<open>transparent\<close> and \<open>depthWrite\<close> are all computed from the settings' colour string by
  \<open>stringToRgba\<close>, which is imported from \<open>../color\<close>: the material keeps the string.
  Its \<open>map\<close> is the texture object of the same renderable, which is created once and
  afterwards only updated in place.
\<close>

record Material =
  mat_name :: string
  mat_color :: string

datatype Mesh = Mesh (mesh_geometry: PlaneGeometry) (mesh_material: Material)

text \<open>
  Modelled from the spec: \<open>Pose\<close> and \<open>makePose\<close> are imported from \<open>../ros\<close> and
  \<open>../transforms/geometry\<close> and are not part of the sources. A pose is position and
  orientation, and \<open>makePose()\<close> is read as the identity pose; no statement below
  depends on which pose it is.
\<close>

record Pose =
  pose_position :: "real \<times> real \<times> real"
  pose_orientation :: "real \<times> real \<times> real \<times> real"

definition makePose :: Pose where
  "makePose = \<lparr>pose_position = (0, 0, 0), pose_orientation = (0, 0, 0, 1)\<rparr>"

text \<open>
  The calls the source makes into the 3D library on the resources of one renderable, in the
  order they are made: \<open>dispose()\<close> on a texture, material or geometry, the constructors,
  and \<open>renderable.add(mesh)\<close> / \<open>renderable.remove(mesh)\<close>.
\<close>

datatype Call =
    TextureDispose | MaterialDispose | GeometryDispose
  | TextureCreate | MaterialCreate | GeometryCreate
  | MeshAdd | MeshRemove

text \<open>
  An \<open>ImageRenderable\<close>: the \<open>THREE.Object3D\<close> part (\<open>name\<close>, \<open>visible\<close>,
  \<open>children\<close>) and \<open>userData\<close>. \<open>calls\<close> is the record of library calls above.
\<close>

record ImageRenderable =
  r_name :: string
  r_visible :: bool
  r_children :: "Mesh list"
  ud_topic :: string
  ud_settings :: LayerSettingsImage
  ud_image :: Image
  ud_pose :: Pose
  ud_srcTime :: int
  ud_texture :: "Texture option"
  ud_material :: "Material option"
  ud_geometry :: "PlaneGeometry option"
  ud_mesh :: "Mesh option"
  calls :: "Call list"

definition createMaterial :: "Texture \<Rightarrow> ImageRenderable \<Rightarrow> Material" where
  "createMaterial texture renderable =
     \<lparr>mat_name = ud_topic renderable @ '':Material'',
      mat_color = color (ud_settings renderable)\<rparr>"

text \<open>\<open>renderable.remove(renderable.userData.mesh)\<close> followed by clearing the reference.\<close>

definition removeMesh :: "ImageRenderable \<Rightarrow> ImageRenderable" where
  "removeMesh renderable =
     (case ud_mesh renderable of
        None \<Rightarrow> renderable
      | Some m \<Rightarrow> renderable\<lparr>r_children := remove1 m (r_children renderable),
                              ud_mesh := None,
                              calls := calls renderable @ [MeshRemove]\<rparr>)"

definition tryCreateMesh :: "ImageRenderable \<Rightarrow> ImageRenderable" where
  "tryCreateMesh renderable =
     (case (ud_mesh renderable, ud_geometry renderable, ud_material renderable) of
        (None, Some g, Some m) \<Rightarrow>
          renderable\<lparr>ud_mesh := Some (Mesh g m),
                     r_children := r_children renderable @ [Mesh g m],
                     calls := calls renderable @ [MeshAdd]\<rparr>
      | _ \<Rightarrow> renderable)"

definition rebuildMaterial :: "ImageRenderable \<Rightarrow> ImageRenderable" where
  "rebuildMaterial renderable =
     (let texture = ud_texture renderable;
          r1 = (case ud_material renderable of
                  None \<Rightarrow> renderable
                | Some m \<Rightarrow> renderable\<lparr>calls := calls renderable @ [MaterialDispose]\<rparr>);
          r2 = (case texture of
                  None \<Rightarrow> r1\<lparr>ud_material := None\<rparr>
                | Some t \<Rightarrow> r1\<lparr>ud_material := Some (createMaterial t r1),
                                 calls := calls r1 @ [MaterialCreate]\<rparr>)
      in removeMesh r2)"

section \<open>The manager and the renderer it talks to\<close>

datatype ErrorKind = CREATE_BITMAP_ERR | MISSING_TRANSFORM

text \<open>
  The text of an error: \<open>missingTransformMessage(renderFrameId, fixedFrameId, frameId)\<close>,
  whose wording is in \<open>./transforms\<close> and not in the sources, so that the message is kept
  as its three arguments; or \<open>createBitmap failed: \<close> followed by the message of the
  rejection.
\<close>

datatype Message = MissingTransformMessage string string string | CreateBitmapFailed string

type_synonym LayerErrors = "string \<times> ErrorKind \<Rightarrow> Message option"

text \<open>
  Modelled from the spec: the class behind \<open>renderer.layerErrors\<close> is not part of the
  sources. Errors are keyed by topic and error kind; adding replaces the entry of the key,
  removing deletes it, clearing a topic deletes every kind of that topic.
\<close>

definition addToTopic :: "LayerErrors \<Rightarrow> string \<Rightarrow> ErrorKind \<Rightarrow> Message \<Rightarrow> LayerErrors" where
  "addToTopic errs topic kind msg = errs((topic, kind) \<mapsto> msg)"

definition removeFromTopic :: "LayerErrors \<Rightarrow> string \<Rightarrow> ErrorKind \<Rightarrow> LayerErrors" where
  "removeFromTopic errs topic kind = errs((topic, kind) := None)"

definition clearTopic :: "LayerErrors \<Rightarrow> string \<Rightarrow> LayerErrors" where
  "clearTopic errs topic = (\<lambda>key. if fst key = topic then None else errs key)"

text \<open>
  The state of an \<open>Images\<close> object and of the parts of the renderer it reads and writes.
  \<^item> \<open>objects\<close>: every \<open>ImageRenderable\<close> allocated so far, addressed by its index. A
    renderable that was dropped from the manager is still an object, and a pending decode
    still refers to it.
  \<^item> \<open>imagesByTopic\<close>: the \<open>Map\<close> from topic to renderable, in insertion order.
  \<^item> \<open>children\<close>: \<open>this.children\<close>. \<open>m_visible\<close>: \<open>this.visible\<close>.
  \<^item> \<open>cameraInfoTopics\<close>: the \<open>Set\<close>, in insertion order.
  \<^item> \<open>pending\<close>: the promises of \<open>createBitmap\<close> that have not settled, each with the
    renderable and the topic its callbacks captured, and the image being decoded.
  \<^item> \<open>config_topics\<close>, \<open>emitted\<close>, \<open>layerErrors\<close>, \<open>renderFrameId\<close>, \<open>fixedFrameId\<close>:
    \<open>renderer.config.topics\<close>, the paths of the \<open>settingsTreeChange\<close> events emitted, and
    the renderer's error channel and frame identifiers.
  \<^item> \<open>cameraModels\<close>: \<open>renderer.cameras.camerasByTopic.get(t)?.userData.cameraModel\<close>.
\<close>

record Images =
  objects :: "ImageRenderable list"
  imagesByTopic :: "(string \<times> nat) list"
  children :: "nat list"
  m_visible :: bool
  cameraInfoTopics :: "string list"
  pending :: "(nat \<times> string \<times> Image) list"
  config_topics :: "string \<Rightarrow> PartialSettings option"
  emitted :: "string list list"
  layerErrors :: LayerErrors
  renderFrameId :: "string option"
  fixedFrameId :: "string option"
  cameraModels :: "string \<Rightarrow> PinholeCameraModel option"

text \<open>\<open>throw new Error(`Unhandled ${raw.width}x${raw.height} ${raw.encoding} image`)\<close>.\<close>

datatype Error = Unhandled Image

text \<open>
  An operation that can throw returns \<open>Inl (e, st)\<close> when it throws \<open>e\<close>, where \<open>st\<close> is
  the state its assignments have reached by then, and \<open>Inr st\<close> when it returns.
\<close>

type_synonym Outcome = "(Error \<times> Images) + Images"

fun stateOf :: "Outcome \<Rightarrow> Images" where
  "stateOf (Inl (e, st)) = st"
| "stateOf (Inr st) = st"

definition setObject :: "Images \<Rightarrow> nat \<Rightarrow> ImageRenderable \<Rightarrow> Images" where
  "setObject st rid renderable = st\<lparr>objects := (objects st)[rid := renderable]\<rparr>"

section \<open>Updating a renderable\<close>

text \<open>
  The first block of \<open>_updateImageRenderable\<close>, entered when the geometry settings
  changed: \<open>geometry?.dispose()\<close>, clear the reference, remove the mesh.
\<close>

definition disposeGeometry :: "ImageRenderable \<Rightarrow> ImageRenderable" where
  "disposeGeometry renderable =
     (let r1 = (case ud_geometry renderable of
                  None \<Rightarrow> renderable
                | Some g \<Rightarrow> renderable\<lparr>calls := calls renderable @ [GeometryDispose]\<rparr>)
      in removeMesh (r1\<lparr>ud_geometry := None\<rparr>))"

text \<open>
  The second block: it tests \<open>settings.cameraInfoTopic\<close>, the argument of the update,
  and the geometry reference; the distance is read from the merged settings already stored
  on the renderable.
\<close>

definition createPlaneGeometry ::
  "(string \<Rightarrow> PinholeCameraModel option) \<Rightarrow> PartialSettings \<Rightarrow> ImageRenderable \<Rightarrow> ImageRenderable" where
  "createPlaneGeometry cameras s renderable =
     (case p_cameraInfoTopic s of
        Some (Some t) \<Rightarrow>
          (if ud_geometry renderable = None then
             (case cameras t of
                None \<Rightarrow> renderable
              | Some cameraModel \<Rightarrow>
                  removeMesh
                    (renderable\<lparr>ud_geometry :=
                                  Some (createGeometry cameraModel (distance (ud_settings renderable))),
                                calls := calls renderable @ [GeometryCreate]\<rparr>))
           else renderable)
      | _ \<Rightarrow> renderable)"

definition updateImageRenderable :: "Images \<Rightarrow> nat \<Rightarrow> Image \<Rightarrow> PartialSettings \<Rightarrow> Outcome" where
  "updateImageRenderable st rid img s =
     (let renderable = objects st ! rid;
          prevSettings = ud_settings renderable;
          newSettings = spread prevSettings s;
          geometrySettingsEqual =
            (cameraInfoTopic newSettings = cameraInfoTopic prevSettings \<and>
             distance newSettings = distance prevSettings);
          materialSettingsEqual = (color newSettings = color prevSettings);
          topic = ud_topic renderable;
          r1 = renderable\<lparr>ud_settings := newSettings\<rparr>;
          r2 = (if \<not> geometrySettingsEqual then disposeGeometry r1 else r1);
          r3 = createPlaneGeometry (cameraModels st) s r2
      in if hasFormat img then
           (let st1 = (setObject st rid r3)\<lparr>pending := pending st @ [(rid, topic, img)]\<rparr>;
                r4 = (if ud_material r3 = None \<or> \<not> materialSettingsEqual
                      then rebuildMaterial r3 else r3)
            in Inr (setObject st1 rid (tryCreateMesh r4)))
         else Inl (Unhandled img, setObject st rid r3))"

text \<open>
  The callbacks of the promise. \<open>then\<close>: with no texture yet, make one, rebuild the
  material and try to build the mesh; otherwise replace the bitmap of the texture. In both
  cases the decode error of the topic is removed. \<open>catch\<close>: report the decode error.
\<close>

definition onBitmap :: "Images \<Rightarrow> nat \<Rightarrow> string \<Rightarrow> ImageBitmap \<Rightarrow> Images" where
  "onBitmap st rid topic bitmap =
     (let renderable = objects st ! rid;
          r1 = (case ud_texture renderable of
                  None \<Rightarrow>
                    tryCreateMesh
                      (rebuildMaterial
                         (renderable\<lparr>ud_texture := Some \<lparr>tex_image = bitmap\<rparr>,
                                     calls := calls renderable @ [TextureCreate]\<rparr>))
                | Some t \<Rightarrow> renderable\<lparr>ud_texture := Some (t\<lparr>tex_image := bitmap\<rparr>)\<rparr>)
      in (setObject st rid r1)
           \<lparr>layerErrors := removeFromTopic (layerErrors st) topic CREATE_BITMAP_ERR\<rparr>)"

definition onBitmapError :: "Images \<Rightarrow> string \<Rightarrow> string \<Rightarrow> Images" where
  "onBitmapError st topic msg =
     st\<lparr>layerErrors := addToTopic (layerErrors st) topic CREATE_BITMAP_ERR (CreateBitmapFailed msg)\<rparr>"

datatype Settled = Fulfilled ImageBitmap | Rejected string

text \<open>The \<open>k\<close>-th pending promise settles and its callback runs.\<close>

definition settle :: "Images \<Rightarrow> nat \<Rightarrow> Settled \<Rightarrow> Images" where
  "settle st k result =
     (if k < length (pending st) then
        (case pending st ! k of
           (rid, topic, img) \<Rightarrow>
             (let st1 = st\<lparr>pending := take k (pending st) @ drop (Suc k) (pending st)\<rparr>
              in case result of
                   Fulfilled bitmap \<Rightarrow> onBitmap st1 rid topic bitmap
                 | Rejected msg \<Rightarrow> onBitmapError st1 topic msg))
      else st)"

section \<open>Public operations\<close>

definition emit :: "Images \<Rightarrow> string list \<Rightarrow> Images" where
  "emit st path = st\<lparr>emitted := emitted st @ [path]\<rparr>"

definition newRenderable :: "string \<Rightarrow> PartialSettings option \<Rightarrow> Image \<Rightarrow> ImageRenderable" where
  "newRenderable topic userSettings img =
     \<lparr>r_name = topic, r_visible = True, r_children = [],
      ud_topic = topic,
      ud_settings = spread DEFAULT_SETTINGS (case userSettings of None \<Rightarrow> noSettings | Some u \<Rightarrow> u),
      ud_image = img,
      ud_pose = makePose,
      ud_srcTime = rosTimeToNanoSec (stamp (header img)),
      ud_texture = None, ud_material = None, ud_geometry = None, ud_mesh = None,
      calls = []\<rparr>"

text \<open>
  The lookup-or-create at the head of \<open>addImageMessage\<close>: the resulting state and the
  renderable of the topic.
\<close>

definition getOrCreate :: "Images \<Rightarrow> string \<Rightarrow> Image \<Rightarrow> Images \<times> nat" where
  "getOrCreate st topic img =
     (case map_of (imagesByTopic st) topic of
        Some rid \<Rightarrow> (st, rid)
      | None \<Rightarrow>
          (let rid = length (objects st)
           in (st\<lparr>objects := objects st @ [newRenderable topic (config_topics st topic) img],
                  children := children st @ [rid],
                  imagesByTopic := imagesByTopic st @ [(topic, rid)]\<rparr>, rid)))"

text \<open>
  The auto-selection block of \<open>addImageMessage\<close>. \<open>autoSelectCameraInfoTopic\<close> assigns into
  the settings object of the renderable; when a topic was chosen it is written into a copy of
  the user settings, stored in the configuration, and the event is emitted.
\<close>

definition autoSelect :: "Images \<Rightarrow> nat \<Rightarrow> string \<Rightarrow> Images" where
  "autoSelect st rid topic =
     (let renderable = objects st ! rid;
          userSettings = config_topics st topic
      in if cameraInfoTopic (ud_settings renderable) = None then
           (let settings = autoSelectCameraInfoTopic (ud_settings renderable) topic (cameraInfoTopics st);
                st1 = setObject st rid (renderable\<lparr>ud_settings := settings\<rparr>)
            in if cameraInfoTopic settings \<noteq> None then
                 (let updatedUserSettings =
                        (case userSettings of None \<Rightarrow> noSettings | Some u \<Rightarrow> u)
                          \<lparr>p_cameraInfoTopic := Some (cameraInfoTopic settings)\<rparr>
                  in emit (st1\<lparr>config_topics := (config_topics st1)(topic \<mapsto> updatedUserSettings)\<rparr>)
                       [''topics'', topic])
               else st1)
         else st)"

definition addImageMessage :: "Images \<Rightarrow> string \<Rightarrow> Image \<Rightarrow> Outcome" where
  "addImageMessage st topic img =
     (case getOrCreate st topic img of
        (st1, rid) \<Rightarrow>
          (let st2 = autoSelect st1 rid topic
           in updateImageRenderable st2 rid img (asPartial (ud_settings (objects st2 ! rid)))))"

text \<open>The \<open>CameraInfo\<close> argument of \<open>addCameraInfoMessage\<close> is not used by the source.\<close>

definition addCameraInfoMessage :: "Images \<Rightarrow> string \<Rightarrow> Outcome" where
  "addCameraInfoMessage st topic =
     (let updated = (topic \<notin> set (cameraInfoTopics st));
          st1 = (if updated then st\<lparr>cameraInfoTopics := cameraInfoTopics st @ [topic]\<rparr> else st)
      in case map_of (imagesByTopic st1) topic of
           None \<Rightarrow> Inr (if updated then emit st1 [''topics''] else st1)
         | Some rid \<Rightarrow>
             (let renderable = objects st1 ! rid
              in case updateImageRenderable st1 rid (ud_image renderable)
                        (asPartial (ud_settings renderable)) of
                   Inl thrown \<Rightarrow> Inl thrown
                 | Inr st2 \<Rightarrow> Inr (if updated then emit st2 [''topics''] else st2)))"

definition setTopicSettings :: "Images \<Rightarrow> string \<Rightarrow> PartialSettings \<Rightarrow> Outcome" where
  "setTopicSettings st topic s =
     (case map_of (imagesByTopic st) topic of
        None \<Rightarrow> Inr st
      | Some rid \<Rightarrow> updateImageRenderable st rid (ud_image (objects st ! rid)) s)"

text \<open>
  \<open>updatePose\<close> is imported from \<open>../updatePose\<close>. It is a parameter here, with the
  transform tree inside it: given the pose of the renderable, the render and fixed frames, the
  source frame, the destination time and the source time, it gives the new pose when it
  returns true, and \<open>None\<close> when it returns false and leaves the pose alone.
\<close>

type_synonym UpdatePose = "Pose \<Rightarrow> string \<Rightarrow> string \<Rightarrow> string \<Rightarrow> int \<Rightarrow> int \<Rightarrow> Pose option"

text \<open>One round of the loop of \<open>startFrame\<close>.\<close>

definition startFrameOne :: "UpdatePose \<Rightarrow> string \<Rightarrow> string \<Rightarrow> int \<Rightarrow> Images \<Rightarrow> nat \<Rightarrow> Images" where
  "startFrameOne updatePose renderFrame fixedFrame currentTime st rid =
     (let renderable = (objects st ! rid)\<lparr>r_visible := visible (ud_settings (objects st ! rid))\<rparr>
      in if \<not> r_visible renderable then
           (setObject st rid renderable)
             \<lparr>layerErrors := clearTopic (layerErrors st) (ud_topic renderable)\<rparr>
         else
           (let srcTime = currentTime;
                frameId = frame_id (header (ud_image renderable))
            in case updatePose (ud_pose renderable) renderFrame fixedFrame frameId currentTime srcTime of
                 Some p \<Rightarrow> setObject st rid (renderable\<lparr>ud_pose := p\<rparr>)
               | None \<Rightarrow>
                   (setObject st rid renderable)
                     \<lparr>layerErrors :=
                        addToTopic (layerErrors st) (ud_topic renderable) MISSING_TRANSFORM
                          (MissingTransformMessage renderFrame fixedFrame frameId)\<rparr>))"

definition startFrame :: "UpdatePose \<Rightarrow> Images \<Rightarrow> int \<Rightarrow> Images" where
  "startFrame updatePose st currentTime =
     (case (renderFrameId st, fixedFrameId st) of
        (Some renderFrame, Some fixedFrame) \<Rightarrow>
          foldl (startFrameOne updatePose renderFrame fixedFrame currentTime)
            (st\<lparr>m_visible := True\<rparr>) (map snd (imagesByTopic st))
      | _ \<Rightarrow> st\<lparr>m_visible := False\<rparr>)"

text \<open>One round of the loop of \<open>dispose\<close>.\<close>

definition disposeOne :: "ImageRenderable \<Rightarrow> ImageRenderable" where
  "disposeOne renderable =
     renderable\<lparr>ud_texture := None, ud_material := None, ud_geometry := None, ud_mesh := None,
                calls := calls renderable
                  @ (case ud_texture renderable of None \<Rightarrow> [] | Some t \<Rightarrow> [TextureDispose])
                  @ (case ud_material renderable of None \<Rightarrow> [] | Some m \<Rightarrow> [MaterialDispose])
                  @ (case ud_geometry renderable of None \<Rightarrow> [] | Some g \<Rightarrow> [GeometryDispose])\<rparr>"

definition dispose :: "Images \<Rightarrow> Images" where
  "dispose st =
     (foldl (\<lambda>s rid. setObject s rid (disposeOne (objects s ! rid))) st (map snd (imagesByTopic st)))
       \<lparr>children := [], imagesByTopic := []\<rparr>"

text \<open>
  A new \<open>Images\<close> object (no renderable, no known camera-info topic, visible as every
  \<open>Object3D\<close> is) beside a renderer in a given condition.
\<close>

definition newImages ::
  "(string \<Rightarrow> PartialSettings option) \<Rightarrow> string option \<Rightarrow> string option \<Rightarrow>
   (string \<Rightarrow> PinholeCameraModel option) \<Rightarrow> Images" where
  "newImages config renderFrame fixedFrame cameras =
     \<lparr>objects = [], imagesByTopic = [], children = [], m_visible = True,
      cameraInfoTopics = [], pending = [], config_topics = config, emitted = [],
      layerErrors = (\<lambda>key. None), renderFrameId = renderFrame, fixedFrameId = fixedFrame,
      cameraModels = cameras\<rparr>"

section \<open>Predicates used in the statements\<close>

text \<open>
  The matching rule in the words of the specification: after splitting both names at the
  slashes, the segment counts are equal and all segments except the last are equal.
\<close>

definition sameNamespace :: "string \<Rightarrow> string \<Rightarrow> bool" where
  "sameNamespace imageTopic infoTopic =
     (length (split_on CHR ''/'' imageTopic) = length (split_on CHR ''/'' infoTopic) \<and>
      butlast (split_on CHR ''/'' imageTopic) = butlast (split_on CHR ''/'' infoTopic))"

text \<open>
  The inverse of splitting, in the words of the language standard for
  \<open>Array.prototype.join\<close>: the segments in order, with the separator between
  neighbours. It is not part of the source; it says what the segments of a name are.
\<close>

fun joinWith :: "char \<Rightarrow> string list \<Rightarrow> string" where
  "joinWith sep [] = []"
| "joinWith sep [p] = p"
| "joinWith sep (p # q # ps) = p @ sep # joinWith sep (q # ps)"


text \<open>A mesh is present exactly when geometry and material both are.\<close>

definition meshIff :: "ImageRenderable \<Rightarrow> bool" where
  "meshIff r = ((ud_mesh r \<noteq> None) = (ud_geometry r \<noteq> None \<and> ud_material r \<noteq> None))"

text \<open>One direction of it: a mesh is present only when geometry and material both are.\<close>

definition meshBacked :: "ImageRenderable \<Rightarrow> bool" where
  "meshBacked r = (ud_mesh r = None \<or> (ud_geometry r \<noteq> None \<and> ud_material r \<noteq> None))"

text \<open>A renderable that has a texture has a material.\<close>

definition textured :: "ImageRenderable \<Rightarrow> bool" where
  "textured r = (ud_texture r = None \<or> ud_material r \<noteq> None)"

definition sound :: "ImageRenderable \<Rightarrow> bool" where
  "sound r = (meshBacked r \<and> textured r)"

text \<open>What an update of a renderable never touches.\<close>

definition kept :: "ImageRenderable \<Rightarrow> ImageRenderable \<Rightarrow> bool" where
  "kept r r' =
     (ud_topic r' = ud_topic r \<and> ud_image r' = ud_image r \<and> ud_pose r' = ud_pose r \<and>
      ud_srcTime r' = ud_srcTime r \<and> ud_texture r' = ud_texture r \<and>
      r_name r' = r_name r \<and> r_visible r' = r_visible r)"

definition heapAll :: "(ImageRenderable \<Rightarrow> bool) \<Rightarrow> Images \<Rightarrow> bool" where
  "heapAll P st = list_all P (objects st)"

text \<open>
  The renderable as the two geometry blocks of \<open>_updateImageRenderable\<close> leave it, and as
  the material and mesh blocks leave it after that.
\<close>

definition geometryUpdated ::
  "(string \<Rightarrow> PinholeCameraModel option) \<Rightarrow> PartialSettings \<Rightarrow> ImageRenderable \<Rightarrow> ImageRenderable" where
  "geometryUpdated cameras s r =
     createPlaneGeometry cameras s
       (if cameraInfoTopic (spread (ud_settings r) s) = cameraInfoTopic (ud_settings r) \<and>
           distance (spread (ud_settings r) s) = distance (ud_settings r)
        then r\<lparr>ud_settings := spread (ud_settings r) s\<rparr>
        else disposeGeometry (r\<lparr>ud_settings := spread (ud_settings r) s\<rparr>))"

definition materialUpdated :: "bool \<Rightarrow> ImageRenderable \<Rightarrow> ImageRenderable" where
  "materialUpdated colorChanged g =
     tryCreateMesh (if ud_material g = None \<or> colorChanged then rebuildMaterial g else g)"

text \<open>
  What one round of the loop of \<open>startFrame\<close> does to the renderable it visits and to the
  error channel.
\<close>

definition frameRenderable ::
  "UpdatePose \<Rightarrow> string \<Rightarrow> string \<Rightarrow> int \<Rightarrow> ImageRenderable \<Rightarrow> ImageRenderable" where
  "frameRenderable updatePose renderFrame fixedFrame currentTime r =
     (if visible (ud_settings r) then
        (case updatePose (ud_pose r) renderFrame fixedFrame (frame_id (header (ud_image r)))
                currentTime currentTime of
           Some p \<Rightarrow> r\<lparr>r_visible := True, ud_pose := p\<rparr>
         | None \<Rightarrow> r\<lparr>r_visible := True\<rparr>)
      else r\<lparr>r_visible := False\<rparr>)"

definition frameErrors ::
  "UpdatePose \<Rightarrow> string \<Rightarrow> string \<Rightarrow> int \<Rightarrow> ImageRenderable \<Rightarrow> LayerErrors \<Rightarrow> LayerErrors" where
  "frameErrors updatePose renderFrame fixedFrame currentTime r errs =
     (if visible (ud_settings r) then
        (case updatePose (ud_pose r) renderFrame fixedFrame (frame_id (header (ud_image r)))
                currentTime currentTime of
           Some p \<Rightarrow> errs
         | None \<Rightarrow> addToTopic errs (ud_topic r) MISSING_TRANSFORM
                     (MissingTransformMessage renderFrame fixedFrame
                        (frame_id (header (ud_image r)))))
      else clearTopic errs (ud_topic r))"

text \<open>
  The map and the pending decodes refer to allocated renderables under their own topics, and
  no topic and no renderable is in the map twice.
\<close>

definition wfImages :: "Images \<Rightarrow> bool" where
  "wfImages st =
     (distinct (map fst (imagesByTopic st)) \<and> distinct (map snd (imagesByTopic st)) \<and>
      list_all (\<lambda>(t, rid). rid < length (objects st) \<and> ud_topic (objects st ! rid) = t)
        (imagesByTopic st) \<and>
      list_all (\<lambda>(rid, t, img). rid < length (objects st) \<and> ud_topic (objects st ! rid) = t)
        (pending st))"

text \<open>
  A renderable that the map of the manager does not hold (dispose removed it) has no geometry
  and no mesh.
\<close>

definition removedBare :: "Images \<Rightarrow> bool" where
  "removedBare st =
     list_all (\<lambda>rid. rid \<in> snd ` set (imagesByTopic st) \<or>
                     (ud_geometry (objects st ! rid) = None \<and> ud_mesh (objects st ! rid) = None))
       [0..<length (objects st)]"

text \<open>
  The states a manager can be in: it is created, its public operations are called (a call
  that throws leaves the state it had reached), pending decodes settle in any order, and the
  renderer changes its configuration, frames and camera models in between.
\<close>

inductive reachable :: "Images \<Rightarrow> bool" where
  created: "reachable (newImages config renderFrame fixedFrame cameras)"
| image: "reachable st \<Longrightarrow> reachable (stateOf (addImageMessage st topic img))"
| cameraInfo: "reachable st \<Longrightarrow> reachable (stateOf (addCameraInfoMessage st topic))"
| settings: "reachable st \<Longrightarrow> reachable (stateOf (setTopicSettings st topic s))"
| frame: "reachable st \<Longrightarrow> reachable (startFrame updatePose st currentTime)"
| disposed: "reachable st \<Longrightarrow> reachable (dispose st)"
| settled: "reachable st \<Longrightarrow> reachable (settle st k result)"
| renderer: "reachable st \<Longrightarrow>
     reachable (st\<lparr>config_topics := config, renderFrameId := renderFrame,
                   fixedFrameId := fixedFrame, cameraModels := cameras\<rparr>)"

section \<open>Sample inputs\<close>

definition camHeader :: "int \<Rightarrow> Header" where
  "camHeader t = \<lparr>frame_id = ''cam'', stamp = (t, 0)\<rparr>"

definition jpeg1 :: Image where
  "jpeg1 = CompressedImage (camHeader 1) ''jpeg'' [1]"

definition jpeg2 :: Image where
  "jpeg2 = CompressedImage (camHeader 2) ''jpeg'' [2]"

definition rgb3 :: Image where
  "rgb3 = RawImage (camHeader 3) 1 1 ''rgb8'' [0, 0, 0]"

definition pinhole :: PinholeCameraModel where
  "pinhole = \<lparr>cm_width = 640, cm_height = 480, rectifyPixel = (\<lambda>p. p),
              projectPixelTo3dRay = (\<lambda>p. (fst p, snd p, Num 1))\<rparr>"

definition camerasKnown :: "string \<Rightarrow> PinholeCameraModel option" where
  "camerasKnown t = (if t = ''cam/info'' then Some pinhole else None)"

definition bitmap7 :: ImageBitmap where
  "bitmap7 = ImageBitmap 1 1 [7]"

text \<open>A new manager, with both frames known and a camera model for \<open>cam/info\<close>.\<close>

definition started :: Images where
  "started = newImages (\<lambda>t. None) (Some ''base'') (Some ''map'') camerasKnown"

text \<open>One compressed image on \<open>cam/image\<close>, no camera-info topic known.\<close>

definition oneImage :: Images where
  "oneImage = stateOf (addImageMessage started ''cam/image'' jpeg1)"

text \<open>
  The camera-info topic arrives first, then the image, then its decode succeeds: the
  renderable has geometry, texture, material and mesh.
\<close>

definition infoKnown :: Images where
  "infoKnown = stateOf (addCameraInfoMessage started ''cam/info'')"

definition imageShown :: Images where
  "imageShown = stateOf (addImageMessage infoKnown ''cam/image'' jpeg1)"

definition decoded :: Images where
  "decoded = settle imageShown 0 (Fulfilled bitmap7)"

text \<open>A second image on the same topic.\<close>

definition twoImages :: Images where
  "twoImages = stateOf (addImageMessage oneImage ''cam/image'' jpeg2)"

text \<open>The camera-info topic of the same namespace arrives after the image.\<close>

definition infoAfterImage :: Outcome where
  "infoAfterImage = addCameraInfoMessage oneImage ''cam/info''"

text \<open>Only the distance is changed, on the renderable that shows its image.\<close>

definition farther :: PartialSettings where
  "farther = noSettings\<lparr>p_distance := Some 2\<rparr>"

definition movedAway :: Outcome where
  "movedAway = setTopicSettings decoded ''cam/image'' farther"

text \<open>The manager is disposed while the decode is pending; then the decode succeeds.\<close>

definition lateDecode :: Images where
  "lateDecode = settle (dispose imageShown) 0 (Fulfilled bitmap7)"

text \<open>
  A second image arrives while the first is being decoded, the manager is disposed with both
  decodes pending, and the two decodes succeed one after the other.
\<close>

definition bitmap8 :: ImageBitmap where
  "bitmap8 = ImageBitmap 1 1 [8]"

definition twoShown :: Images where
  "twoShown = stateOf (addImageMessage imageShown ''cam/image'' jpeg2)"

definition firstLate :: Images where
  "firstLate = settle (dispose twoShown) 0 (Fulfilled bitmap7)"

definition secondLate :: Images where
  "secondLate = settle firstLate 0 (Fulfilled bitmap8)"

text \<open>
  After the distance was changed, the settings the renderable now has are set once more.
\<close>

definition sameAgain :: Outcome where
  "sameAgain = setTopicSettings (stateOf movedAway) ''cam/image''
                 (asPartial (ud_settings (objects (stateOf movedAway) ! 0)))"

text \<open>
  The image is decoded before any camera-info topic is known; then the topic arrives, and
  then a raw image on the image topic.
\<close>

definition decodedFirst :: Images where
  "decodedFirst = settle oneImage 0 (Fulfilled bitmap7)"

definition infoLate :: Images where
  "infoLate = stateOf (addCameraInfoMessage decodedFirst ''cam/info'')"

definition rawAfter :: Outcome where
  "rawAfter = addImageMessage infoLate ''cam/image'' rgb3"

text \<open>
  A transform resolver that knows the transform at the time the sample image was taken
  (one second) and at no other time.
\<close>

definition movedPose :: Pose where
  "movedPose = \<lparr>pose_position = (1, 2, 3), pose_orientation = (0, 0, 0, 1)\<rparr>"

definition onlyAtStamp :: UpdatePose where
  "onlyAtStamp p renderFrame fixedFrame frameId dstTime srcTime =
     (if srcTime = 1000000000 then Some movedPose else None)"

definition framed :: Images where
  "framed = startFrame onlyAtStamp oneImage 5"

text \<open>The fields of a state that are data: all but the three maps kept as functions.\<close>

definition snapshot ::
  "Images \<Rightarrow> ImageRenderable list \<times> (string \<times> nat) list \<times> nat list \<times> bool \<times> string list \<times>
             (nat \<times> string \<times> Image) list \<times> string list list" where
  "snapshot st =
     (objects st, imagesByTopic st, children st, m_visible st, cameraInfoTopics st, pending st,
      emitted st)"

section \<open>Topic matching and auto-selection\<close>

lemma matchesLoop_iff:
  "matchesLoop a b i \<longleftrightarrow> (\<forall>j. i \<le> j \<and> j < length a - 1 \<longrightarrow> a ! j = b ! j)"
proof (induction a b i rule: matchesLoop.induct)
  case (1 a b i)
  show ?case
  proof (cases "i < length a - 1")
    case False
    then show ?thesis by (subst matchesLoop.simps) auto
  next
    case True
    show ?thesis
    proof (cases "a ! i = b ! i")
      case False
      with True show ?thesis by (subst matchesLoop.simps) auto
    next
      case eq: True
      have "matchesLoop a b i = matchesLoop a b (i + 1)"
        using True eq by (subst matchesLoop.simps) simp
      also have "\<dots> \<longleftrightarrow> (\<forall>j. i + 1 \<le> j \<and> j < length a - 1 \<longrightarrow> a ! j = b ! j)"
        using "1.IH" True eq by simp
      also have "\<dots> \<longleftrightarrow> (\<forall>j. i \<le> j \<and> j < length a - 1 \<longrightarrow> a ! j = b ! j)"
      proof -
        have "\<And>j. i \<le> j \<longleftrightarrow> j = i \<or> i + 1 \<le> j" by auto
        then show ?thesis using eq by auto
      qed
      finally show ?thesis .
    qed
  qed
qed

lemma butlast_eq_iff:
  "length a = length b \<Longrightarrow> butlast a = butlast b \<longleftrightarrow> (\<forall>j < length a - 1. a ! j = b ! j)"
  by (auto simp: list_eq_iff_nth_eq nth_butlast)

lemma cameraInfoTopicMatches_sameNamespace:
  "cameraInfoTopicMatches t c = sameNamespace t c"
  by (auto simp: cameraInfoTopicMatches_def sameNamespace_def Let_def matchesLoop_iff butlast_eq_iff)

lemma sort_head_Min:
  fixes xs :: "'a::linorder list"
  shows "(case sort xs of [] \<Rightarrow> None | c # cs \<Rightarrow> Some c) = (if set xs = {} then None else Some (Min (set xs)))"
proof (cases "sort xs")
  case Nil
  then have "xs = []" by (metis length_sort length_0_conv)
  with Nil show ?thesis by simp
next
  case (Cons c cs)
  have s: "sorted (c # cs)" and e: "set (c # cs) = set xs"
    using Cons by (metis sorted_sort, metis set_sort)
  have "Min (set xs) = c"
    using s e by (intro Min_eqI) (auto simp: e[symmetric])
  with Cons e show ?thesis by auto
qed

lemma autoSelectCameraInfoTopic_Min:
  "cameraInfoTopic (autoSelectCameraInfoTopic output t known) =
     (if {c \<in> set known. sameNamespace t c} = {} then None
      else Some (Min {c \<in> set known. sameNamespace t c}))"
proof -
  have "set (filter (cameraInfoTopicMatches t) known) = {c \<in> set known. sameNamespace t c}"
    by (auto simp: cameraInfoTopicMatches_sameNamespace)
  then show ?thesis
    unfolding autoSelectCameraInfoTopic_def Let_def
    using sort_head_Min[of "filter (cameraInfoTopicMatches t) known"] by simp
qed

lemma split_on_nonempty: "split_on sep s \<noteq> []"
  by (induction s) (auto split: list.split)

lemma joinWith_cons: "joinWith sep ((c # p) # ps) = c # joinWith sep (p # ps)"
  by (cases ps) simp_all

lemma joinWith_split_on: "joinWith sep (split_on sep s) = s"
proof (induction s)
  case Nil
  show ?case by simp
next
  case (Cons c cs)
  obtain p ps where s: "split_on sep cs = p # ps"
    using split_on_nonempty[of sep cs] by (cases "split_on sep cs") auto
  show ?case
    using Cons s by (simp add: joinWith_cons)
qed

lemma split_on_free: "p \<in> set (split_on sep s) \<Longrightarrow> sep \<notin> set p"
  by (induction s arbitrary: p) (auto split: list.splits if_splits)

lemma split_on_length: "length (split_on sep s) = Suc (length (filter (\<lambda>c. c = sep) s))"
proof (induction s)
  case Nil
  show ?case by simp
next
  case (Cons c cs)
  obtain p ps where s: "split_on sep cs = p # ps"
    using split_on_nonempty[of sep cs] by (cases "split_on sep cs") auto
  show ?case using Cons s by auto
qed

lemma split_on_segment: "sep \<notin> set p \<Longrightarrow> split_on sep p = [p]"
  by (induction p) auto

lemma split_on_append: "sep \<notin> set p \<Longrightarrow> split_on sep (p @ sep # rest) = p # split_on sep rest"
  by (induction p) auto

lemma split_on_joinWith:
  "ps \<noteq> [] \<Longrightarrow> (\<forall>p\<in>set ps. sep \<notin> set p) \<Longrightarrow> split_on sep (joinWith sep ps) = ps"
  by (induction sep ps rule: joinWith.induct) (simp_all add: split_on_segment split_on_append)

lemma sameNamespace_segments:
  "sameNamespace t c \<longleftrightarrow>
     (\<exists>ns a b. (\<forall>p\<in>set (a # b # ns). CHR ''/'' \<notin> set p) \<and>
        t = joinWith CHR ''/'' (ns @ [a]) \<and> c = joinWith CHR ''/'' (ns @ [b]))"
proof
  assume m: "sameNamespace t c"
  let ?t = "split_on CHR ''/'' t" and ?c = "split_on CHR ''/'' c"
  have bl: "butlast ?t = butlast ?c" using m by (simp add: sameNamespace_def)
  have t: "?t = butlast ?t @ [last ?t]" and c0: "?c = butlast ?c @ [last ?c]"
    using split_on_nonempty[of "CHR ''/''"] by simp_all
  have c: "?c = butlast ?t @ [last ?c]"
    unfolding bl by (rule c0)
  have "t = joinWith CHR ''/'' (butlast ?t @ [last ?t])"
    using joinWith_split_on[of "CHR ''/''" t] t by simp
  moreover have "c = joinWith CHR ''/'' (butlast ?t @ [last ?c])"
    using joinWith_split_on[of "CHR ''/''" c] c by simp
  moreover have "\<forall>p\<in>set (last ?t # last ?c # butlast ?t). CHR ''/'' \<notin> set p"
  proof
    fix p assume "p \<in> set (last ?t # last ?c # butlast ?t)"
    then have "p \<in> set ?t \<or> p \<in> set ?c"
      using split_on_nonempty[of "CHR ''/''"] by (auto dest: in_set_butlastD)
    then show "CHR ''/'' \<notin> set p" using split_on_free by blast
  qed
  ultimately show "\<exists>ns a b. (\<forall>p\<in>set (a # b # ns). CHR ''/'' \<notin> set p) \<and>
        t = joinWith CHR ''/'' (ns @ [a]) \<and> c = joinWith CHR ''/'' (ns @ [b])"
    by blast
next
  assume "\<exists>ns a b. (\<forall>p\<in>set (a # b # ns). CHR ''/'' \<notin> set p) \<and>
        t = joinWith CHR ''/'' (ns @ [a]) \<and> c = joinWith CHR ''/'' (ns @ [b])"
  then obtain ns a b where f: "\<forall>p\<in>set (a # b # ns). CHR ''/'' \<notin> set p"
    and t: "t = joinWith CHR ''/'' (ns @ [a])" and c: "c = joinWith CHR ''/'' (ns @ [b])"
    by blast
  have "split_on CHR ''/'' t = ns @ [a]"
    unfolding t using f by (intro split_on_joinWith) auto
  moreover have "split_on CHR ''/'' c = ns @ [b]"
    unfolding c using f by (intro split_on_joinWith) auto
  ultimately show "sameNamespace t c" by (simp add: sameNamespace_def)
qed

section \<open>What every operation preserves\<close>

lemma removeMesh_fields [simp]:
  "ud_mesh (removeMesh r) = None"
  "ud_geometry (removeMesh r) = ud_geometry r"
  "ud_material (removeMesh r) = ud_material r"
  "ud_texture (removeMesh r) = ud_texture r"
  "ud_settings (removeMesh r) = ud_settings r"
  "ud_topic (removeMesh r) = ud_topic r"
  "ud_image (removeMesh r) = ud_image r"
  "ud_pose (removeMesh r) = ud_pose r"
  "ud_srcTime (removeMesh r) = ud_srcTime r"
  "r_name (removeMesh r) = r_name r"
  "r_visible (removeMesh r) = r_visible r"
  by (simp_all add: removeMesh_def split: option.split)

lemma tryCreateMesh_fields [simp]:
  "ud_geometry (tryCreateMesh r) = ud_geometry r"
  "ud_material (tryCreateMesh r) = ud_material r"
  "ud_texture (tryCreateMesh r) = ud_texture r"
  "ud_settings (tryCreateMesh r) = ud_settings r"
  "ud_topic (tryCreateMesh r) = ud_topic r"
  "ud_image (tryCreateMesh r) = ud_image r"
  "ud_pose (tryCreateMesh r) = ud_pose r"
  "ud_srcTime (tryCreateMesh r) = ud_srcTime r"
  "r_name (tryCreateMesh r) = r_name r"
  "r_visible (tryCreateMesh r) = r_visible r"
  by (simp_all add: tryCreateMesh_def split: option.split)

lemma tryCreateMesh_mesh:
  "ud_mesh (tryCreateMesh r) =
     (case ud_mesh r of
        Some m \<Rightarrow> Some m
      | None \<Rightarrow> (case (ud_geometry r, ud_material r) of
                   (Some g, Some m) \<Rightarrow> Some (Mesh g m)
                 | _ \<Rightarrow> None))"
  by (simp add: tryCreateMesh_def split: option.split)

lemma rebuildMaterial_fields [simp]:
  "ud_mesh (rebuildMaterial r) = None"
  "ud_geometry (rebuildMaterial r) = ud_geometry r"
  "ud_texture (rebuildMaterial r) = ud_texture r"
  "ud_settings (rebuildMaterial r) = ud_settings r"
  "ud_topic (rebuildMaterial r) = ud_topic r"
  "ud_image (rebuildMaterial r) = ud_image r"
  "ud_pose (rebuildMaterial r) = ud_pose r"
  "ud_srcTime (rebuildMaterial r) = ud_srcTime r"
  "r_name (rebuildMaterial r) = r_name r"
  "r_visible (rebuildMaterial r) = r_visible r"
  by (simp_all add: rebuildMaterial_def Let_def split: option.split)

lemma rebuildMaterial_material:
  "ud_material (rebuildMaterial r) =
     (case ud_texture r of None \<Rightarrow> None
      | Some t \<Rightarrow> Some \<lparr>mat_name = ud_topic r @ '':Material'', mat_color = color (ud_settings r)\<rparr>)"
  by (simp add: rebuildMaterial_def Let_def createMaterial_def split: option.split)

lemma disposeGeometry_fields [simp]:
  "ud_mesh (disposeGeometry r) = None"
  "ud_geometry (disposeGeometry r) = None"
  "ud_material (disposeGeometry r) = ud_material r"
  "ud_texture (disposeGeometry r) = ud_texture r"
  "ud_settings (disposeGeometry r) = ud_settings r"
  "ud_topic (disposeGeometry r) = ud_topic r"
  "ud_image (disposeGeometry r) = ud_image r"
  "ud_pose (disposeGeometry r) = ud_pose r"
  "ud_srcTime (disposeGeometry r) = ud_srcTime r"
  "r_name (disposeGeometry r) = r_name r"
  "r_visible (disposeGeometry r) = r_visible r"
  by (simp_all add: disposeGeometry_def Let_def split: option.split)

lemma createPlaneGeometry_fields [simp]:
  "ud_material (createPlaneGeometry cams s r) = ud_material r"
  "ud_texture (createPlaneGeometry cams s r) = ud_texture r"
  "ud_settings (createPlaneGeometry cams s r) = ud_settings r"
  "ud_topic (createPlaneGeometry cams s r) = ud_topic r"
  "ud_image (createPlaneGeometry cams s r) = ud_image r"
  "ud_pose (createPlaneGeometry cams s r) = ud_pose r"
  "ud_srcTime (createPlaneGeometry cams s r) = ud_srcTime r"
  "r_name (createPlaneGeometry cams s r) = r_name r"
  "r_visible (createPlaneGeometry cams s r) = r_visible r"
  by (simp_all add: createPlaneGeometry_def split: option.split)

lemma createPlaneGeometry_cases:
  "createPlaneGeometry cams s r = r \<or>
   (ud_geometry r = None \<and> ud_mesh (createPlaneGeometry cams s r) = None \<and>
    ud_geometry (createPlaneGeometry cams s r) \<noteq> None)"
  by (simp add: createPlaneGeometry_def split: option.split)

lemma meshBacked_stages [simp]:
  "meshBacked (removeMesh r)"
  "meshBacked (rebuildMaterial r)"
  "meshBacked (disposeGeometry r)"
  by (simp_all add: meshBacked_def)

lemma meshBacked_createPlaneGeometry [simp]:
  "meshBacked r \<Longrightarrow> meshBacked (createPlaneGeometry cams s r)"
  using createPlaneGeometry_cases[of cams s r] by (auto simp: meshBacked_def)

lemma meshBacked_settings [simp]:
  "meshBacked (r\<lparr>ud_settings := x\<rparr>) = meshBacked r"
  by (simp add: meshBacked_def)

lemma meshIff_tryCreateMesh [simp]:
  "meshBacked r \<Longrightarrow> meshIff (tryCreateMesh r)"
  by (auto simp: meshBacked_def meshIff_def tryCreateMesh_mesh split: option.splits)

lemma meshIff_meshBacked: "meshIff r \<Longrightarrow> meshBacked r"
  by (auto simp: meshBacked_def meshIff_def)

lemma meshBacked_tryCreateMesh [simp]: "meshBacked r \<Longrightarrow> meshBacked (tryCreateMesh r)"
  by (rule meshIff_meshBacked) simp

lemma textured_stages [simp]:
  "textured (removeMesh r) = textured r"
  "textured (tryCreateMesh r) = textured r"
  "textured (disposeGeometry r) = textured r"
  "textured (createPlaneGeometry cams s r) = textured r"
  "textured (r\<lparr>ud_settings := x\<rparr>) = textured r"
  "textured (rebuildMaterial r)"
  by (simp_all add: textured_def rebuildMaterial_material split: option.split)



lemma updateImageRenderable_shape:
  "\<exists>r'. stateOf (updateImageRenderable st rid img s) =
          st\<lparr>objects := (objects st)[rid := r'],
             pending := pending st @
               (if hasFormat img then [(rid, ud_topic (objects st ! rid), img)] else [])\<rparr> \<and>
        kept (objects st ! rid) r' \<and>
        ud_settings r' = spread (ud_settings (objects st ! rid)) s \<and>
        (meshBacked (objects st ! rid) \<longrightarrow> meshBacked r') \<and>
        (textured (objects st ! rid) \<longrightarrow> textured r') \<and>
        (hasFormat img \<longrightarrow> meshBacked (objects st ! rid) \<longrightarrow> meshIff r')"
proof -
  define r where "r = objects st ! rid"
  define changed where
    "changed = (\<not> (cameraInfoTopic (spread (ud_settings r) s) = cameraInfoTopic (ud_settings r) \<and>
                    distance (spread (ud_settings r) s) = distance (ud_settings r)))"
  define g where
    "g = createPlaneGeometry (cameraModels st) s
           (if changed then disposeGeometry (r\<lparr>ud_settings := spread (ud_settings r) s\<rparr>)
            else r\<lparr>ud_settings := spread (ud_settings r) s\<rparr>)"
  define m where
    "m = tryCreateMesh
           (if ud_material g = None \<or> color (spread (ud_settings r) s) \<noteq> color (ud_settings r)
            then rebuildMaterial g else g)"
  define r' where "r' = (if hasFormat img then m else g)"
  have state: "stateOf (updateImageRenderable st rid img s) =
          st\<lparr>objects := (objects st)[rid := r'],
             pending := pending st @
               (if hasFormat img then [(rid, ud_topic (objects st ! rid), img)] else [])\<rparr>"
    by (simp add: updateImageRenderable_def Let_def setObject_def r'_def m_def g_def changed_def r_def)
  have g: "kept r g" "ud_settings g = spread (ud_settings r) s"
    "meshBacked r \<longrightarrow> meshBacked g" "textured r \<longrightarrow> textured g"
    by (simp_all add: g_def kept_def)
  have m: "kept r m" "ud_settings m = spread (ud_settings r) s"
    "meshBacked r \<longrightarrow> meshIff m" "textured r \<longrightarrow> textured m"
    using g by (simp_all add: m_def kept_def)
  have "kept r r'" "ud_settings r' = spread (ud_settings r) s"
    "meshBacked r \<longrightarrow> meshBacked r'" "textured r \<longrightarrow> textured r'"
    "hasFormat img \<longrightarrow> meshBacked r \<longrightarrow> meshIff r'"
    using g m by (auto simp: r'_def meshIff_meshBacked)
  with state show ?thesis unfolding r_def by blast
qed

lemma updateImageRenderable_isl:
  "isl (updateImageRenderable st rid img s) = (\<not> hasFormat img)"
  by (simp add: updateImageRenderable_def Let_def)




lemma heapAll_setObject:
  "heapAll P st \<Longrightarrow> (rid < length (objects st) \<Longrightarrow> P r') \<Longrightarrow> heapAll P (setObject st rid r')"
  by (cases "rid < length (objects st)")
     (auto simp: heapAll_def setObject_def list_all_iff list_update_beyond
           dest: set_update_subset_insert[THEN subsetD])

lemma heapAll_nth: "heapAll P st \<Longrightarrow> rid < length (objects st) \<Longrightarrow> P (objects st ! rid)"
  by (simp add: heapAll_def list_all_length)

lemma wfImages_setObject:
  "wfImages st \<Longrightarrow> (rid < length (objects st) \<Longrightarrow> ud_topic r' = ud_topic (objects st ! rid)) \<Longrightarrow>
   wfImages (setObject st rid r')"
  by (cases "rid < length (objects st)")
     (auto simp: wfImages_def setObject_def list_all_iff nth_list_update list_update_beyond)

lemma wfImages_cong:
  "objects st' = objects st \<Longrightarrow> imagesByTopic st' = imagesByTopic st \<Longrightarrow>
   pending st' = pending st \<Longrightarrow> wfImages st' = wfImages st"
  by (simp add: wfImages_def)

lemma heapAll_cong: "objects st' = objects st \<Longrightarrow> heapAll P st' = heapAll P st"
  by (simp add: heapAll_def)

lemma updateImageRenderable_preserves:
  assumes "rid < length (objects st)"
  shows "wfImages st \<Longrightarrow> wfImages (stateOf (updateImageRenderable st rid img s))"
    and "heapAll sound st \<Longrightarrow> heapAll sound (stateOf (updateImageRenderable st rid img s))"
    and "heapAll meshIff st \<Longrightarrow> hasFormat img \<Longrightarrow>
         heapAll meshIff (stateOf (updateImageRenderable st rid img s))"
proof -
  obtain r' where st': "stateOf (updateImageRenderable st rid img s) =
          st\<lparr>objects := (objects st)[rid := r'],
             pending := pending st @
               (if hasFormat img then [(rid, ud_topic (objects st ! rid), img)] else [])\<rparr>"
    and k: "kept (objects st ! rid) r'"
    and mb: "meshBacked (objects st ! rid) \<longrightarrow> meshBacked r'"
    and tx: "textured (objects st ! rid) \<longrightarrow> textured r'"
    and mi: "hasFormat img \<longrightarrow> meshBacked (objects st ! rid) \<longrightarrow> meshIff r'"
    using updateImageRenderable_shape[of st rid img s] by blast
  have obj: "objects (stateOf (updateImageRenderable st rid img s)) = objects (setObject st rid r')"
    by (simp add: st' setObject_def)
  show "wfImages st \<Longrightarrow> wfImages (stateOf (updateImageRenderable st rid img s))"
    using assms k unfolding st'
    by (auto simp: wfImages_def list_all_iff nth_list_update kept_def)
  show "heapAll sound st \<Longrightarrow> heapAll sound (stateOf (updateImageRenderable st rid img s))"
    using heapAll_setObject[of sound st rid r'] heapAll_nth[of sound st rid] mb tx assms
    by (simp add: heapAll_cong[OF obj] sound_def)
  show "heapAll meshIff st \<Longrightarrow> hasFormat img \<Longrightarrow>
         heapAll meshIff (stateOf (updateImageRenderable st rid img s))"
    using heapAll_setObject[of meshIff st rid r'] heapAll_nth[of meshIff st rid] mi assms
    by (simp add: heapAll_cong[OF obj] meshIff_meshBacked)
qed


lemma fresh_renderable [simp]:
  "sound (newRenderable topic u img)" "meshIff (newRenderable topic u img)"
  "ud_topic (newRenderable topic u img) = topic"
  by (simp_all add: newRenderable_def sound_def meshBacked_def textured_def meshIff_def)

lemma map_of_wfImages:
  "wfImages st \<Longrightarrow> map_of (imagesByTopic st) topic = Some rid \<Longrightarrow>
   rid < length (objects st) \<and> ud_topic (objects st ! rid) = topic"
  by (auto simp: wfImages_def list_all_iff dest!: map_of_SomeD)

lemma getOrCreate_preserves:
  assumes "wfImages st" and "getOrCreate st topic img = (st1, rid)"
  shows "wfImages st1" and "rid < length (objects st1)"
    and "map_of (imagesByTopic st1) topic = Some rid"
    and "heapAll P st \<Longrightarrow> P (newRenderable topic (config_topics st topic) img) \<Longrightarrow> heapAll P st1"
proof -
  show "wfImages st1"
  proof (cases "map_of (imagesByTopic st) topic")
    case None
    then have fresh_topic: "topic \<notin> fst ` set (imagesByTopic st)"
      by (simp add: map_of_eq_None_iff)
    have old: "\<And>t r. (t, r) \<in> set (imagesByTopic st) \<Longrightarrow>
                 r < length (objects st) \<and> ud_topic (objects st ! r) = t"
      and pend: "\<And>r t i. (r, t, i) \<in> set (pending st) \<Longrightarrow>
                 r < length (objects st) \<and> ud_topic (objects st ! r) = t"
      and d: "distinct (map fst (imagesByTopic st))" "distinct (map snd (imagesByTopic st))"
      using assms(1) by (auto simp: wfImages_def list_all_iff)
    have fresh_rid: "length (objects st) \<notin> snd ` set (imagesByTopic st)"
      using old by fastforce
    have st1: "st1 = st\<lparr>objects := objects st @ [newRenderable topic (config_topics st topic) img],
                          children := children st @ [length (objects st)],
                          imagesByTopic := imagesByTopic st @ [(topic, length (objects st))]\<rparr>"
      using assms(2) None by (auto simp: getOrCreate_def Let_def)
    have "list_all (\<lambda>(t, rid). rid < length (objects st1) \<and> ud_topic (objects st1 ! rid) = t)
            (imagesByTopic st1)"
      using old by (fastforce simp: st1 list_all_iff nth_append newRenderable_def)
    moreover have "list_all (\<lambda>(rid, t, img). rid < length (objects st1) \<and> ud_topic (objects st1 ! rid) = t)
            (pending st1)"
      using pend by (fastforce simp: st1 list_all_iff nth_append)
    moreover have "distinct (map fst (imagesByTopic st1))" "distinct (map snd (imagesByTopic st1))"
      using d fresh_topic fresh_rid by (simp_all add: st1)
    ultimately show ?thesis by (simp add: wfImages_def)
  next
    case (Some a)
    with assms show ?thesis by (simp add: getOrCreate_def)
  qed
  show "rid < length (objects st1)"
    using assms map_of_wfImages[of st topic]
    by (auto simp: getOrCreate_def Let_def split: option.splits)
  show "map_of (imagesByTopic st1) topic = Some rid"
    using assms by (auto simp: getOrCreate_def Let_def map_add_def split: option.splits)
  show "heapAll P st \<Longrightarrow> P (newRenderable topic (config_topics st topic) img) \<Longrightarrow> heapAll P st1"
    using assms by (auto simp: getOrCreate_def Let_def heapAll_def split: option.splits)
qed

lemma autoSelect_preserves:
  shows "wfImages st \<Longrightarrow> wfImages (autoSelect st rid topic)"
    and "length (objects (autoSelect st rid topic)) = length (objects st)"
    and "imagesByTopic (autoSelect st rid topic) = imagesByTopic st"
    and "(\<And>r x. P (r\<lparr>ud_settings := x\<rparr>) = P r) \<Longrightarrow> heapAll P st \<Longrightarrow>
         heapAll P (autoSelect st rid topic)"
proof -
  let ?r' = "(objects st ! rid)\<lparr>ud_settings :=
               autoSelectCameraInfoTopic (ud_settings (objects st ! rid)) topic (cameraInfoTopics st)\<rparr>"
  have obj: "objects (autoSelect st rid topic) = objects st \<or>
             objects (autoSelect st rid topic) = objects (setObject st rid ?r')"
    and rest: "imagesByTopic (autoSelect st rid topic) = imagesByTopic st"
      "pending (autoSelect st rid topic) = pending st"
    by (simp_all add: autoSelect_def Let_def setObject_def emit_def)
  show "imagesByTopic (autoSelect st rid topic) = imagesByTopic st" by fact
  show "length (objects (autoSelect st rid topic)) = length (objects st)"
    using obj by (auto simp: setObject_def)
  show "wfImages st \<Longrightarrow> wfImages (autoSelect st rid topic)"
    using obj rest wfImages_setObject[of st rid ?r']
    by (auto simp: wfImages_cong[of "autoSelect st rid topic" st]
                   wfImages_cong[of "autoSelect st rid topic" "setObject st rid ?r'"] setObject_def)
  show "(\<And>r x. P (r\<lparr>ud_settings := x\<rparr>) = P r) \<Longrightarrow> heapAll P st \<Longrightarrow>
         heapAll P (autoSelect st rid topic)"
    using obj heapAll_setObject[of P st rid ?r'] heapAll_nth[of P st rid]
    by (auto simp: heapAll_cong[of "autoSelect st rid topic" st]
                   heapAll_cong[of "autoSelect st rid topic" "setObject st rid ?r'"])
qed

lemma settings_irrelevant [simp]:
  "sound (r\<lparr>ud_settings := x\<rparr>) = sound r" "meshIff (r\<lparr>ud_settings := x\<rparr>) = meshIff r"
  by (simp_all add: sound_def meshIff_def)

lemma addImageMessage_preserves:
  assumes "wfImages st"
  shows "wfImages (stateOf (addImageMessage st topic img))"
    and "heapAll sound st \<Longrightarrow> heapAll sound (stateOf (addImageMessage st topic img))"
    and "heapAll meshIff st \<Longrightarrow> hasFormat img \<Longrightarrow>
         heapAll meshIff (stateOf (addImageMessage st topic img))"
    and "isl (addImageMessage st topic img) = (\<not> hasFormat img)"
proof -
  obtain st1 rid where g: "getOrCreate st topic img = (st1, rid)"
    by (cases "getOrCreate st topic img")
  let ?st2 = "autoSelect st1 rid topic"
  have eq: "addImageMessage st topic img =
            updateImageRenderable ?st2 rid img (asPartial (ud_settings (objects ?st2 ! rid)))"
    by (simp add: addImageMessage_def g Let_def)
  have wf2: "wfImages ?st2" and len: "rid < length (objects ?st2)"
    using getOrCreate_preserves(1,2)[OF assms g] autoSelect_preserves(1,2)[of st1 rid topic]
    by simp_all
  show "wfImages (stateOf (addImageMessage st topic img))"
    unfolding eq using updateImageRenderable_preserves(1)[OF len wf2] .
  show "heapAll sound st \<Longrightarrow> heapAll sound (stateOf (addImageMessage st topic img))"
    unfolding eq
    using updateImageRenderable_preserves(2)[OF len]
      autoSelect_preserves(4)[of sound st1 rid topic] getOrCreate_preserves(4)[OF assms g, of sound]
    by simp
  show "heapAll meshIff st \<Longrightarrow> hasFormat img \<Longrightarrow>
         heapAll meshIff (stateOf (addImageMessage st topic img))"
    unfolding eq
    using updateImageRenderable_preserves(3)[OF len]
      autoSelect_preserves(4)[of meshIff st1 rid topic] getOrCreate_preserves(4)[OF assms g, of meshIff]
    by simp
  show "isl (addImageMessage st topic img) = (\<not> hasFormat img)"
    unfolding eq by (rule updateImageRenderable_isl)
qed


lemma setTopicSettings_preserves:
  assumes "wfImages st"
  shows "wfImages (stateOf (setTopicSettings st topic s))"
    and "heapAll sound st \<Longrightarrow> heapAll sound (stateOf (setTopicSettings st topic s))"
    and "heapAll meshIff st \<Longrightarrow> \<not> isl (setTopicSettings st topic s) \<Longrightarrow>
         heapAll meshIff (stateOf (setTopicSettings st topic s))"
proof -
  have "wfImages (stateOf (setTopicSettings st topic s)) \<and>
        (heapAll sound st \<longrightarrow> heapAll sound (stateOf (setTopicSettings st topic s))) \<and>
        (heapAll meshIff st \<longrightarrow> \<not> isl (setTopicSettings st topic s) \<longrightarrow>
           heapAll meshIff (stateOf (setTopicSettings st topic s)))"
  proof (cases "map_of (imagesByTopic st) topic")
    case None
    then have "setTopicSettings st topic s = Inr st" by (simp add: setTopicSettings_def)
    with assms show ?thesis by simp
  next
    case (Some rid)
    then have eq: "setTopicSettings st topic s =
                   updateImageRenderable st rid (ud_image (objects st ! rid)) s"
      by (simp add: setTopicSettings_def)
    have len: "rid < length (objects st)"
      using map_of_wfImages[OF assms Some] by simp
    show ?thesis
      unfolding eq
      using updateImageRenderable_preserves[OF len, of "ud_image (objects st ! rid)" s] assms
      by (simp add: updateImageRenderable_isl)
  qed
  then show "wfImages (stateOf (setTopicSettings st topic s))"
    and "heapAll sound st \<Longrightarrow> heapAll sound (stateOf (setTopicSettings st topic s))"
    and "heapAll meshIff st \<Longrightarrow> \<not> isl (setTopicSettings st topic s) \<Longrightarrow>
         heapAll meshIff (stateOf (setTopicSettings st topic s))"
    by simp_all
qed

lemma irrelevant_fields [simp]:
  "wfImages (emit st path) = wfImages st" "heapAll P (emit st path) = heapAll P st"
  "wfImages (st\<lparr>cameraInfoTopics := x\<rparr>) = wfImages st"
  "heapAll P (st\<lparr>cameraInfoTopics := x\<rparr>) = heapAll P st"
  "wfImages (st\<lparr>layerErrors := e\<rparr>) = wfImages st"
  "heapAll P (st\<lparr>layerErrors := e\<rparr>) = heapAll P st"
  "wfImages (st\<lparr>m_visible := b\<rparr>) = wfImages st"
  "heapAll P (st\<lparr>m_visible := b\<rparr>) = heapAll P st"
  "heapAll P (st\<lparr>pending := q\<rparr>) = heapAll P st"
  "heapAll P (st\<lparr>children := c\<rparr>) = heapAll P st"
  "heapAll P (st\<lparr>imagesByTopic := i\<rparr>) = heapAll P st"
  by (simp_all add: emit_def wfImages_def heapAll_def)

lemma addCameraInfoMessage_preserves:
  assumes "wfImages st"
  shows "wfImages (stateOf (addCameraInfoMessage st topic))"
    and "heapAll sound st \<Longrightarrow> heapAll sound (stateOf (addCameraInfoMessage st topic))"
    and "heapAll meshIff st \<Longrightarrow> \<not> isl (addCameraInfoMessage st topic) \<Longrightarrow>
         heapAll meshIff (stateOf (addCameraInfoMessage st topic))"
proof -
  define st1 where
    "st1 = (if topic \<notin> set (cameraInfoTopics st)
            then st\<lparr>cameraInfoTopics := cameraInfoTopics st @ [topic]\<rparr> else st)"
  have wf1: "wfImages st1" and h1: "\<And>P. heapAll P st1 = heapAll P st"
    using assms by (simp_all add: st1_def)
  have "wfImages (stateOf (addCameraInfoMessage st topic)) \<and>
      (heapAll sound st \<longrightarrow> heapAll sound (stateOf (addCameraInfoMessage st topic))) \<and>
      (heapAll meshIff st \<longrightarrow> \<not> isl (addCameraInfoMessage st topic) \<longrightarrow>
         heapAll meshIff (stateOf (addCameraInfoMessage st topic)))"
  proof (cases "map_of (imagesByTopic st1) topic")
    case None
    then have "stateOf (addCameraInfoMessage st topic) = st1 \<or>
               stateOf (addCameraInfoMessage st topic) = emit st1 [''topics'']"
      unfolding addCameraInfoMessage_def Let_def st1_def[symmetric] by simp
    then show ?thesis using wf1 h1 by auto
  next
    case (Some rid)
    have len: "rid < length (objects st1)"
      using map_of_wfImages[OF wf1 Some] by simp
    define u where "u = updateImageRenderable st1 rid (ud_image (objects st1 ! rid))
                (asPartial (ud_settings (objects st1 ! rid)))"
    have a: "addCameraInfoMessage st topic =
             (case u of Inl thrown \<Rightarrow> Inl thrown
              | Inr st2 \<Rightarrow> Inr (if topic \<notin> set (cameraInfoTopics st) then emit st2 [''topics''] else st2))"
      using Some unfolding addCameraInfoMessage_def Let_def st1_def[symmetric] u_def by simp
    have eq: "stateOf (addCameraInfoMessage st topic) = stateOf u \<or>
              stateOf (addCameraInfoMessage st topic) = emit (stateOf u) [''topics'']"
      unfolding a by (cases u) auto
    have thrown: "isl (addCameraInfoMessage st topic) = isl u"
      unfolding a by (cases u) auto
    have u: "wfImages (stateOf u)" "heapAll sound st \<longrightarrow> heapAll sound (stateOf u)"
      "heapAll meshIff st \<longrightarrow> \<not> isl u \<longrightarrow> heapAll meshIff (stateOf u)"
      using updateImageRenderable_preserves[OF len, of "ud_image (objects st1 ! rid)"
                 "asPartial (ud_settings (objects st1 ! rid))"] wf1 h1
      unfolding u_def updateImageRenderable_isl by simp_all
    show ?thesis using eq u unfolding thrown by auto
  qed
  then show "wfImages (stateOf (addCameraInfoMessage st topic))"
    and "heapAll sound st \<Longrightarrow> heapAll sound (stateOf (addCameraInfoMessage st topic))"
    and "heapAll meshIff st \<Longrightarrow> \<not> isl (addCameraInfoMessage st topic) \<Longrightarrow>
         heapAll meshIff (stateOf (addCameraInfoMessage st topic))"
    by simp_all
qed

lemma foldl_preserves:
  "(\<And>s x. I s \<Longrightarrow> I (f s x)) \<Longrightarrow> I s \<Longrightarrow> I (foldl f s xs)"
  by (induction xs arbitrary: s) simp_all

lemma startFrameOne_preserves:
  shows "wfImages st \<Longrightarrow> wfImages (startFrameOne up rf ff t st rid)"
    and "(\<And>r v. P (r\<lparr>r_visible := v\<rparr>) = P r) \<Longrightarrow> (\<And>r p. P (r\<lparr>ud_pose := p\<rparr>) = P r) \<Longrightarrow>
         heapAll P st \<Longrightarrow> heapAll P (startFrameOne up rf ff t st rid)"
proof -
  show "wfImages st \<Longrightarrow> wfImages (startFrameOne up rf ff t st rid)"
    unfolding startFrameOne_def Let_def
    by (auto split: option.split intro!: wfImages_setObject)
  show "(\<And>r v. P (r\<lparr>r_visible := v\<rparr>) = P r) \<Longrightarrow> (\<And>r p. P (r\<lparr>ud_pose := p\<rparr>) = P r) \<Longrightarrow>
         heapAll P st \<Longrightarrow> heapAll P (startFrameOne up rf ff t st rid)"
    unfolding startFrameOne_def Let_def
    by (auto split: option.split intro!: heapAll_setObject dest: heapAll_nth)
qed


lemma startFrame_preserves:
  shows "wfImages st \<Longrightarrow> wfImages (startFrame up st t)"
    and "(\<And>r v. P (r\<lparr>r_visible := v\<rparr>) = P r) \<Longrightarrow> (\<And>r p. P (r\<lparr>ud_pose := p\<rparr>) = P r) \<Longrightarrow>
         heapAll P st \<Longrightarrow> heapAll P (startFrame up st t)"
proof -
  show "wfImages st \<Longrightarrow> wfImages (startFrame up st t)"
    unfolding startFrame_def
    by (auto split: option.split intro!: foldl_preserves[where I = wfImages]
             startFrameOne_preserves(1))
  assume P: "\<And>r v. P (r\<lparr>r_visible := v\<rparr>) = P r" "\<And>r p. P (r\<lparr>ud_pose := p\<rparr>) = P r"
  show "heapAll P st \<Longrightarrow> heapAll P (startFrame up st t)"
    unfolding startFrame_def
    by (auto split: option.split intro!: foldl_preserves[where I = "heapAll P"]
             startFrameOne_preserves(2)[of P] simp: P)
qed

lemma disposeOne_fields [simp]:
  "ud_topic (disposeOne r) = ud_topic r" "ud_mesh (disposeOne r) = None"
  "ud_geometry (disposeOne r) = None" "ud_material (disposeOne r) = None"
  "ud_texture (disposeOne r) = None" "r_children (disposeOne r) = r_children r"
  by (simp_all add: disposeOne_def)

lemma disposeOne_sound [simp]: "sound (disposeOne r)" "meshIff (disposeOne r)"
  by (simp_all add: sound_def meshBacked_def textured_def meshIff_def)

lemma dispose_preserves:
  shows "wfImages st \<Longrightarrow> wfImages (dispose st)"
    and "heapAll sound st \<Longrightarrow> heapAll sound (dispose st)"
    and "heapAll meshIff st \<Longrightarrow> heapAll meshIff (dispose st)"
proof -
  let ?f = "\<lambda>s rid. setObject s rid (disposeOne (objects s ! rid))"
  let ?st1 = "foldl ?f st (map snd (imagesByTopic st))"
  have "wfImages st \<Longrightarrow> wfImages ?st1"
    by (rule foldl_preserves[where I = wfImages]) (auto intro!: wfImages_setObject)
  then show "wfImages st \<Longrightarrow> wfImages (dispose st)"
    by (simp add: dispose_def wfImages_def)
  have "\<And>P. (\<And>r. P (disposeOne r)) \<Longrightarrow> heapAll P st \<Longrightarrow> heapAll P ?st1"
    by (rule foldl_preserves) (auto intro!: heapAll_setObject)
  then show "heapAll sound st \<Longrightarrow> heapAll sound (dispose st)"
    and "heapAll meshIff st \<Longrightarrow> heapAll meshIff (dispose st)"
    by (simp_all add: dispose_def)
qed

lemma onBitmap_renderable:
  "\<exists>r'. objects (onBitmap st rid topic bitmap) = objects (setObject st rid r') \<and>
        ud_topic r' = ud_topic (objects st ! rid) \<and>
        (sound (objects st ! rid) \<longrightarrow> sound r') \<and>
        (meshIff (objects st ! rid) \<longrightarrow> meshIff r')"
proof -
  define r where "r = objects st ! rid"
  define r' where
    "r' = (case ud_texture r of
             None \<Rightarrow> tryCreateMesh (rebuildMaterial
                       (r\<lparr>ud_texture := Some \<lparr>tex_image = bitmap\<rparr>,
                          calls := calls r @ [TextureCreate]\<rparr>))
           | Some t \<Rightarrow> r\<lparr>ud_texture := Some (t\<lparr>tex_image := bitmap\<rparr>)\<rparr>)"
  have "objects (onBitmap st rid topic bitmap) = objects (setObject st rid r')"
    unfolding r'_def r_def by (simp add: onBitmap_def Let_def setObject_def)
  moreover have "ud_topic r' = ud_topic r"
    by (cases "ud_texture r") (simp_all add: r'_def)
  moreover have "sound r \<longrightarrow> sound r'"
  proof (cases "ud_texture r")
    case None
    then show ?thesis by (simp add: r'_def sound_def)
  next
    case (Some t)
    then show ?thesis by (auto simp: r'_def sound_def textured_def meshBacked_def)
  qed
  moreover have "meshIff r \<longrightarrow> meshIff r'"
  proof (cases "ud_texture r")
    case None
    then show ?thesis by (simp add: r'_def)
  next
    case (Some t)
    then show ?thesis by (simp add: r'_def meshIff_def)
  qed
  ultimately show ?thesis unfolding r_def by blast
qed

lemma onBitmap_preserves:
  shows "wfImages st \<Longrightarrow> wfImages (onBitmap st rid topic bitmap)"
    and "heapAll sound st \<Longrightarrow> heapAll sound (onBitmap st rid topic bitmap)"
    and "heapAll meshIff st \<Longrightarrow> heapAll meshIff (onBitmap st rid topic bitmap)"
proof -
  obtain r' where obj: "objects (onBitmap st rid topic bitmap) = objects (setObject st rid r')"
    and t: "ud_topic r' = ud_topic (objects st ! rid)"
    and s: "sound (objects st ! rid) \<longrightarrow> sound r'"
    and m: "meshIff (objects st ! rid) \<longrightarrow> meshIff r'"
    using onBitmap_renderable[of st rid topic bitmap] by blast
  have fields: "imagesByTopic (onBitmap st rid topic bitmap) = imagesByTopic (setObject st rid r')"
    "pending (onBitmap st rid topic bitmap) = pending (setObject st rid r')"
    by (simp_all add: onBitmap_def Let_def setObject_def)
  show "wfImages st \<Longrightarrow> wfImages (onBitmap st rid topic bitmap)"
    unfolding wfImages_cong[OF obj fields] by (erule wfImages_setObject) (rule t)
  show "heapAll sound st \<Longrightarrow> heapAll sound (onBitmap st rid topic bitmap)"
    unfolding heapAll_cong[OF obj] using s heapAll_nth[of sound st rid]
    by (intro heapAll_setObject) simp_all
  show "heapAll meshIff st \<Longrightarrow> heapAll meshIff (onBitmap st rid topic bitmap)"
    unfolding heapAll_cong[OF obj] using m heapAll_nth[of meshIff st rid]
    by (intro heapAll_setObject) simp_all
qed

lemma wfImages_fewer_pending:
  "wfImages st \<Longrightarrow> wfImages (st\<lparr>pending := take k (pending st) @ drop (Suc k) (pending st)\<rparr>)"
proof -
  have "set (take k (pending st) @ drop (Suc k) (pending st)) \<subseteq> set (pending st)"
    by (auto dest: in_set_takeD in_set_dropD)
  then show "wfImages st \<Longrightarrow> ?thesis"
    unfolding wfImages_def list_all_iff by auto
qed

lemma settle_preserves:
  shows "wfImages st \<Longrightarrow> wfImages (settle st k res)"
    and "heapAll sound st \<Longrightarrow> heapAll sound (settle st k res)"
    and "heapAll meshIff st \<Longrightarrow> heapAll meshIff (settle st k res)"
proof -
  let ?st1 = "st\<lparr>pending := take k (pending st) @ drop (Suc k) (pending st)\<rparr>"
  obtain rid topic img where p: "pending st ! k = (rid, topic, img)"
    by (cases "pending st ! k")
  have "wfImages st \<longrightarrow> wfImages (settle st k res)" and
    "heapAll sound st \<longrightarrow> heapAll sound (settle st k res)" and
    "heapAll meshIff st \<longrightarrow> heapAll meshIff (settle st k res)"
  proof (atomize (full), cases "k < length (pending st)")
    case False
    then have "settle st k res = st" by (simp add: settle_def)
    then show "(wfImages st \<longrightarrow> wfImages (settle st k res)) \<and>
      (heapAll sound st \<longrightarrow> heapAll sound (settle st k res)) \<and>
      (heapAll meshIff st \<longrightarrow> heapAll meshIff (settle st k res))" by simp
  next
    case True
    show "(wfImages st \<longrightarrow> wfImages (settle st k res)) \<and>
      (heapAll sound st \<longrightarrow> heapAll sound (settle st k res)) \<and>
      (heapAll meshIff st \<longrightarrow> heapAll meshIff (settle st k res))"
    proof (cases res)
      case (Fulfilled bitmap)
      then have eq: "settle st k res = onBitmap ?st1 rid topic bitmap"
        using True p by (simp add: settle_def Let_def)
      have h1: "\<And>P. heapAll P ?st1 = heapAll P st" by simp
      have "wfImages st \<Longrightarrow> wfImages (onBitmap ?st1 rid topic bitmap)"
        using onBitmap_preserves(1)[OF wfImages_fewer_pending] .
      then show ?thesis
        unfolding eq using onBitmap_preserves(2,3)[of ?st1 rid topic bitmap]
        unfolding h1 by blast
    next
      case (Rejected msg)
      then have eq: "settle st k res = onBitmapError ?st1 topic msg"
        using True p by (simp add: settle_def Let_def)
      show ?thesis
        unfolding eq onBitmapError_def
        using wfImages_fewer_pending[of st k] by simp
    qed
  qed
  then show "wfImages st \<Longrightarrow> wfImages (settle st k res)"
    and "heapAll sound st \<Longrightarrow> heapAll sound (settle st k res)"
    and "heapAll meshIff st \<Longrightarrow> heapAll meshIff (settle st k res)"
    by simp_all
qed

lemma heapAll_mono: "(\<And>r. P r \<Longrightarrow> Q r) \<Longrightarrow> heapAll P st \<Longrightarrow> heapAll Q st"
  by (auto simp: heapAll_def list_all_iff)

section \<open>Reachable states\<close>

text \<open>
  Every reachable state is well formed, and in it every renderable ever allocated has a mesh
  only together with geometry and material, and a texture only together with a material.
\<close>

lemma reachable_invariant: "reachable st \<Longrightarrow> wfImages st \<and> heapAll sound st"
proof (induction rule: reachable.induct)
  case (created config renderFrame fixedFrame cameras)
  show ?case by (simp add: newImages_def wfImages_def heapAll_def)
next
  case (image st topic img)
  then show ?case using addImageMessage_preserves(1,2)[of st topic img] by simp
next
  case (cameraInfo st topic)
  then show ?case using addCameraInfoMessage_preserves(1,2)[of st topic] by simp
next
  case (settings st topic s)
  then show ?case using setTopicSettings_preserves(1,2)[of st topic s] by simp
next
  case (frame st updatePose currentTime)
  have "\<And>r v. sound (r\<lparr>r_visible := v\<rparr>) = sound r"
    and "\<And>r p. sound (r\<lparr>ud_pose := p\<rparr>) = sound r"
    by (simp_all add: sound_def meshBacked_def textured_def)
  then have "heapAll sound st \<Longrightarrow> heapAll sound (startFrame updatePose st currentTime)"
    by (rule startFrame_preserves(2))
  then show ?case
    using frame.IH startFrame_preserves(1)[of st updatePose currentTime] by simp
next
  case (disposed st)
  then show ?case using dispose_preserves(1,2)[of st] by simp
next
  case (settled st k result)
  then show ?case using settle_preserves(1,2)[of st k result] by simp
next
  case (renderer st config renderFrame fixedFrame cameras)
  then show ?case by (simp add: wfImages_def heapAll_def)
qed

section \<open>The library calls of each block\<close>

lemma removeMesh_calls:
  "calls (removeMesh r) = calls r @ (case ud_mesh r of None \<Rightarrow> [] | Some m \<Rightarrow> [MeshRemove])"
  "r_children (removeMesh r) =
     (case ud_mesh r of None \<Rightarrow> r_children r | Some m \<Rightarrow> remove1 m (r_children r))"
  by (simp_all add: removeMesh_def split: option.split)

lemma disposeGeometry_calls:
  "calls (disposeGeometry r) =
     calls r @ (case ud_geometry r of None \<Rightarrow> [] | Some g \<Rightarrow> [GeometryDispose])
             @ (case ud_mesh r of None \<Rightarrow> [] | Some m \<Rightarrow> [MeshRemove])"
  "r_children (disposeGeometry r) =
     (case ud_mesh r of None \<Rightarrow> r_children r | Some m \<Rightarrow> remove1 m (r_children r))"
  by (simp_all add: disposeGeometry_def Let_def removeMesh_calls split: option.split)

lemma rebuildMaterial_calls:
  "calls (rebuildMaterial r) =
     calls r @ (case ud_material r of None \<Rightarrow> [] | Some m \<Rightarrow> [MaterialDispose])
             @ (case ud_texture r of None \<Rightarrow> [] | Some t \<Rightarrow> [MaterialCreate])
             @ (case ud_mesh r of None \<Rightarrow> [] | Some m \<Rightarrow> [MeshRemove])"
  "r_children (rebuildMaterial r) =
     (case ud_mesh r of None \<Rightarrow> r_children r | Some m \<Rightarrow> remove1 m (r_children r))"
  by (simp_all add: rebuildMaterial_def Let_def removeMesh_calls split: option.split)

lemma createPlaneGeometry_unchanged:
  "ud_geometry r \<noteq> None \<Longrightarrow> createPlaneGeometry cams s r = r"
  by (auto simp: createPlaneGeometry_def split: option.split)

lemma createPlaneGeometry_calls:
  "\<exists>new. calls (createPlaneGeometry cams s r) = calls r @ new \<and>
         set new \<subseteq> {GeometryCreate, MeshRemove} \<and>
         (ud_mesh r = None \<longrightarrow> set new \<subseteq> {GeometryCreate})"
  by (auto simp: createPlaneGeometry_def removeMesh_calls split: option.split)

lemma createPlaneGeometry_mesh:
  "ud_mesh (createPlaneGeometry cams s r) = None \<or>
   (ud_mesh (createPlaneGeometry cams s r) = ud_mesh r \<and>
    r_children (createPlaneGeometry cams s r) = r_children r)"
  by (auto simp: createPlaneGeometry_def split: option.split)

lemma tryCreateMesh_calls:
  "calls (tryCreateMesh r) =
     calls r @ (if ud_mesh r = None \<and> ud_geometry r \<noteq> None \<and> ud_material r \<noteq> None
                then [MeshAdd] else [])"
  by (auto simp: tryCreateMesh_def split: option.split)

lemma tryCreateMesh_unchanged: "ud_mesh r \<noteq> None \<Longrightarrow> tryCreateMesh r = r"
  by (auto simp: tryCreateMesh_def split: option.split)

lemma spread_asPartial [simp]: "spread s (asPartial s) = s"
  by (simp add: spread_def asPartial_def)

lemma addImageMessage_isl: "isl (addImageMessage st topic img) = (\<not> hasFormat img)"
  by (simp add: addImageMessage_def Let_def updateImageRenderable_isl split: prod.split)

lemma updateImageRenderable_state:
  "stateOf (updateImageRenderable st rid img s) =
     st\<lparr>objects := (objects st)
          [rid := if hasFormat img
                  then materialUpdated
                         (color (spread (ud_settings (objects st ! rid)) s) \<noteq>
                          color (ud_settings (objects st ! rid)))
                         (geometryUpdated (cameraModels st) s (objects st ! rid))
                  else geometryUpdated (cameraModels st) s (objects st ! rid)],
        pending := pending st @
          (if hasFormat img then [(rid, ud_topic (objects st ! rid), img)] else [])\<rparr>"
  by (simp add: updateImageRenderable_def Let_def setObject_def geometryUpdated_def
        materialUpdated_def)

lemma geometryUpdated_same:
  "geometryUpdated cameras (asPartial (ud_settings r)) r =
     createPlaneGeometry cameras (asPartial (ud_settings r)) r"
  by (simp add: geometryUpdated_def)

lemma disposeGeometry_has_dispose:
  "GeometryDispose \<in> set (drop (length (calls r)) (calls (disposeGeometry r))) \<longleftrightarrow>
     ud_geometry r \<noteq> None"
  by (cases "ud_geometry r"; cases "ud_mesh r") (simp_all add: disposeGeometry_calls)

lemma createPlaneGeometry_no_dispose:
  "\<exists>new. calls (createPlaneGeometry cams s r) = calls r @ new \<and> GeometryDispose \<notin> set new"
proof -
  have "\<exists>new. calls (createPlaneGeometry cams s r) = calls r @ new \<and>
          set new \<subseteq> {GeometryCreate, MeshRemove}"
    using createPlaneGeometry_calls[of cams s r] by auto
  then obtain new where n: "calls (createPlaneGeometry cams s r) = calls r @ new \<and>
          set new \<subseteq> {GeometryCreate, MeshRemove}" ..
  then have "GeometryDispose \<notin> set new" by auto
  with n show ?thesis by auto
qed


lemma geometryUpdated_new_calls:
  "\<exists>new. calls (geometryUpdated cams s r) = calls r @ new \<and>
     MaterialDispose \<notin> set new \<and> MaterialCreate \<notin> set new \<and>
     (GeometryDispose \<in> set new \<longleftrightarrow>
        ud_geometry r \<noteq> None \<and>
        (cameraInfoTopic (spread (ud_settings r) s) \<noteq> cameraInfoTopic (ud_settings r) \<or>
         distance (spread (ud_settings r) s) \<noteq> distance (ud_settings r)))"
proof -
  define r1 where "r1 = r\<lparr>ud_settings := spread (ud_settings r) s\<rparr>"
  define changed where
    "changed = (cameraInfoTopic (spread (ud_settings r) s) \<noteq> cameraInfoTopic (ud_settings r) \<or>
                distance (spread (ud_settings r) s) \<noteq> distance (ud_settings r))"
  define r2 where "r2 = (if changed then disposeGeometry r1 else r1)"
  define new2 where "new2 = drop (length (calls r)) (calls r2)"
  have g: "geometryUpdated cams s r = createPlaneGeometry cams s r2"
    by (auto simp: geometryUpdated_def r2_def r1_def changed_def)
  have c2: "calls r2 = calls r @ new2"
    by (cases changed) (simp_all add: r2_def r1_def new2_def disposeGeometry_calls)
  have d2: "GeometryDispose \<in> set new2 \<longleftrightarrow> ud_geometry r \<noteq> None \<and> changed"
  proof (cases changed)
    case True
    then show ?thesis
      using disposeGeometry_has_dispose[of r1] by (simp add: new2_def r2_def r1_def)
  next
    case False
    then show ?thesis by (simp add: new2_def r2_def r1_def)
  qed
  have m2: "MaterialDispose \<notin> set new2 \<and> MaterialCreate \<notin> set new2"
    by (cases changed; cases "ud_geometry r"; cases "ud_mesh r")
       (simp_all add: new2_def r2_def r1_def disposeGeometry_calls)
  have "\<exists>new3. calls (createPlaneGeometry cams s r2) = calls r2 @ new3 \<and>
          set new3 \<subseteq> {GeometryCreate, MeshRemove}"
    using createPlaneGeometry_calls[of cams s r2] by auto
  then obtain new3 where n3: "calls (createPlaneGeometry cams s r2) = calls r2 @ new3 \<and>
          set new3 \<subseteq> {GeometryCreate, MeshRemove}" ..
  have n3': "GeometryDispose \<notin> set new3" "MaterialDispose \<notin> set new3" "MaterialCreate \<notin> set new3"
    using n3 by auto
  have "calls (geometryUpdated cams s r) = calls r @ (new2 @ new3)"
    using n3 c2 g by simp
  moreover have "MaterialDispose \<notin> set (new2 @ new3)" "MaterialCreate \<notin> set (new2 @ new3)"
    using m2 n3' by simp_all
  moreover have "GeometryDispose \<in> set (new2 @ new3) \<longleftrightarrow> ud_geometry r \<noteq> None \<and> changed"
    using n3' d2 by simp
  ultimately show ?thesis
    unfolding changed_def by (intro exI[of _ "new2 @ new3"]) simp
qed

lemma geometryUpdated_fields [simp]:
  "ud_material (geometryUpdated cams s r) = ud_material r"
  "ud_texture (geometryUpdated cams s r) = ud_texture r"
  by (simp_all add: geometryUpdated_def)


lemma materialUpdated_new_calls:
  "\<exists>new. calls (materialUpdated changed g) = calls g @ new \<and>
     GeometryDispose \<notin> set new \<and>
     (MaterialDispose \<in> set new \<longleftrightarrow> ud_material g \<noteq> None \<and> changed) \<and>
     (MaterialCreate \<in> set new \<longleftrightarrow> ud_texture g \<noteq> None \<and> (ud_material g = None \<or> changed))"
proof (cases "ud_material g = None \<or> changed")
  case True
  define b where "b = rebuildMaterial g"
  define new1 where
    "new1 = (case ud_material g of None \<Rightarrow> [] | Some m \<Rightarrow> [MaterialDispose])
          @ (case ud_texture g of None \<Rightarrow> [] | Some t \<Rightarrow> [MaterialCreate])
          @ (case ud_mesh g of None \<Rightarrow> [] | Some m \<Rightarrow> [MeshRemove])"
  define new2 where
    "new2 = (if ud_mesh b = None \<and> ud_geometry b \<noteq> None \<and> ud_material b \<noteq> None
             then [MeshAdd] else [])"
  have c1: "calls b = calls g @ new1"
    by (simp add: b_def new1_def rebuildMaterial_calls)
  have c2: "calls (materialUpdated changed g) = calls b @ new2"
    using True by (simp add: materialUpdated_def b_def new2_def tryCreateMesh_calls)
  have p1: "GeometryDispose \<notin> set new1"
    "MaterialDispose \<in> set new1 \<longleftrightarrow> ud_material g \<noteq> None"
    "MaterialCreate \<in> set new1 \<longleftrightarrow> ud_texture g \<noteq> None"
    by (cases "ud_material g"; cases "ud_texture g"; cases "ud_mesh g"; simp add: new1_def)+
  have p2: "GeometryDispose \<notin> set new2" "MaterialDispose \<notin> set new2"
    "MaterialCreate \<notin> set new2"
    by (simp_all add: new2_def)
  have "calls (materialUpdated changed g) = calls g @ (new1 @ new2)"
    using c1 c2 by simp
  moreover have "GeometryDispose \<notin> set (new1 @ new2)"
    using p1(1) p2(1) by simp
  moreover have "MaterialDispose \<in> set (new1 @ new2) \<longleftrightarrow> ud_material g \<noteq> None \<and> changed"
    using p1(2) p2(2) True by auto
  moreover have "MaterialCreate \<in> set (new1 @ new2) \<longleftrightarrow>
      ud_texture g \<noteq> None \<and> (ud_material g = None \<or> changed)"
    using p1(3) p2(3) True by auto
  ultimately show ?thesis
    by (intro exI[of _ "new1 @ new2"]) simp
next
  case False
  define new where
    "new = (if ud_mesh g = None \<and> ud_geometry g \<noteq> None \<and> ud_material g \<noteq> None
            then [MeshAdd] else [])"
  have nm: "ud_material g \<noteq> None" and nc: "\<not> changed"
    using False by simp_all
  have "materialUpdated changed g = tryCreateMesh g"
    using nm nc by (auto simp: materialUpdated_def)
  then have "calls (materialUpdated changed g) = calls g @ new"
    by (simp add: new_def tryCreateMesh_calls)
  moreover have "GeometryDispose \<notin> set new" "MaterialDispose \<notin> set new"
    "MaterialCreate \<notin> set new"
    by (simp_all add: new_def)
  ultimately show ?thesis
    using nm nc by (intro exI[of _ new]) auto
qed

section \<open>What dispose leaves\<close>

lemma disposeLoop:
  fixes st :: Images
  defines "F \<equiv> (\<lambda>s rid. setObject s rid (disposeOne (objects s ! rid)))"
  shows "length (objects (foldl F st rids)) = length (objects st)"
    and "distinct rids \<Longrightarrow> j < length (objects st) \<Longrightarrow>
         objects (foldl F st rids) ! j =
           (if j \<in> set rids then disposeOne (objects st ! j) else objects st ! j)"
    and "foldl F st rids = (foldl F st rids)\<lparr>objects := objects (foldl F st rids)\<rparr>"
    and "(foldl F st rids)\<lparr>objects := x\<rparr> = st\<lparr>objects := x\<rparr>"
proof -
  show "length (objects (foldl F st rids)) = length (objects st)"
    by (induction rids arbitrary: st) (simp_all add: F_def setObject_def)
  show "distinct rids \<Longrightarrow> j < length (objects st) \<Longrightarrow>
         objects (foldl F st rids) ! j =
           (if j \<in> set rids then disposeOne (objects st ! j) else objects st ! j)"
  proof (induction rids arbitrary: st)
    case Nil
    then show ?case by simp
  next
    case (Cons a rids)
    have len: "j < length (objects (F st a))"
      using Cons.prems(2) by (simp add: F_def setObject_def)
    have "objects (foldl F st (a # rids)) ! j =
          (if j \<in> set rids then disposeOne (objects (F st a) ! j) else objects (F st a) ! j)"
      using Cons.IH[of "F st a"] Cons.prems(1) len by simp
    also have "\<dots> = (if j \<in> set (a # rids) then disposeOne (objects st ! j) else objects st ! j)"
    proof (cases "j = a")
      case True
      then have "j \<notin> set rids" using Cons.prems(1) by simp
      then show ?thesis using True Cons.prems(2) by (simp add: F_def setObject_def)
    next
      case False
      then show ?thesis by (simp add: F_def setObject_def)
    qed
    finally show ?case .
  qed
  show "foldl F st rids = (foldl F st rids)\<lparr>objects := objects (foldl F st rids)\<rparr>"
    by simp
  show "(foldl F st rids)\<lparr>objects := x\<rparr> = st\<lparr>objects := x\<rparr>"
    by (induction rids arbitrary: st) (simp_all add: F_def setObject_def)
qed

lemma dispose_state:
  "dispose st = st\<lparr>objects := objects (dispose st), children := [], imagesByTopic := []\<rparr>"
  "length (objects (dispose st)) = length (objects st)"
  "wfImages st \<Longrightarrow> j < length (objects st) \<Longrightarrow>
     objects (dispose st) ! j =
       (if j \<in> snd ` set (imagesByTopic st) then disposeOne (objects st ! j) else objects st ! j)"
proof -
  let ?F = "\<lambda>s rid. setObject s rid (disposeOne (objects s ! rid))"
  let ?l = "foldl ?F st (map snd (imagesByTopic st))"
  have "?l = ?l\<lparr>objects := objects ?l\<rparr>" by simp
  also have "\<dots> = st\<lparr>objects := objects ?l\<rparr>"
    by (rule disposeLoop(4))
  finally have l: "?l = st\<lparr>objects := objects ?l\<rparr>" .
  have d: "dispose st = ?l\<lparr>children := [], imagesByTopic := []\<rparr>"
    by (simp add: dispose_def)
  have o: "objects (dispose st) = objects ?l" by (simp add: d)
  show "dispose st = st\<lparr>objects := objects (dispose st), children := [], imagesByTopic := []\<rparr>"
    unfolding o by (subst d, subst l) simp
  show "length (objects (dispose st)) = length (objects st)"
    unfolding o by (rule disposeLoop(1))
  show "wfImages st \<Longrightarrow> j < length (objects st) \<Longrightarrow>
     objects (dispose st) ! j =
       (if j \<in> snd ` set (imagesByTopic st) then disposeOne (objects st ! j) else objects st ! j)"
    unfolding o using disposeLoop(2)[of "map snd (imagesByTopic st)" j st]
    by (simp add: wfImages_def)
qed

section \<open>The loop of startFrame\<close>

lemma startFrameOne_eq:
  "startFrameOne up rf ff t st rid =
     (setObject st rid (frameRenderable up rf ff t (objects st ! rid)))
       \<lparr>layerErrors := frameErrors up rf ff t (objects st ! rid) (layerErrors st)\<rparr>"
  by (simp add: startFrameOne_def frameRenderable_def frameErrors_def Let_def setObject_def
        split: option.split)

lemma frameRenderable_fields [simp]:
  "ud_topic (frameRenderable up rf ff t r) = ud_topic r"
  "r_visible (frameRenderable up rf ff t r) = visible (ud_settings r)"
  by (simp_all add: frameRenderable_def split: option.split)

lemma frameErrors_other:
  "ud_topic r \<noteq> topic \<Longrightarrow> frameErrors up rf ff t r errs (topic, kind) = errs (topic, kind)"
  by (simp add: frameErrors_def addToTopic_def clearTopic_def split: option.split)

lemma frameErrors_key:
  "errs (ud_topic r, kind) = errs' (ud_topic r, kind) \<Longrightarrow>
   frameErrors up rf ff t r errs (ud_topic r, kind) = frameErrors up rf ff t r errs' (ud_topic r, kind)"
  by (simp add: frameErrors_def addToTopic_def clearTopic_def split: option.split)

lemma topic_list_update:
  "ud_topic v = ud_topic (xs ! a) \<Longrightarrow> ud_topic (xs[a := v] ! j) = ud_topic (xs ! j)"
  by (cases "a < length xs") (auto simp: nth_list_update list_update_beyond)

lemma frameLoop_others:
  assumes "\<forall>rid' \<in> set rids. rid' \<noteq> rid \<and> ud_topic (objects st ! rid') \<noteq> topic"
  shows "objects (foldl (startFrameOne up rf ff t) st rids) ! rid = objects st ! rid \<and>
    layerErrors (foldl (startFrameOne up rf ff t) st rids) (topic, kind) = layerErrors st (topic, kind) \<and>
    length (objects (foldl (startFrameOne up rf ff t) st rids)) = length (objects st) \<and>
    (\<forall>j. ud_topic (objects (foldl (startFrameOne up rf ff t) st rids) ! j) = ud_topic (objects st ! j))"
  using assms
proof (induction rids arbitrary: st)
  case Nil
  then show ?case by simp
next
  case (Cons a rids)
  let ?s = "startFrameOne up rf ff t st a"
  have a: "a \<noteq> rid" "ud_topic (objects st ! a) \<noteq> topic"
    using Cons.prems by simp_all
  have topics: "\<And>j. ud_topic (objects ?s ! j) = ud_topic (objects st ! j)"
    by (simp add: startFrameOne_eq setObject_def topic_list_update)
  have one: "objects ?s ! rid = objects st ! rid"
    "layerErrors ?s (topic, kind) = layerErrors st (topic, kind)"
    "length (objects ?s) = length (objects st)"
    using a by (simp_all add: startFrameOne_eq setObject_def frameErrors_other)
  have "\<forall>rid' \<in> set rids. rid' \<noteq> rid \<and> ud_topic (objects ?s ! rid') \<noteq> topic"
    using Cons.prems topics by simp
  from Cons.IH[OF this] show ?case
    using one topics by simp
qed

lemma startFrame_renderable:
  assumes "wfImages st" and "renderFrameId st = Some rf" and "fixedFrameId st = Some ff"
    and "(topic, rid) \<in> set (imagesByTopic st)"
  shows "objects (startFrame up st t) ! rid = frameRenderable up rf ff t (objects st ! rid)"
    and "layerErrors (startFrame up st t) (topic, kind) =
         frameErrors up rf ff t (objects st ! rid) (layerErrors st) (topic, kind)"
proof -
  let ?F = "startFrameOne up rf ff t"
  let ?rids = "map snd (imagesByTopic st)"
  have d: "distinct ?rids" and dk: "distinct (map fst (imagesByTopic st))"
    and ok: "\<And>t' r'. (t', r') \<in> set (imagesByTopic st) \<Longrightarrow>
              r' < length (objects st) \<and> ud_topic (objects st ! r') = t'"
    using assms(1) by (auto simp: wfImages_def list_all_iff)
  have len: "rid < length (objects st)" and top: "ud_topic (objects st ! rid) = topic"
    using ok[OF assms(4)] by simp_all
  have "rid \<in> set ?rids" using assms(4) by force
  then obtain pre post where sp: "?rids = pre @ rid # post"
    by (meson split_list)
  have npre: "rid \<notin> set pre" and npost: "rid \<notin> set post"
    using d unfolding sp by auto
  have other: "\<And>r'. r' \<in> set ?rids \<Longrightarrow> r' \<noteq> rid \<Longrightarrow> ud_topic (objects st ! r') \<noteq> topic"
  proof
    fix r' assume r': "r' \<in> set ?rids" "r' \<noteq> rid" "ud_topic (objects st ! r') = topic"
    then obtain t' where t': "(t', r') \<in> set (imagesByTopic st)" by auto
    then have "t' = topic" using ok[OF t'] r'(3) by simp
    then have "r' = rid"
      using t' assms(4) dk by (meson eq_key_imp_eq_value)
    then show False using r'(2) by simp
  qed
  define s0 where "s0 = st\<lparr>m_visible := True\<rparr>"
  have s0: "objects s0 = objects st" "layerErrors s0 = layerErrors st"
    by (simp_all add: s0_def)
  define s1 where "s1 = foldl ?F s0 pre"
  define s2 where "s2 = ?F s1 rid"
  have run: "startFrame up st t = foldl ?F s2 post"
    using assms(2,3) by (simp add: startFrame_def sp s2_def s1_def s0_def)
  have hpre: "\<forall>rid' \<in> set pre. rid' \<noteq> rid \<and> ud_topic (objects s0 ! rid') \<noteq> topic"
    using other npre unfolding sp s0 by auto
  note p1 = frameLoop_others[OF hpre, of up rf ff t kind, folded s1_def]
  have o2: "objects s2 ! rid = frameRenderable up rf ff t (objects st ! rid)"
    using p1 len s0 by (simp add: s2_def startFrameOne_eq setObject_def)
  have e2: "layerErrors s2 (topic, kind) =
            frameErrors up rf ff t (objects st ! rid) (layerErrors st) (topic, kind)"
    using p1 s0 top frameErrors_key[of "layerErrors s1" "objects st ! rid" kind "layerErrors st"]
    by (simp add: s2_def startFrameOne_eq)
  have t2: "\<And>j. ud_topic (objects s2 ! j) = ud_topic (objects st ! j)"
    using p1 s0 by (simp add: s2_def startFrameOne_eq setObject_def topic_list_update)
  have hpost: "\<forall>rid' \<in> set post. rid' \<noteq> rid \<and> ud_topic (objects s2 ! rid') \<noteq> topic"
    using other npost unfolding sp t2 by auto
  note p3 = frameLoop_others[OF hpost, of up rf ff t kind]
  show "objects (startFrame up st t) ! rid = frameRenderable up rf ff t (objects st ! rid)"
    unfolding run using p3 o2 by simp
  show "layerErrors (startFrame up st t) (topic, kind) =
         frameErrors up rf ff t (objects st ! rid) (layerErrors st) (topic, kind)"
    unfolding run using p3 e2 by simp
qed

section \<open>Removed renderables\<close>

lemma removedBare_iff:
  "removedBare st =
     (\<forall>rid < length (objects st). rid \<in> snd ` set (imagesByTopic st) \<or>
        (ud_geometry (objects st ! rid) = None \<and> ud_mesh (objects st ! rid) = None))"
  by (auto simp: removedBare_def list_all_iff)

lemma removedBare_update:
  assumes "removedBare st" and "objects st' = (objects st)[rid := r']"
    and "imagesByTopic st' = imagesByTopic st"
    and "rid \<in> snd ` set (imagesByTopic st) \<or>
         (ud_geometry (objects st ! rid) = None \<and> ud_mesh (objects st ! rid) = None \<longrightarrow>
          ud_geometry r' = None \<and> ud_mesh r' = None)"
  shows "removedBare st'"
proof -
  have "ud_geometry (objects st' ! j) = None \<and> ud_mesh (objects st' ! j) = None"
    if j: "j < length (objects st)" "j \<notin> snd ` set (imagesByTopic st)" for j
  proof (cases "j = rid")
    case True
    have "ud_geometry (objects st ! rid) = None \<and> ud_mesh (objects st ! rid) = None"
      using assms(1) j True by (auto simp: removedBare_iff)
    then have "ud_geometry r' = None \<and> ud_mesh r' = None"
      using assms(4) j True by simp
    then show ?thesis using True j(1) by (simp add: assms(2))
  next
    case False
    then have "objects st' ! j = objects st ! j" by (simp add: assms(2))
    then show ?thesis using assms(1) j by (auto simp: removedBare_iff)
  qed
  then show ?thesis
    by (auto simp: removedBare_iff assms(2,3))
qed

lemma removedBare_same:
  "objects st' = objects st \<Longrightarrow> imagesByTopic st' = imagesByTopic st \<Longrightarrow>
   removedBare st' = removedBare st"
  by (simp add: removedBare_def)

lemma updateImageRenderable_removed:
  assumes "removedBare st" and "rid \<in> snd ` set (imagesByTopic st)"
  shows "removedBare (stateOf (updateImageRenderable st rid img s))"
proof -
  obtain r' where st': "stateOf (updateImageRenderable st rid img s) =
          st\<lparr>objects := (objects st)[rid := r'],
             pending := pending st @
               (if hasFormat img then [(rid, ud_topic (objects st ! rid), img)] else [])\<rparr>"
    using updateImageRenderable_shape[of st rid img s] by blast
  show ?thesis
    by (rule removedBare_update[OF assms(1), of _ rid r']) (simp_all add: st' assms(2))
qed

lemma getOrCreate_removed:
  assumes "removedBare st" and "getOrCreate st topic img = (st1, rid)"
  shows "removedBare st1"
proof (cases "map_of (imagesByTopic st) topic")
  case None
  then have st1: "st1 = st\<lparr>objects := objects st @ [newRenderable topic (config_topics st topic) img],
                          children := children st @ [length (objects st)],
                          imagesByTopic := imagesByTopic st @ [(topic, length (objects st))]\<rparr>"
    using assms(2) by (auto simp: getOrCreate_def Let_def)
  show ?thesis
    using assms(1) unfolding removedBare_iff st1
    by (auto simp: nth_append less_Suc_eq)
next
  case (Some a)
  with assms show ?thesis by (simp add: getOrCreate_def)
qed

lemma autoSelect_removed:
  assumes "removedBare st"
  shows "removedBare (autoSelect st rid topic)"
proof -
  let ?r' = "(objects st ! rid)\<lparr>ud_settings :=
               autoSelectCameraInfoTopic (ud_settings (objects st ! rid)) topic (cameraInfoTopics st)\<rparr>"
  have obj: "objects (autoSelect st rid topic) = objects st \<or>
             objects (autoSelect st rid topic) = (objects st)[rid := ?r']"
    and rest: "imagesByTopic (autoSelect st rid topic) = imagesByTopic st"
    by (simp_all add: autoSelect_def Let_def setObject_def emit_def)
  from obj show ?thesis
  proof
    assume "objects (autoSelect st rid topic) = objects st"
    then show ?thesis using removedBare_same[OF _ rest] assms by simp
  next
    assume "objects (autoSelect st rid topic) = (objects st)[rid := ?r']"
    then show ?thesis
      by (rule removedBare_update[OF assms _ rest]) simp
  qed
qed

lemma addImageMessage_removed:
  assumes "wfImages st" and "removedBare st"
  shows "removedBare (stateOf (addImageMessage st topic img))"
proof -
  obtain st1 rid where g: "getOrCreate st topic img = (st1, rid)"
    by (cases "getOrCreate st topic img")
  let ?st2 = "autoSelect st1 rid topic"
  have eq: "addImageMessage st topic img =
            updateImageRenderable ?st2 rid img (asPartial (ud_settings (objects ?st2 ! rid)))"
    by (simp add: addImageMessage_def g Let_def)
  have "map_of (imagesByTopic st1) topic = Some rid"
    using getOrCreate_preserves(3)[OF assms(1) g] .
  then have "(topic, rid) \<in> set (imagesByTopic st1)" by (rule map_of_SomeD)
  then have "rid \<in> snd ` set (imagesByTopic ?st2)"
    unfolding autoSelect_preserves(3) by force
  moreover have "removedBare ?st2"
    using autoSelect_removed[OF getOrCreate_removed[OF assms(2) g]] .
  ultimately show ?thesis
    unfolding eq by (intro updateImageRenderable_removed)
qed

lemma setTopicSettings_removed:
  assumes "removedBare st"
  shows "removedBare (stateOf (setTopicSettings st topic s))"
proof (cases "map_of (imagesByTopic st) topic")
  case None
  then have "setTopicSettings st topic s = Inr st" by (simp add: setTopicSettings_def)
  with assms show ?thesis by simp
next
  case (Some rid)
  then have eq: "setTopicSettings st topic s =
                 updateImageRenderable st rid (ud_image (objects st ! rid)) s"
    by (simp add: setTopicSettings_def)
  have "(topic, rid) \<in> set (imagesByTopic st)" using Some by (rule map_of_SomeD)
  then have "rid \<in> snd ` set (imagesByTopic st)" by force
  then show ?thesis unfolding eq using assms by (intro updateImageRenderable_removed)
qed

lemma removedBare_irrelevant [simp]:
  "removedBare (emit st path) = removedBare st"
  "removedBare (st\<lparr>cameraInfoTopics := x\<rparr>) = removedBare st"
  "removedBare (st\<lparr>layerErrors := e\<rparr>) = removedBare st"
  "removedBare (st\<lparr>m_visible := b\<rparr>) = removedBare st"
  "removedBare (st\<lparr>pending := q\<rparr>) = removedBare st"
  "removedBare (st\<lparr>children := c\<rparr>) = removedBare st"
  by (simp_all add: emit_def removedBare_def)

lemma addCameraInfoMessage_removed:
  assumes "removedBare st"
  shows "removedBare (stateOf (addCameraInfoMessage st topic))"
proof -
  define st1 where
    "st1 = (if topic \<notin> set (cameraInfoTopics st)
            then st\<lparr>cameraInfoTopics := cameraInfoTopics st @ [topic]\<rparr> else st)"
  have r1: "removedBare st1" using assms by (simp add: st1_def)
  show ?thesis
  proof (cases "map_of (imagesByTopic st1) topic")
    case None
    then have "stateOf (addCameraInfoMessage st topic) = st1 \<or>
               stateOf (addCameraInfoMessage st topic) = emit st1 [''topics'']"
      unfolding addCameraInfoMessage_def Let_def st1_def[symmetric] by simp
    then show ?thesis using r1 by auto
  next
    case (Some rid)
    define u where "u = updateImageRenderable st1 rid (ud_image (objects st1 ! rid))
                (asPartial (ud_settings (objects st1 ! rid)))"
    have a: "addCameraInfoMessage st topic =
             (case u of Inl thrown \<Rightarrow> Inl thrown
              | Inr st2 \<Rightarrow> Inr (if topic \<notin> set (cameraInfoTopics st) then emit st2 [''topics''] else st2))"
      using Some unfolding addCameraInfoMessage_def Let_def st1_def[symmetric] u_def by simp
    have eq: "stateOf (addCameraInfoMessage st topic) = stateOf u \<or>
              stateOf (addCameraInfoMessage st topic) = emit (stateOf u) [''topics'']"
      unfolding a by (cases u) auto
    have "(topic, rid) \<in> set (imagesByTopic st1)" using Some by (rule map_of_SomeD)
    then have "rid \<in> snd ` set (imagesByTopic st1)" by force
    then have "removedBare (stateOf u)"
      unfolding u_def using r1 by (intro updateImageRenderable_removed)
    then show ?thesis using eq by auto
  qed
qed

lemma startFrameOne_removed:
  "removedBare st \<Longrightarrow> removedBare (startFrameOne up rf ff t st rid)"
proof -
  assume a: "removedBare st"
  have "removedBare (setObject st rid (frameRenderable up rf ff t (objects st ! rid)))"
    by (rule removedBare_update[OF a, of _ rid "frameRenderable up rf ff t (objects st ! rid)"])
       (simp_all add: setObject_def frameRenderable_def split: option.split)
  then show ?thesis by (simp add: startFrameOne_eq)
qed

lemma startFrame_removed:
  "removedBare st \<Longrightarrow> removedBare (startFrame up st t)"
  unfolding startFrame_def
  by (auto split: option.split intro!: foldl_preserves[where I = removedBare]
        startFrameOne_removed)

lemma dispose_removed:
  assumes "wfImages st" and "removedBare st"
  shows "removedBare (dispose st)"
proof -
  have "ud_geometry (objects (dispose st) ! j) = None \<and> ud_mesh (objects (dispose st) ! j) = None"
    if "j < length (objects st)" for j
    using dispose_state(3)[OF assms(1) that] assms(2) that
    by (auto simp: removedBare_iff)
  then show ?thesis
    by (simp add: removedBare_iff dispose_state(2))
qed

lemma onBitmap_bare:
  "objects (onBitmap st rid topic bitmap) =
     (objects st)[rid := (case ud_texture (objects st ! rid) of
             None \<Rightarrow> tryCreateMesh (rebuildMaterial
                       ((objects st ! rid)\<lparr>ud_texture := Some \<lparr>tex_image = bitmap\<rparr>,
                          calls := calls (objects st ! rid) @ [TextureCreate]\<rparr>))
           | Some t \<Rightarrow> (objects st ! rid)\<lparr>ud_texture := Some (t\<lparr>tex_image := bitmap\<rparr>)\<rparr>)]"
  "imagesByTopic (onBitmap st rid topic bitmap) = imagesByTopic st"
  by (simp_all add: onBitmap_def Let_def setObject_def)

lemma onBitmap_removed:
  assumes "removedBare st"
  shows "removedBare (onBitmap st rid topic bitmap)"
  by (rule removedBare_update[OF assms onBitmap_bare])
     (simp add: tryCreateMesh_mesh split: option.split)

lemma settle_removed:
  assumes "removedBare st"
  shows "removedBare (settle st k res)"
proof (cases "k < length (pending st)")
  case False
  then show ?thesis using assms by (simp add: settle_def)
next
  case True
  obtain rid topic img where p: "pending st ! k = (rid, topic, img)"
    by (cases "pending st ! k")
  let ?st1 = "st\<lparr>pending := take k (pending st) @ drop (Suc k) (pending st)\<rparr>"
  have r1: "removedBare ?st1" using assms by simp
  show ?thesis
  proof (cases res)
    case (Fulfilled bitmap)
    then have "settle st k res = onBitmap ?st1 rid topic bitmap"
      using True p by (simp add: settle_def Let_def)
    then show ?thesis using onBitmap_removed[OF r1] by simp
  next
    case (Rejected msg)
    then have "settle st k res = onBitmapError ?st1 topic msg"
      using True p by (simp add: settle_def Let_def)
    then show ?thesis using r1 by (simp add: onBitmapError_def)
  qed
qed

lemma reachable_removed: "reachable st \<Longrightarrow> removedBare st"
proof (induction rule: reachable.induct)
  case (created config renderFrame fixedFrame cameras)
  show ?case by (simp add: newImages_def removedBare_def)
next
  case (image st topic img)
  then show ?case using addImageMessage_removed reachable_invariant by blast
next
  case (cameraInfo st topic)
  show ?case using cameraInfo.IH by (rule addCameraInfoMessage_removed)
next
  case (settings st topic s)
  show ?case using settings.IH by (rule setTopicSettings_removed)
next
  case (frame st updatePose currentTime)
  show ?case using frame.IH by (rule startFrame_removed)
next
  case (disposed st)
  then show ?case using dispose_removed reachable_invariant by blast
next
  case (settled st k result)
  show ?case using settled.IH by (rule settle_removed)
next
  case (renderer st config renderFrame fixedFrame cameras)
  then show ?case by (simp add: removedBare_def)
qed

section \<open>The sample states, evaluated\<close>

lemma oneImage_snapshot:
  "snapshot oneImage =
     ([\<lparr>r_name = ''cam/image'', r_visible = True, r_children = [], ud_topic = ''cam/image'',
        ud_settings = DEFAULT_SETTINGS, ud_image = jpeg1, ud_pose = makePose,
        ud_srcTime = 1000000000, ud_texture = None, ud_material = None, ud_geometry = None,
        ud_mesh = None, calls = []\<rparr>],
      [(''cam/image'', 0)], [0], True, [], [(0, ''cam/image'', jpeg1)], [])"
  by code_simp

lemma oneImage_eval:
  "imagesByTopic oneImage = [(''cam/image'', 0)]"
  "children oneImage = [0]"
  "pending oneImage = [(0, ''cam/image'', jpeg1)]"
  "cameraInfoTopics oneImage = []"
  "emitted oneImage = []"
  "objects oneImage =
     [\<lparr>r_name = ''cam/image'', r_visible = True, r_children = [], ud_topic = ''cam/image'',
       ud_settings = DEFAULT_SETTINGS, ud_image = jpeg1, ud_pose = makePose,
       ud_srcTime = 1000000000, ud_texture = None, ud_material = None, ud_geometry = None,
       ud_mesh = None, calls = []\<rparr>]"
  using oneImage_snapshot by (simp_all add: snapshot_def)

lemma decoded_snapshot:
  "snapshot decoded =
     ([\<lparr>r_name = ''cam/image'', r_visible = True,
        r_children = [Mesh (createGeometry pinhole 1)
              \<lparr>mat_name = ''cam/image:Material'', mat_color = ''#ffffff''\<rparr>],
        ud_topic = ''cam/image'',
        ud_settings = \<lparr>visible = True, cameraInfoTopic = Some ''cam/info'', distance = 1,
                         color = ''#ffffff''\<rparr>,
        ud_image = jpeg1, ud_pose = makePose,
        ud_srcTime = 1000000000, ud_texture = Some \<lparr>tex_image = bitmap7\<rparr>,
        ud_material = Some \<lparr>mat_name = ''cam/image:Material'', mat_color = ''#ffffff''\<rparr>,
        ud_geometry = Some (createGeometry pinhole 1),
        ud_mesh = Some (Mesh (createGeometry pinhole 1)
              \<lparr>mat_name = ''cam/image:Material'', mat_color = ''#ffffff''\<rparr>),
        calls = [GeometryCreate, TextureCreate, MaterialCreate, MeshAdd]\<rparr>],
      [(''cam/image'', 0)], [0], True, [''cam/info''], [],
      [[''topics''], [''topics'', ''cam/image'']])"
  by code_simp

lemma reachable_samples:
  "reachable started" "reachable oneImage" "reachable infoKnown" "reachable imageShown"
  "reachable decoded"
  unfolding started_def oneImage_def infoKnown_def imageShown_def decoded_def
  by (intro reachable.intros)+

lemma infoLate_snapshot:
  "snapshot infoLate =
     ([\<lparr>r_name = ''cam/image'', r_visible = True, r_children = [], ud_topic = ''cam/image'',
        ud_settings = DEFAULT_SETTINGS, ud_image = jpeg1, ud_pose = makePose,
        ud_srcTime = 1000000000, ud_texture = Some \<lparr>tex_image = bitmap7\<rparr>,
        ud_material = Some \<lparr>mat_name = ''cam/image:Material'', mat_color = ''#ffffff''\<rparr>,
        ud_geometry = None, ud_mesh = None, calls = [TextureCreate, MaterialCreate]\<rparr>],
      [(''cam/image'', 0)], [0], True, [''cam/info''], [], [[''topics'']])"
  by code_simp

lemma rawAfter_snapshot:
  "isl rawAfter"
  "snapshot (stateOf rawAfter) =
     ([\<lparr>r_name = ''cam/image'', r_visible = True, r_children = [], ud_topic = ''cam/image'',
        ud_settings = \<lparr>visible = True, cameraInfoTopic = Some ''cam/info'', distance = 1,
                         color = ''#ffffff''\<rparr>,
        ud_image = jpeg1, ud_pose = makePose,
        ud_srcTime = 1000000000, ud_texture = Some \<lparr>tex_image = bitmap7\<rparr>,
        ud_material = Some \<lparr>mat_name = ''cam/image:Material'', mat_color = ''#ffffff''\<rparr>,
        ud_geometry = Some (createGeometry pinhole 1), ud_mesh = None,
        calls = [TextureCreate, MaterialCreate, GeometryCreate]\<rparr>],
      [(''cam/image'', 0)], [0], True, [''cam/info''], [],
      [[''topics''], [''topics'', ''cam/image'']])"
  by code_simp+

lemma twoImages_snapshot:
  "snapshot twoImages =
     ([\<lparr>r_name = ''cam/image'', r_visible = True, r_children = [], ud_topic = ''cam/image'',
        ud_settings = DEFAULT_SETTINGS, ud_image = jpeg1, ud_pose = makePose,
        ud_srcTime = 1000000000, ud_texture = None, ud_material = None, ud_geometry = None,
        ud_mesh = None, calls = []\<rparr>],
      [(''cam/image'', 0)], [0], True, [],
      [(0, ''cam/image'', jpeg1), (0, ''cam/image'', jpeg2)], [])"
  by code_simp

lemma infoAfterImage_snapshot:
  "\<not> isl infoAfterImage"
  "snapshot (stateOf infoAfterImage) =
     ([\<lparr>r_name = ''cam/image'', r_visible = True, r_children = [], ud_topic = ''cam/image'',
        ud_settings = DEFAULT_SETTINGS, ud_image = jpeg1, ud_pose = makePose,
        ud_srcTime = 1000000000, ud_texture = None, ud_material = None, ud_geometry = None,
        ud_mesh = None, calls = []\<rparr>],
      [(''cam/image'', 0)], [0], True, [''cam/info''], [(0, ''cam/image'', jpeg1)],
      [[''topics'']])"
  by code_simp+

lemma movedAway_snapshot:
  "\<not> isl movedAway"
  "snapshot (stateOf movedAway) =
     ([\<lparr>r_name = ''cam/image'', r_visible = True, r_children = [], ud_topic = ''cam/image'',
        ud_settings = \<lparr>visible = True, cameraInfoTopic = Some ''cam/info'', distance = 2,
                         color = ''#ffffff''\<rparr>,
        ud_image = jpeg1, ud_pose = makePose,
        ud_srcTime = 1000000000, ud_texture = Some \<lparr>tex_image = bitmap7\<rparr>,
        ud_material = Some \<lparr>mat_name = ''cam/image:Material'', mat_color = ''#ffffff''\<rparr>,
        ud_geometry = None, ud_mesh = None,
        calls = [GeometryCreate, TextureCreate, MaterialCreate, MeshAdd, GeometryDispose,
                 MeshRemove]\<rparr>],
      [(''cam/image'', 0)], [0], True, [''cam/info''], [(0, ''cam/image'', jpeg1)],
      [[''topics''], [''topics'', ''cam/image'']])"
  by code_simp+

lemma lateDecode_snapshot:
  "snapshot (dispose imageShown) =
     ([\<lparr>r_name = ''cam/image'', r_visible = True, r_children = [], ud_topic = ''cam/image'',
        ud_settings = \<lparr>visible = True, cameraInfoTopic = Some ''cam/info'', distance = 1,
                         color = ''#ffffff''\<rparr>,
        ud_image = jpeg1, ud_pose = makePose,
        ud_srcTime = 1000000000, ud_texture = None, ud_material = None,
        ud_geometry = None, ud_mesh = None,
        calls = [GeometryCreate, GeometryDispose]\<rparr>],
      [], [], True, [''cam/info''], [(0, ''cam/image'', jpeg1)],
      [[''topics''], [''topics'', ''cam/image'']])"
  "snapshot lateDecode =
     ([\<lparr>r_name = ''cam/image'', r_visible = True, r_children = [], ud_topic = ''cam/image'',
        ud_settings = \<lparr>visible = True, cameraInfoTopic = Some ''cam/info'', distance = 1,
                         color = ''#ffffff''\<rparr>,
        ud_image = jpeg1, ud_pose = makePose,
        ud_srcTime = 1000000000, ud_texture = Some \<lparr>tex_image = bitmap7\<rparr>,
        ud_material = Some \<lparr>mat_name = ''cam/image:Material'', mat_color = ''#ffffff''\<rparr>,
        ud_geometry = None, ud_mesh = None,
        calls = [GeometryCreate, GeometryDispose, TextureCreate, MaterialCreate]\<rparr>],
      [], [], True, [''cam/info''], [],
      [[''topics''], [''topics'', ''cam/image'']])"
  by code_simp+

lemma framed_snapshot:
  "snapshot framed =
     ([\<lparr>r_name = ''cam/image'', r_visible = True, r_children = [], ud_topic = ''cam/image'',
        ud_settings = DEFAULT_SETTINGS, ud_image = jpeg1, ud_pose = makePose,
        ud_srcTime = 1000000000, ud_texture = None, ud_material = None, ud_geometry = None,
        ud_mesh = None, calls = []\<rparr>],
      [(''cam/image'', 0)], [0], True, [], [(0, ''cam/image'', jpeg1)], [])"
  "layerErrors framed (''cam/image'', MISSING_TRANSFORM) =
     Some (MissingTransformMessage ''base'' ''map'' ''cam'')"
  "layerErrors oneImage (''cam/image'', MISSING_TRANSFORM) = None"
  by code_simp+

lemma cameraModels_kept [simp]:
  "cameraModels (stateOf (updateImageRenderable st rid img s)) = cameraModels st"
  "cameraModels (stateOf (addImageMessage st topic img)) = cameraModels st"
  "cameraModels (stateOf (addCameraInfoMessage st topic)) = cameraModels st"
  "cameraModels (stateOf (setTopicSettings st topic s)) = cameraModels st"
  "cameraModels (settle st k result) = cameraModels st"
proof -
  show u: "\<And>st rid img s. cameraModels (stateOf (updateImageRenderable st rid img s)) = cameraModels st"
    by (simp add: updateImageRenderable_state)
  show "cameraModels (stateOf (addImageMessage st topic img)) = cameraModels st"
    by (simp add: addImageMessage_def getOrCreate_def autoSelect_def Let_def u setObject_def
          emit_def split: option.split prod.split)
  show "cameraModels (stateOf (addCameraInfoMessage st topic)) = cameraModels st"
  proof -
    have k: "\<And>u b. cameraModels (stateOf (case u of Inl thrown \<Rightarrow> Inl thrown
              | Inr st2 \<Rightarrow> Inr (if b then emit st2 [''topics''] else st2)))
          = cameraModels (stateOf u)"
      subgoal for u b
        by (cases u) (auto simp: emit_def)
      done
    show ?thesis
      by (simp add: addCameraInfoMessage_def Let_def k u emit_def split: option.split)
  qed
  show "cameraModels (stateOf (setTopicSettings st topic s)) = cameraModels st"
    by (simp add: setTopicSettings_def u split: option.split)
  show "cameraModels (settle st k result) = cameraModels st"
    by (simp add: settle_def Let_def onBitmap_def onBitmapError_def setObject_def
          split: prod.split Settled.split)
qed

lemma movedAway_cameras: "cameraModels (stateOf movedAway) ''cam/info'' = Some pinhole"
  unfolding movedAway_def decoded_def imageShown_def infoKnown_def started_def
  by (simp add: newImages_def camerasKnown_def)

lemma imageShown_snapshot:
  "snapshot imageShown =
     ([\<lparr>r_name = ''cam/image'', r_visible = True, r_children = [], ud_topic = ''cam/image'',
        ud_settings = \<lparr>visible = True, cameraInfoTopic = Some ''cam/info'', distance = 1,
                         color = ''#ffffff''\<rparr>,
        ud_image = jpeg1, ud_pose = makePose,
        ud_srcTime = 1000000000, ud_texture = None, ud_material = None,
        ud_geometry = Some (createGeometry pinhole 1), ud_mesh = None,
        calls = [GeometryCreate]\<rparr>],
      [(''cam/image'', 0)], [0], True, [''cam/info''], [(0, ''cam/image'', jpeg1)],
      [[''topics''], [''topics'', ''cam/image'']])"
  by code_simp

lemma oneImage_frames:
  "renderFrameId oneImage = Some ''base''" "fixedFrameId oneImage = Some ''map''"
  by code_simp+

lemma firstLate_snapshot:
  "snapshot (dispose twoShown) =
     ([\<lparr>r_name = ''cam/image'', r_visible = True, r_children = [], ud_topic = ''cam/image'',
        ud_settings = \<lparr>visible = True, cameraInfoTopic = Some ''cam/info'', distance = 1,
                         color = ''#ffffff''\<rparr>,
        ud_image = jpeg1, ud_pose = makePose,
        ud_srcTime = 1000000000, ud_texture = None, ud_material = None,
        ud_geometry = None, ud_mesh = None,
        calls = [GeometryCreate, GeometryDispose]\<rparr>],
      [], [], True, [''cam/info''], [(0, ''cam/image'', jpeg1), (0, ''cam/image'', jpeg2)],
      [[''topics''], [''topics'', ''cam/image'']])"
  "snapshot firstLate =
     ([\<lparr>r_name = ''cam/image'', r_visible = True, r_children = [], ud_topic = ''cam/image'',
        ud_settings = \<lparr>visible = True, cameraInfoTopic = Some ''cam/info'', distance = 1,
                         color = ''#ffffff''\<rparr>,
        ud_image = jpeg1, ud_pose = makePose,
        ud_srcTime = 1000000000, ud_texture = Some \<lparr>tex_image = bitmap7\<rparr>,
        ud_material = Some \<lparr>mat_name = ''cam/image:Material'', mat_color = ''#ffffff''\<rparr>,
        ud_geometry = None, ud_mesh = None,
        calls = [GeometryCreate, GeometryDispose, TextureCreate, MaterialCreate]\<rparr>],
      [], [], True, [''cam/info''], [(0, ''cam/image'', jpeg2)],
      [[''topics''], [''topics'', ''cam/image'']])"
  "snapshot secondLate =
     ([\<lparr>r_name = ''cam/image'', r_visible = True, r_children = [], ud_topic = ''cam/image'',
        ud_settings = \<lparr>visible = True, cameraInfoTopic = Some ''cam/info'', distance = 1,
                         color = ''#ffffff''\<rparr>,
        ud_image = jpeg1, ud_pose = makePose,
        ud_srcTime = 1000000000, ud_texture = Some \<lparr>tex_image = bitmap8\<rparr>,
        ud_material = Some \<lparr>mat_name = ''cam/image:Material'', mat_color = ''#ffffff''\<rparr>,
        ud_geometry = None, ud_mesh = None,
        calls = [GeometryCreate, GeometryDispose, TextureCreate, MaterialCreate]\<rparr>],
      [], [], True, [''cam/info''], [],
      [[''topics''], [''topics'', ''cam/image'']])"
  by code_simp+

lemma reachable_late:
  "reachable (dispose imageShown)" "reachable (dispose twoShown)" "reachable firstLate"
  unfolding firstLate_def twoShown_def imageShown_def infoKnown_def started_def
  by (intro reachable.intros)+

lemma sameAgain_snapshot:
  "\<not> isl sameAgain"
  "snapshot (stateOf sameAgain) =
     ([\<lparr>r_name = ''cam/image'', r_visible = True,
        r_children = [Mesh (createGeometry pinhole 2)
              \<lparr>mat_name = ''cam/image:Material'', mat_color = ''#ffffff''\<rparr>],
        ud_topic = ''cam/image'',
        ud_settings = \<lparr>visible = True, cameraInfoTopic = Some ''cam/info'', distance = 2,
                         color = ''#ffffff''\<rparr>,
        ud_image = jpeg1, ud_pose = makePose,
        ud_srcTime = 1000000000, ud_texture = Some \<lparr>tex_image = bitmap7\<rparr>,
        ud_material = Some \<lparr>mat_name = ''cam/image:Material'', mat_color = ''#ffffff''\<rparr>,
        ud_geometry = Some (createGeometry pinhole 2),
        ud_mesh = Some (Mesh (createGeometry pinhole 2)
              \<lparr>mat_name = ''cam/image:Material'', mat_color = ''#ffffff''\<rparr>),
        calls = [GeometryCreate, TextureCreate, MaterialCreate, MeshAdd, GeometryDispose,
                 MeshRemove, GeometryCreate, MeshAdd]\<rparr>],
      [(''cam/image'', 0)], [0], True, [''cam/info''],
      [(0, ''cam/image'', jpeg1), (0, ''cam/image'', jpeg1)],
      [[''topics''], [''topics'', ''cam/image'']])"
  by code_simp+

section \<open>Exact arithmetic\<close>




section \<open>A new camera-info topic\<close>

text \<open>
  C1. The claim says that a new camera-info topic re-runs the update of every renderable whose
  image topic matches it. The source looks the camera-info topic itself up in the map of
  image topics, so a renderable on a matching topic of another name is not found. At the
  sample state with one image on \<open>cam/image\<close>, the topic \<open>cam/info\<close> matches and is new,
  the call returns, and it leaves every renderable and the list of pending decodes as they
  were: no update ran (an update on this compressed image would have started a decode). The
  one thing the call did besides recording the topic is the \<open>[topics]\<close> event.
\<close>

theorem camera_info_skips_matching_renderable:
  "cameraInfoTopicMatches ''cam/image'' ''cam/info'' \<and>
   map_of (imagesByTopic oneImage) ''cam/image'' = Some 0 \<and>
   ''cam/info'' \<notin> set (cameraInfoTopics oneImage) \<and>
   \<not> isl infoAfterImage \<and>
   objects (stateOf infoAfterImage) = objects oneImage \<and>
   pending (stateOf infoAfterImage) = pending oneImage \<and>
   emitted (stateOf infoAfterImage) = emitted oneImage @ [[''topics'']]"
proof -
  have "cameraInfoTopicMatches ''cam/image'' ''cam/info''"
    by (simp add: cameraInfoTopicMatches_def matchesLoop.simps)
  then show ?thesis
    using oneImage_snapshot infoAfterImage_snapshot by (simp add: snapshot_def)
qed

section \<open>The stored image\<close>

text \<open>
  C2. The claim says that after \<open>addImageMessage\<close> the renderable holds the image of the call
  and its time. The source stores both only when it creates the renderable. After a second
  image on the same topic, the renderable still holds the first image and the first time,
  although the second image was handed to the decoder.
\<close>

theorem later_image_not_stored:
  "map_of (imagesByTopic oneImage) ''cam/image'' = Some 0 \<and>
   map_of (imagesByTopic twoImages) ''cam/image'' = Some 0 \<and>
   ud_image (objects twoImages ! 0) = jpeg1 \<and> jpeg1 \<noteq> jpeg2 \<and>
   ud_srcTime (objects twoImages ! 0) = rosTimeToNanoSec (stamp (header jpeg1)) \<and>
   rosTimeToNanoSec (stamp (header jpeg1)) \<noteq> rosTimeToNanoSec (stamp (header jpeg2)) \<and>
   pending twoImages = [(0, ''cam/image'', jpeg1), (0, ''cam/image'', jpeg2)]"
  using oneImage_snapshot twoImages_snapshot
  by (simp add: snapshot_def jpeg1_def jpeg2_def camHeader_def rosTimeToNanoSec_def)

section \<open>Resolving the pose in startFrame\<close>

text \<open>
  C3, as amended. When the render frame and the fixed frame are both known, \<open>startFrame\<close>
  makes every renderable of the manager whose settings say visible visible, and resolves its
  pose with the transform resolver from the frame of its stored image, with the current time
  of the frame both as destination time and as source time: the time stamp of the image is
  not used. When the resolver succeeds the renderable gets the new pose and the
  missing-transform error of its topic is left as it was; when it fails the renderable keeps
  its pose and a missing-transform error is reported under its topic. \<open>startFrame\<close> returns
  in both cases.
\<close>

theorem startFrame_resolves_at_current_time:
  assumes "reachable st"
    and "renderFrameId st = Some renderFrame" and "fixedFrameId st = Some fixedFrame"
    and "(topic, rid) \<in> set (imagesByTopic st)"
    and "visible (ud_settings (objects st ! rid))"
  shows "r_visible (objects (startFrame updatePose st currentTime) ! rid) \<and>
    (case updatePose (ud_pose (objects st ! rid)) renderFrame fixedFrame
            (frame_id (header (ud_image (objects st ! rid)))) currentTime currentTime of
       Some p \<Rightarrow>
         ud_pose (objects (startFrame updatePose st currentTime) ! rid) = p \<and>
         layerErrors (startFrame updatePose st currentTime) (topic, MISSING_TRANSFORM) =
           layerErrors st (topic, MISSING_TRANSFORM)
     | None \<Rightarrow>
         ud_pose (objects (startFrame updatePose st currentTime) ! rid) =
           ud_pose (objects st ! rid) \<and>
         layerErrors (startFrame updatePose st currentTime) (topic, MISSING_TRANSFORM) =
           Some (MissingTransformMessage renderFrame fixedFrame
                   (frame_id (header (ud_image (objects st ! rid))))))"
proof -
  have wf: "wfImages st" using reachable_invariant[OF assms(1)] by simp
  have top: "ud_topic (objects st ! rid) = topic"
    using wf assms(4) by (auto simp: wfImages_def list_all_iff)
  note r = startFrame_renderable[OF wf assms(2,3,4), of updatePose currentTime]
  show ?thesis
    unfolding r(1) r(2)[of MISSING_TRANSFORM]
    using assms(5) top
    by (simp add: frameRenderable_def frameErrors_def addToTopic_def split: option.split)
qed

text \<open>
  The sample manager at time 5, with the resolver that knows the transform only at the time
  of the image: resolution fails, the pose stays and the error is reported.
\<close>

theorem startFrame_resolves_at_current_time_witness:
  "reachable oneImage \<and> renderFrameId oneImage = Some ''base'' \<and>
   fixedFrameId oneImage = Some ''map'' \<and> (''cam/image'', 0) \<in> set (imagesByTopic oneImage) \<and>
   visible (ud_settings (objects oneImage ! 0)) \<and>
   r_visible (objects framed ! 0) \<and>
   ud_pose (objects framed ! 0) = ud_pose (objects oneImage ! 0) \<and>
   layerErrors framed (''cam/image'', MISSING_TRANSFORM) =
     Some (MissingTransformMessage ''base'' ''map''
             (frame_id (header (ud_image (objects oneImage ! 0)))))"
proof -
  have h: "(''cam/image'', 0) \<in> set (imagesByTopic oneImage)"
    "visible (ud_settings (objects oneImage ! 0))"
    by (simp_all add: oneImage_eval DEFAULT_SETTINGS_def)
  show ?thesis
    using startFrame_resolves_at_current_time[OF reachable_samples(2) oneImage_frames h,
        of onlyAtStamp 5] h oneImage_frames reachable_samples(2)
    by (simp add: framed_def onlyAtStamp_def)
qed

text \<open>
  C3 as stated fails: with the time stamp of the stored image as source time the resolver
  succeeds and gives the moved pose, yet \<open>startFrame\<close> leaves the pose of the renderable as
  it was and reports a missing transform, because it asks for the current time.
\<close>

theorem startFrame_ignores_image_time:
  "renderFrameId oneImage = Some ''base'' \<and> fixedFrameId oneImage = Some ''map'' \<and>
   (''cam/image'', 0) \<in> set (imagesByTopic oneImage) \<and>
   visible (ud_settings (objects oneImage ! 0)) \<and>
   onlyAtStamp (ud_pose (objects oneImage ! 0)) ''base'' ''map''
     (frame_id (header (ud_image (objects oneImage ! 0)))) 5
     (rosTimeToNanoSec (stamp (header (ud_image (objects oneImage ! 0))))) = Some movedPose \<and>
   ud_pose (objects framed ! 0) = makePose \<and> makePose \<noteq> movedPose \<and>
   layerErrors framed (''cam/image'', MISSING_TRANSFORM) =
     Some (MissingTransformMessage ''base'' ''map'' ''cam'')"
  using framed_snapshot oneImage_frames
  by (simp add: snapshot_def oneImage_eval DEFAULT_SETTINGS_def onlyAtStamp_def jpeg1_def
        camHeader_def rosTimeToNanoSec_def makePose_def movedPose_def)

section \<open>Rebuilding the geometry\<close>

text \<open>
  C4. The claim says that geometry is disposed and rebuilt when the distance changes, and
  that geometry is built whenever the merged settings select a camera-info topic, none
  exists and the camera model is available. The source tests the camera-info topic of the
  settings argument, not of the merged settings. On the renderable that shows its image,
  \<open>setTopicSettings\<close> with only a new distance disposes the geometry and removes the mesh,
  and returns with no geometry, although the merged settings select \<open>cam/info\<close> and the
  camera model of \<open>cam/info\<close> is available.
\<close>

theorem distance_change_leaves_no_geometry:
  "map_of (imagesByTopic decoded) ''cam/image'' = Some 0 \<and>
   ud_geometry (objects decoded ! 0) = Some (createGeometry pinhole 1) \<and>
   \<not> isl movedAway \<and>
   cameraInfoTopic (ud_settings (objects (stateOf movedAway) ! 0)) = Some ''cam/info'' \<and>
   distance (ud_settings (objects (stateOf movedAway) ! 0)) = 2 \<and>
   cameraModels (stateOf movedAway) ''cam/info'' = Some pinhole \<and>
   ud_geometry (objects (stateOf movedAway) ! 0) = None \<and>
   ud_mesh (objects (stateOf movedAway) ! 0) = None \<and>
   calls (objects (stateOf movedAway) ! 0) =
     calls (objects decoded ! 0) @ [GeometryDispose, MeshRemove]"
  using decoded_snapshot movedAway_snapshot movedAway_cameras
  by (simp add: snapshot_def)

text \<open>
  X1. What does hold of the conditions in C4, for every update of an allocated renderable:
  the update calls \<open>dispose\<close> on the geometry exactly when a geometry exists and the
  merged settings differ from the previous ones in the camera-info topic or in the distance
  (so never on a change of colour alone); it disposes the material exactly when the image is
  compressed, a material exists and the merged colour differs from the previous one; and it
  builds a material exactly when the image is compressed, a texture exists, and the colour
  differs or no material exists.
\<close>

theorem update_rebuild_conditions:
  assumes "rid < length (objects st)"
  shows "\<exists>new.
     calls (objects (stateOf (updateImageRenderable st rid img s)) ! rid) =
       calls (objects st ! rid) @ new \<and>
     (GeometryDispose \<in> set new \<longleftrightarrow>
        ud_geometry (objects st ! rid) \<noteq> None \<and>
        (cameraInfoTopic (spread (ud_settings (objects st ! rid)) s) \<noteq>
           cameraInfoTopic (ud_settings (objects st ! rid)) \<or>
         distance (spread (ud_settings (objects st ! rid)) s) \<noteq>
           distance (ud_settings (objects st ! rid)))) \<and>
     (MaterialDispose \<in> set new \<longleftrightarrow>
        hasFormat img \<and> ud_material (objects st ! rid) \<noteq> None \<and>
        color (spread (ud_settings (objects st ! rid)) s) \<noteq> color (ud_settings (objects st ! rid))) \<and>
     (MaterialCreate \<in> set new \<longleftrightarrow>
        hasFormat img \<and> ud_texture (objects st ! rid) \<noteq> None \<and>
        (ud_material (objects st ! rid) = None \<or>
         color (spread (ud_settings (objects st ! rid)) s) \<noteq> color (ud_settings (objects st ! rid))))"
proof -
  define r where "r = objects st ! rid"
  define g where "g = geometryUpdated (cameraModels st) s r"
  define cc where "cc = (color (spread (ud_settings r) s) \<noteq> color (ud_settings r))"
  define r' where "r' = objects (stateOf (updateImageRenderable st rid img s)) ! rid"
  have r': "r' = (if hasFormat img then materialUpdated cc g else g)"
    using assms by (simp add: r'_def updateImageRenderable_state g_def cc_def r_def)
  obtain ng where ng: "calls g = calls r @ ng \<and>
     MaterialDispose \<notin> set ng \<and> MaterialCreate \<notin> set ng \<and>
     (GeometryDispose \<in> set ng \<longleftrightarrow>
        ud_geometry r \<noteq> None \<and>
        (cameraInfoTopic (spread (ud_settings r) s) \<noteq> cameraInfoTopic (ud_settings r) \<or>
         distance (spread (ud_settings r) s) \<noteq> distance (ud_settings r)))"
    using geometryUpdated_new_calls[of "cameraModels st" s r] unfolding g_def ..
  obtain nm where nm: "calls (materialUpdated cc g) = calls g @ nm \<and>
     GeometryDispose \<notin> set nm \<and>
     (MaterialDispose \<in> set nm \<longleftrightarrow> ud_material g \<noteq> None \<and> cc) \<and>
     (MaterialCreate \<in> set nm \<longleftrightarrow> ud_texture g \<noteq> None \<and> (ud_material g = None \<or> cc))"
    using materialUpdated_new_calls[of cc g] ..
  have same: "ud_material g = ud_material r" "ud_texture g = ud_texture r"
    by (simp_all add: g_def)
  show ?thesis
  proof (cases "hasFormat img")
    case True
    have "calls r' = calls r @ (ng @ nm)"
      using True r' ng nm by simp
    then show ?thesis
      unfolding r'_def[symmetric] r_def[symmetric] cc_def[symmetric]
      using True ng nm same
      by (intro exI[of _ "ng @ nm"]) auto
  next
    case False
    have "calls r' = calls r @ ng"
      using False r' ng by simp
    then show ?thesis
      unfolding r'_def[symmetric] r_def[symmetric] cc_def[symmetric]
      using False ng
      by (intro exI[of _ ng]) auto
  qed
qed


text \<open>On the renderable that shows its image, a new distance disposes the geometry only.\<close>

theorem update_rebuild_conditions_witness:
  "0 < length (objects decoded) \<and>
   (\<exists>new. calls (objects (stateOf (updateImageRenderable decoded 0 jpeg1 farther)) ! 0) =
            calls (objects decoded ! 0) @ new \<and>
          GeometryDispose \<in> set new \<and> MaterialDispose \<notin> set new \<and>
          MaterialCreate \<notin> set new)"
proof -
  have len: "0 < length (objects decoded)"
    using decoded_snapshot by (simp add: snapshot_def)
  have f: "hasFormat jpeg1" by (simp add: jpeg1_def)
  have o: "objects decoded ! 0 =
     \<lparr>r_name = ''cam/image'', r_visible = True,
        r_children = [Mesh (createGeometry pinhole 1)
              \<lparr>mat_name = ''cam/image:Material'', mat_color = ''#ffffff''\<rparr>],
        ud_topic = ''cam/image'',
        ud_settings = \<lparr>visible = True, cameraInfoTopic = Some ''cam/info'', distance = 1,
                         color = ''#ffffff''\<rparr>,
        ud_image = jpeg1, ud_pose = makePose,
        ud_srcTime = 1000000000, ud_texture = Some \<lparr>tex_image = bitmap7\<rparr>,
        ud_material = Some \<lparr>mat_name = ''cam/image:Material'', mat_color = ''#ffffff''\<rparr>,
        ud_geometry = Some (createGeometry pinhole 1),
        ud_mesh = Some (Mesh (createGeometry pinhole 1)
              \<lparr>mat_name = ''cam/image:Material'', mat_color = ''#ffffff''\<rparr>),
        calls = [GeometryCreate, TextureCreate, MaterialCreate, MeshAdd]\<rparr>"
    using decoded_snapshot by (simp add: snapshot_def)
  show ?thesis
    using update_rebuild_conditions[OF len, of jpeg1 farther] len f
    unfolding o
    by (simp add: spread_def farther_def noSettings_def)
qed

section \<open>A decode that settles after its renderable was removed\<close>

text \<open>
  C5, as amended. Take a reachable state with a pending decode whose renderable is in no
  entry of the map of the manager: dispose has removed it, and any operations may have run
  and any other decodes may have settled since. When the decode settles, the map of the
  manager, its children, the known camera-info topics and the emitted events stay as they
  are, no object but the removed renderable changes, and that renderable gets no geometry, no
  mesh and no child. But the callback has no check for removal. When the decode succeeded, it
  puts the bitmap into the texture of the removed renderable and removes the decode error of
  the topic: a renderable without texture, as dispose leaves it, gets a new texture and a new
  material; one that has a texture, from an earlier late decode, keeps its material and gets
  the bitmap only. When the decode failed, the callback reports a decode error for the topic
  and leaves the objects alone.
\<close>

theorem decode_after_dispose:
  assumes "reachable st" and "k < length (pending st)"
    and "pending st ! k = (rid, topic, img)" and "rid \<notin> snd ` set (imagesByTopic st)"
  shows "imagesByTopic (settle st k result) = imagesByTopic st \<and>
    children (settle st k result) = children st \<and>
    cameraInfoTopics (settle st k result) = cameraInfoTopics st \<and>
    emitted (settle st k result) = emitted st \<and>
    length (objects (settle st k result)) = length (objects st) \<and>
    (\<forall>j. j \<noteq> rid \<longrightarrow> objects (settle st k result) ! j = objects st ! j) \<and>
    ud_geometry (objects (settle st k result) ! rid) = None \<and>
    ud_mesh (objects (settle st k result) ! rid) = None \<and>
    r_children (objects (settle st k result) ! rid) = r_children (objects st ! rid) \<and>
    (case result of
       Fulfilled bitmap \<Rightarrow>
         ud_texture (objects (settle st k result) ! rid) = Some \<lparr>tex_image = bitmap\<rparr> \<and>
         (case ud_texture (objects st ! rid) of
            None \<Rightarrow>
              ud_material (objects (settle st k result) ! rid) =
                Some \<lparr>mat_name = topic @ '':Material'',
                      mat_color = color (ud_settings (objects st ! rid))\<rparr> \<and>
              calls (objects (settle st k result) ! rid) =
                calls (objects st ! rid) @ [TextureCreate] @
                (case ud_material (objects st ! rid) of None \<Rightarrow> [] | Some m \<Rightarrow> [MaterialDispose]) @
                [MaterialCreate]
          | Some t \<Rightarrow>
              ud_material (objects (settle st k result) ! rid) = ud_material (objects st ! rid) \<and>
              ud_material (objects st ! rid) \<noteq> None \<and>
              calls (objects (settle st k result) ! rid) = calls (objects st ! rid)) \<and>
         layerErrors (settle st k result) =
           removeFromTopic (layerErrors st) topic CREATE_BITMAP_ERR
     | Rejected msg \<Rightarrow>
         objects (settle st k result) = objects st \<and>
         layerErrors (settle st k result) =
           addToTopic (layerErrors st) topic CREATE_BITMAP_ERR (CreateBitmapFailed msg))"
proof -
  have inv: "wfImages st" "heapAll sound st"
    using reachable_invariant[OF assms(1)] by simp_all
  have "(rid, topic, img) \<in> set (pending st)"
    using assms(2,3) nth_mem[of k "pending st"] by simp
  then have len: "rid < length (objects st)" and top: "ud_topic (objects st ! rid) = topic"
    using inv(1) by (auto simp: wfImages_def list_all_iff)
  define r where "r = objects st ! rid"
  have bare: "ud_geometry r = None" "ud_mesh r = None"
    using reachable_removed[OF assms(1)] len assms(4) by (auto simp: removedBare_iff r_def)
  have tex: "ud_texture r \<noteq> None \<longrightarrow> ud_material r \<noteq> None"
    using heapAll_nth[OF inv(2) len] by (auto simp: sound_def textured_def r_def)
  show ?thesis
  proof (cases result)
    case (Fulfilled bitmap)
    define r' where
      "r' = (case ud_texture r of
               None \<Rightarrow> tryCreateMesh (rebuildMaterial
                         (r\<lparr>ud_texture := Some \<lparr>tex_image = bitmap\<rparr>,
                            calls := calls r @ [TextureCreate]\<rparr>))
             | Some t \<Rightarrow> r\<lparr>ud_texture := Some (t\<lparr>tex_image := bitmap\<rparr>)\<rparr>)"
    have s: "settle st k result =
        st\<lparr>pending := take k (pending st) @ drop (Suc k) (pending st),
           objects := (objects st)[rid := r'],
           layerErrors := removeFromTopic (layerErrors st) topic CREATE_BITMAP_ERR\<rparr>"
      using assms(2,3) Fulfilled
      by (simp add: settle_def Let_def onBitmap_def setObject_def r'_def r_def
            cong: option.case_cong)
    have r': "ud_geometry r' = None" "ud_mesh r' = None" "r_children r' = r_children r"
      "ud_texture r' = Some \<lparr>tex_image = bitmap\<rparr>"
      using bare
      by (simp_all add: r'_def tryCreateMesh_mesh tryCreateMesh_def rebuildMaterial_calls
            split: option.split)
    have branch: "case ud_texture r of
            None \<Rightarrow>
              ud_material r' =
                Some \<lparr>mat_name = topic @ '':Material'', mat_color = color (ud_settings r)\<rparr> \<and>
              calls r' =
                calls r @ [TextureCreate] @
                (case ud_material r of None \<Rightarrow> [] | Some m \<Rightarrow> [MaterialDispose]) @
                [MaterialCreate]
          | Some t \<Rightarrow> ud_material r' = ud_material r \<and> ud_material r \<noteq> None \<and> calls r' = calls r"
      using bare tex top
      by (simp add: r'_def tryCreateMesh_calls rebuildMaterial_calls rebuildMaterial_material
            r_def[symmetric] split: option.split)
    show ?thesis
      unfolding s r_def[symmetric] using len r' branch Fulfilled
      by (simp add: r_def[symmetric] cong: option.case_cong)
  next
    case (Rejected msg)
    have s: "settle st k result =
        st\<lparr>pending := take k (pending st) @ drop (Suc k) (pending st),
           layerErrors := addToTopic (layerErrors st) topic CREATE_BITMAP_ERR
             (CreateBitmapFailed msg)\<rparr>"
      using assms(2,3) Rejected
      by (simp add: settle_def Let_def onBitmapError_def)
    show ?thesis
      unfolding s using bare Rejected by (simp add: r_def)
  qed
qed

text \<open>
  The sample manager disposed with one decode pending, which then succeeds; and the manager
  disposed with two decodes pending, at the second of them.
\<close>

theorem decode_after_dispose_witness:
  "reachable (dispose imageShown) \<and> 0 < length (pending (dispose imageShown)) \<and>
   pending (dispose imageShown) ! 0 = (0, ''cam/image'', jpeg1) \<and>
   0 \<notin> snd ` set (imagesByTopic (dispose imageShown)) \<and>
   imagesByTopic lateDecode = [] \<and> children lateDecode = [] \<and>
   ud_geometry (objects lateDecode ! 0) = None \<and> ud_mesh (objects lateDecode ! 0) = None \<and>
   ud_texture (objects lateDecode ! 0) = Some \<lparr>tex_image = bitmap7\<rparr> \<and>
   reachable firstLate \<and> 0 < length (pending firstLate) \<and>
   pending firstLate ! 0 = (0, ''cam/image'', jpeg2) \<and>
   0 \<notin> snd ` set (imagesByTopic firstLate) \<and>
   ud_texture (objects firstLate ! 0) = Some \<lparr>tex_image = bitmap7\<rparr> \<and>
   ud_texture (objects secondLate ! 0) = Some \<lparr>tex_image = bitmap8\<rparr> \<and>
   ud_material (objects secondLate ! 0) = ud_material (objects firstLate ! 0) \<and>
   calls (objects secondLate ! 0) = calls (objects firstLate ! 0)"
proof -
  have h: "0 < length (pending (dispose imageShown))"
    "pending (dispose imageShown) ! 0 = (0, ''cam/image'', jpeg1)"
    "0 \<notin> snd ` set (imagesByTopic (dispose imageShown))"
    using lateDecode_snapshot(1) by (simp_all add: snapshot_def)
  have g: "0 < length (pending firstLate)"
    "pending firstLate ! 0 = (0, ''cam/image'', jpeg2)"
    "0 \<notin> snd ` set (imagesByTopic firstLate)"
    and t: "ud_texture (objects firstLate ! 0) = Some \<lparr>tex_image = bitmap7\<rparr>"
    using firstLate_snapshot(2) by (simp_all add: snapshot_def)
  have a: "imagesByTopic lateDecode = [] \<and> children lateDecode = [] \<and>
   ud_geometry (objects lateDecode ! 0) = None \<and> ud_mesh (objects lateDecode ! 0) = None \<and>
   ud_texture (objects lateDecode ! 0) = Some \<lparr>tex_image = bitmap7\<rparr>"
    using decode_after_dispose[OF reachable_late(1) h, of "Fulfilled bitmap7"]
      lateDecode_snapshot(1)
    by (simp add: lateDecode_def snapshot_def)
  have b: "ud_texture (objects secondLate ! 0) = Some \<lparr>tex_image = bitmap8\<rparr> \<and>
   ud_material (objects secondLate ! 0) = ud_material (objects firstLate ! 0) \<and>
   calls (objects secondLate ! 0) = calls (objects firstLate ! 0)"
    using decode_after_dispose[OF reachable_late(3) g, of "Fulfilled bitmap8"] t
    by (simp add: secondLate_def)
  show ?thesis using a b h g t reachable_late(1,3) by simp
qed

text \<open>
  C5 as stated fails: dispose had cleared the texture and the material of the renderable and
  removed it from the manager, and the callback of the decode builds both again on it.
\<close>

theorem late_decode_builds_texture_and_material:
  "pending (dispose imageShown) = [(0, ''cam/image'', jpeg1)] \<and>
   imagesByTopic (dispose imageShown) = [] \<and>
   ud_texture (objects (dispose imageShown) ! 0) = None \<and>
   ud_material (objects (dispose imageShown) ! 0) = None \<and>
   ud_texture (objects lateDecode ! 0) = Some \<lparr>tex_image = bitmap7\<rparr> \<and>
   ud_material (objects lateDecode ! 0) =
     Some \<lparr>mat_name = ''cam/image:Material'', mat_color = ''#ffffff''\<rparr> \<and>
   calls (objects lateDecode ! 0) =
     calls (objects (dispose imageShown) ! 0) @ [TextureCreate, MaterialCreate]"
  using lateDecode_snapshot by (simp add: snapshot_def)

section \<open>Auto-selection\<close>

text \<open>
  C6. Auto-selection looks at exactly the known camera-info topics that match the image
  topic, where matching is: split both at the slashes, same number of segments, all segments
  but the last equal. Splitting is what it should be: the segments contain no slash, joined
  with slashes they give the name back, there is one more of them than there are slashes,
  and a list of slash-free segments is what splitting their join returns. So two names match
  exactly when they are the same slash-free segments up to the last one. Auto-selection
  assigns the smallest candidate in lexicographic order, and nothing when no topic matches.
  \<open>addImageMessage\<close> runs it only for a renderable that has no selection, so a selection
  that was made stays and a missing one stays missing when nothing matches. Among
  \<open>a/b/info2\<close> and \<open>a/b/info1\<close> the choice for \<open>a/b/image\<close> is \<open>a/b/info1\<close>;
  \<open>a/image\<close> does not match \<open>b/camera_info\<close>, and names with different numbers of
  segments do not match, whichever is the longer.
\<close>

theorem autoSelect_smallest_match:
  "joinWith CHR ''/'' (split_on CHR ''/'' s) = s \<and>
   (\<forall>p\<in>set (split_on CHR ''/'' s). CHR ''/'' \<notin> set p) \<and>
   length (split_on CHR ''/'' s) = Suc (length (filter (\<lambda>x. x = CHR ''/'') s)) \<and>
   (ps \<noteq> [] \<and> (\<forall>p\<in>set ps. CHR ''/'' \<notin> set p) \<longrightarrow>
      split_on CHR ''/'' (joinWith CHR ''/'' ps) = ps) \<and>
   split_on CHR ''/'' ''a/b/image'' = [''a'', ''b'', ''image''] \<and>
   cameraInfoTopicMatches t c =
     (\<exists>ns a b. (\<forall>p\<in>set (a # b # ns). CHR ''/'' \<notin> set p) \<and>
        t = joinWith CHR ''/'' (ns @ [a]) \<and> c = joinWith CHR ''/'' (ns @ [b])) \<and>
   cameraInfoTopicMatches t c = sameNamespace t c \<and>
   cameraInfoTopic (autoSelectCameraInfoTopic output t known) =
     (if {c \<in> set known. sameNamespace t c} = {} then None
      else Some (Min {c \<in> set known. sameNamespace t c})) \<and>
   (rid < length (objects st) \<longrightarrow>
      cameraInfoTopic (ud_settings (objects (autoSelect st rid t) ! rid)) =
        (case cameraInfoTopic (ud_settings (objects st ! rid)) of
           Some chosen \<Rightarrow> Some chosen
         | None \<Rightarrow>
             if {c \<in> set (cameraInfoTopics st). sameNamespace t c} = {} then None
             else Some (Min {c \<in> set (cameraInfoTopics st). sameNamespace t c}))) \<and>
   cameraInfoTopic (autoSelectCameraInfoTopic output ''a/b/image'' [''a/b/info2'', ''a/b/info1''])
     = Some ''a/b/info1'' \<and>
   cameraInfoTopicMatches ''a/b/image'' ''a/b/camera_info'' \<and>
   \<not> cameraInfoTopicMatches ''a/image'' ''b/camera_info'' \<and>
   \<not> cameraInfoTopicMatches ''a/b'' ''a/b/c'' \<and>
   \<not> cameraInfoTopicMatches ''a/b/c'' ''a/b'' \<and>
   \<not> cameraInfoTopicMatches ''a/b/image'' ''a/image'' \<and>
   cameraInfoTopic (autoSelectCameraInfoTopic output ''a/b/image'' [''a/info'', ''a/b/c/info''])
     = None"
proof -
  have sel: "\<And>out known. cameraInfoTopic (autoSelectCameraInfoTopic out t known) =
     (if {c \<in> set known. sameNamespace t c} = {} then None
      else Some (Min {c \<in> set known. sameNamespace t c}))"
    by (rule autoSelectCameraInfoTopic_Min)
  have "rid < length (objects st) \<Longrightarrow>
      cameraInfoTopic (ud_settings (objects (autoSelect st rid t) ! rid)) =
        (case cameraInfoTopic (ud_settings (objects st ! rid)) of
           Some chosen \<Rightarrow> Some chosen
         | None \<Rightarrow>
             if {c \<in> set (cameraInfoTopics st). sameNamespace t c} = {} then None
             else Some (Min {c \<in> set (cameraInfoTopics st). sameNamespace t c}))"
  proof (cases "cameraInfoTopic (ud_settings (objects st ! rid))")
    case None
    assume "rid < length (objects st)"
    with None show ?thesis
      unfolding autoSelect_def Let_def
      by (simp add: setObject_def emit_def sel del: autoSelectCameraInfoTopic_Min)
  next
    case (Some chosen)
    then show ?thesis by (simp add: autoSelect_def Let_def)
  qed
  then have state: "rid < length (objects st) \<longrightarrow>
      cameraInfoTopic (ud_settings (objects (autoSelect st rid t) ! rid)) =
        (case cameraInfoTopic (ud_settings (objects st ! rid)) of
           Some chosen \<Rightarrow> Some chosen
         | None \<Rightarrow>
             if {c \<in> set (cameraInfoTopics st). sameNamespace t c} = {} then None
             else Some (Min {c \<in> set (cameraInfoTopics st). sameNamespace t c}))"
    by blast
  have ex1: "cameraInfoTopic
      (autoSelectCameraInfoTopic output ''a/b/image'' [''a/b/info2'', ''a/b/info1''])
     = Some ''a/b/info1''"
    by (simp add: autoSelectCameraInfoTopic_def cameraInfoTopicMatches_def matchesLoop.simps)
  have ex2: "cameraInfoTopic
      (autoSelectCameraInfoTopic output ''a/b/image'' [''a/info'', ''a/b/c/info'']) = None"
    by (simp add: autoSelectCameraInfoTopic_def cameraInfoTopicMatches_def matchesLoop.simps)
  have ex3: "cameraInfoTopicMatches ''a/b/image'' ''a/b/camera_info''"
    "\<not> cameraInfoTopicMatches ''a/image'' ''b/camera_info''"
    "\<not> cameraInfoTopicMatches ''a/b'' ''a/b/c''"
    "\<not> cameraInfoTopicMatches ''a/b/c'' ''a/b''"
    "\<not> cameraInfoTopicMatches ''a/b/image'' ''a/image''"
    by (simp_all add: cameraInfoTopicMatches_def matchesLoop.simps)
  have ex4: "split_on CHR ''/'' ''a/b/image'' = [''a'', ''b'', ''image'']"
    by simp
  have free: "\<forall>p\<in>set (split_on CHR ''/'' s). CHR ''/'' \<notin> set p"
    using split_on_free by blast
  have uniq: "ps \<noteq> [] \<and> (\<forall>p\<in>set ps. CHR ''/'' \<notin> set p) \<longrightarrow>
      split_on CHR ''/'' (joinWith CHR ''/'' ps) = ps"
    using split_on_joinWith by blast
  have seg: "cameraInfoTopicMatches t c =
     (\<exists>ns a b. (\<forall>p\<in>set (a # b # ns). CHR ''/'' \<notin> set p) \<and>
        t = joinWith CHR ''/'' (ns @ [a]) \<and> c = joinWith CHR ''/'' (ns @ [b]))"
    unfolding cameraInfoTopicMatches_sameNamespace by (rule sameNamespace_segments)
  show ?thesis
    apply (intro conjI)
    apply (rule joinWith_split_on)
    apply (rule free)
    apply (rule split_on_length)
    apply (rule uniq)
    apply (rule ex4)
    apply (rule seg)
    apply (rule cameraInfoTopicMatches_sameNamespace)
    apply (rule sel)
    apply (rule state)
    apply (rule ex1)
    apply (rule ex3(1))
    apply (rule ex3(2))
    apply (rule ex3(3))
    apply (rule ex3(4))
    apply (rule ex3(5))
    apply (rule ex2)
    done
qed

text \<open>
  The same at the sample state with one image, at a list of three known topics, and at a
  camera-info topic that is one segment longer than the image topic.
\<close>

theorem autoSelect_smallest_match_witness:
  "cameraInfoTopicMatches ''cam/image'' ''cam/info'' \<and>
   \<not> cameraInfoTopicMatches ''cam/image'' ''cam/left/info'' \<and>
   split_on CHR ''/'' ''cam/left/info'' = [''cam'', ''left'', ''info''] \<and>
   CHR ''/'' \<notin> set ''cam'' \<and> CHR ''/'' \<notin> set ''left'' \<and> CHR ''/'' \<notin> set ''info'' \<and>
   joinWith CHR ''/'' [''cam'', ''left'', ''info''] = ''cam/left/info'' \<and>
   cameraInfoTopic
     (autoSelectCameraInfoTopic DEFAULT_SETTINGS ''cam/image'' [''cam/z'', ''cam/info'', ''other/info''])
     = Some ''cam/info'' \<and>
   0 < length (objects oneImage) \<and>
   cameraInfoTopic (ud_settings (objects (autoSelect oneImage 0 ''cam/image'') ! 0)) = None"
proof -
  have m: "sameNamespace ''cam/image'' ''cam/info''" "sameNamespace ''cam/image'' ''cam/z''"
    "\<not> sameNamespace ''cam/image'' ''other/info''"
    "\<not> sameNamespace ''cam/image'' ''cam/left/info''"
    by (simp_all add: sameNamespace_def)
  have s: "{c \<in> set [''cam/z'', ''cam/info'', ''other/info'']. sameNamespace ''cam/image'' c}
           = {''cam/z'', ''cam/info''}"
    using m by auto
  have len: "0 < length (objects oneImage)" by (simp add: oneImage_eval)
  have j: "joinWith CHR ''/'' [''cam'', ''left'', ''info''] = ''cam/left/info''"
    "[''cam'', ''left'', ''info''] \<noteq> []"
    "\<forall>p\<in>set [''cam'', ''left'', ''info'']. CHR ''/'' \<notin> set p"
    by simp_all
  note at_info = autoSelect_smallest_match[of "''cam/left/info''" "[''cam'', ''left'', ''info'']"
        "''cam/image''" "''cam/info''" DEFAULT_SETTINGS
        "[''cam/z'', ''cam/info'', ''other/info'']" 0 oneImage]
  note at_left = autoSelect_smallest_match[of "''cam/left/info''" "[''cam'', ''left'', ''info'']"
        "''cam/image''" "''cam/left/info''" DEFAULT_SETTINGS "[]" 0 oneImage]
  have "cameraInfoTopicMatches ''cam/image'' ''cam/info'' = sameNamespace ''cam/image'' ''cam/info''"
    using at_info apply (elim conjE) apply assumption done
  then have a: "cameraInfoTopicMatches ''cam/image'' ''cam/info''" using m(1) by simp
  have "cameraInfoTopicMatches ''cam/image'' ''cam/left/info'' =
        sameNamespace ''cam/image'' ''cam/left/info''"
    using at_left apply (elim conjE) apply assumption done
  then have b: "\<not> cameraInfoTopicMatches ''cam/image'' ''cam/left/info''" using m(4) by simp
  have "[''cam'', ''left'', ''info''] \<noteq> [] \<and>
        (\<forall>p\<in>set [''cam'', ''left'', ''info'']. CHR ''/'' \<notin> set p) \<longrightarrow>
        split_on CHR ''/'' (joinWith CHR ''/'' [''cam'', ''left'', ''info'']) =
          [''cam'', ''left'', ''info'']"
    using at_info apply (elim conjE) apply assumption done
  then have c: "split_on CHR ''/'' ''cam/left/info'' = [''cam'', ''left'', ''info'']"
    using j by simp
  have "cameraInfoTopic
     (autoSelectCameraInfoTopic DEFAULT_SETTINGS ''cam/image'' [''cam/z'', ''cam/info'', ''other/info''])
     = (if {c \<in> set [''cam/z'', ''cam/info'', ''other/info'']. sameNamespace ''cam/image'' c} = {}
        then None
        else Some (Min {c \<in> set [''cam/z'', ''cam/info'', ''other/info''].
                         sameNamespace ''cam/image'' c}))"
    using at_info apply (elim conjE) apply assumption done
  then have d: "cameraInfoTopic
     (autoSelectCameraInfoTopic DEFAULT_SETTINGS ''cam/image'' [''cam/z'', ''cam/info'', ''other/info''])
     = Some ''cam/info''"
    unfolding s by simp
  have "0 < length (objects oneImage) \<longrightarrow>
      cameraInfoTopic (ud_settings (objects (autoSelect oneImage 0 ''cam/image'') ! 0)) =
        (case cameraInfoTopic (ud_settings (objects oneImage ! 0)) of
           Some chosen \<Rightarrow> Some chosen
         | None \<Rightarrow>
             if {c \<in> set (cameraInfoTopics oneImage). sameNamespace ''cam/image'' c} = {} then None
             else Some (Min {c \<in> set (cameraInfoTopics oneImage). sameNamespace ''cam/image'' c}))"
    using at_info apply (elim conjE) apply assumption done
  then have e: "cameraInfoTopic (ud_settings (objects (autoSelect oneImage 0 ''cam/image'') ! 0))
                = None"
    using len by (simp add: oneImage_eval DEFAULT_SETTINGS_def)
  show ?thesis using a b c d e j len by simp
qed

section \<open>Mesh, geometry and material\<close>

text \<open>
  C7, as amended. In a reachable state where every renderable has a mesh exactly when it has
  geometry and material, the same holds after every public operation that returns
  (\<open>addImageMessage\<close>, \<open>addCameraInfoMessage\<close>, \<open>setTopicSettings\<close>, \<open>startFrame\<close>,
  \<open>dispose\<close>), after every decode that settles, and in a new manager. After an operation
  that throws, a mesh is still present only together with geometry and material. Disposing
  the geometry in an update and rebuilding the material both clear the mesh reference and
  remove the mesh that was referenced from the children of the renderable.
\<close>

theorem mesh_iff_kept_by_returning_operations:
  assumes "reachable st" and "heapAll meshIff st"
  shows "(\<forall>st'. addImageMessage st topic img = Inr st' \<longrightarrow> heapAll meshIff st') \<and>
    (\<forall>st'. addCameraInfoMessage st topic = Inr st' \<longrightarrow> heapAll meshIff st') \<and>
    (\<forall>st'. setTopicSettings st topic s = Inr st' \<longrightarrow> heapAll meshIff st') \<and>
    heapAll meshIff (startFrame updatePose st currentTime) \<and>
    heapAll meshIff (dispose st) \<and>
    heapAll meshIff (settle st k result) \<and>
    heapAll meshBacked (stateOf (addImageMessage st topic img)) \<and>
    heapAll meshBacked (stateOf (addCameraInfoMessage st topic)) \<and>
    heapAll meshBacked (stateOf (setTopicSettings st topic s)) \<and>
    heapAll meshIff (newImages config renderFrame fixedFrame cameras) \<and>
    ud_mesh (disposeGeometry r) = None \<and>
    r_children (disposeGeometry r) =
      (case ud_mesh r of None \<Rightarrow> r_children r | Some m \<Rightarrow> remove1 m (r_children r)) \<and>
    ud_mesh (rebuildMaterial r) = None \<and>
    r_children (rebuildMaterial r) =
      (case ud_mesh r of None \<Rightarrow> r_children r | Some m \<Rightarrow> remove1 m (r_children r))"
proof -
  have inv: "wfImages st" "heapAll sound st"
    using reachable_invariant[OF assms(1)] by simp_all
  have backed: "\<And>st'. heapAll sound st' \<Longrightarrow> heapAll meshBacked st'"
    by (rule heapAll_mono[of sound]) (simp add: sound_def)
  have a: "\<forall>st'. addImageMessage st topic img = Inr st' \<longrightarrow> heapAll meshIff st'"
  proof (intro allI impI)
    fix st' assume eq: "addImageMessage st topic img = Inr st'"
    then have "hasFormat img"
      using addImageMessage_isl[of st topic img] by simp
    then show "heapAll meshIff st'"
      using addImageMessage_preserves(3)[OF inv(1) assms(2), of img topic] eq by simp
  qed
  have b: "\<forall>st'. addCameraInfoMessage st topic = Inr st' \<longrightarrow> heapAll meshIff st'"
  proof (intro allI impI)
    fix st' assume eq: "addCameraInfoMessage st topic = Inr st'"
    then show "heapAll meshIff st'"
      using addCameraInfoMessage_preserves(3)[OF inv(1) assms(2), of topic] by simp
  qed
  have c: "\<forall>st'. setTopicSettings st topic s = Inr st' \<longrightarrow> heapAll meshIff st'"
  proof (intro allI impI)
    fix st' assume eq: "setTopicSettings st topic s = Inr st'"
    then show "heapAll meshIff st'"
      using setTopicSettings_preserves(3)[OF inv(1) assms(2), of topic s] by simp
  qed
  have "\<And>r v. meshIff (r\<lparr>r_visible := v\<rparr>) = meshIff r"
    and "\<And>r p. meshIff (r\<lparr>ud_pose := p\<rparr>) = meshIff r"
    by (simp_all add: meshIff_def)
  then have d: "heapAll meshIff (startFrame updatePose st currentTime)"
    using assms(2) by (rule startFrame_preserves(2))
  have e: "heapAll meshIff (dispose st)" "heapAll meshIff (settle st k result)"
    using assms(2) by (rule dispose_preserves(3), rule settle_preserves(3))
  have f: "heapAll meshBacked (stateOf (addImageMessage st topic img))"
    "heapAll meshBacked (stateOf (addCameraInfoMessage st topic))"
    "heapAll meshBacked (stateOf (setTopicSettings st topic s))"
    using addImageMessage_preserves(2)[OF inv] addCameraInfoMessage_preserves(2)[OF inv]
      setTopicSettings_preserves(2)[OF inv] backed
    by simp_all
  have g: "heapAll meshIff (newImages config renderFrame fixedFrame cameras)"
    by (simp add: newImages_def heapAll_def)
  show ?thesis
    using a b c d e f g
    by (simp add: disposeGeometry_calls(2) rebuildMaterial_calls(2))
qed

text \<open>
  At the sample state where the image was decoded before the camera-info topic came: a
  compressed image returns and keeps the equivalence; the raw image keeps the one direction.
\<close>

theorem mesh_iff_kept_by_returning_operations_witness:
  "reachable infoLate \<and> heapAll meshIff infoLate \<and>
   (\<exists>st'. addImageMessage infoLate ''cam/image'' jpeg2 = Inr st' \<and> heapAll meshIff st') \<and>
   heapAll meshBacked (stateOf rawAfter)"
proof -
  have r: "reachable infoLate"
    unfolding infoLate_def decodedFirst_def by (intro reachable.intros reachable_samples(2))
  have m: "heapAll meshIff infoLate"
    using infoLate_snapshot by (simp add: snapshot_def heapAll_def meshIff_def)
  have "\<not> isl (addImageMessage infoLate ''cam/image'' jpeg2)"
    by (simp add: addImageMessage_isl jpeg2_def)
  then obtain st' where st': "addImageMessage infoLate ''cam/image'' jpeg2 = Inr st'"
    by (cases "addImageMessage infoLate ''cam/image'' jpeg2") auto
  note t = mesh_iff_kept_by_returning_operations[OF r m, of "''cam/image''" _ noSettings]
  have "heapAll meshIff st'" using t[of jpeg2] st' by blast
  moreover have "heapAll meshBacked (stateOf rawAfter)"
    unfolding rawAfter_def using t[of rgb3] by blast
  ultimately show ?thesis using r m st' by blast
qed

text \<open>
  C7 as stated fails at the end of an operation that throws. In that same state the raw image
  makes \<open>addImageMessage\<close> build the geometry and then throw, before the mesh is built: the
  renderable is left with geometry and material and no mesh.
\<close>

theorem mesh_iff_broken_by_throw:
  "reachable infoLate \<and> heapAll meshIff infoLate \<and> isl rawAfter \<and>
   \<not> heapAll meshIff (stateOf rawAfter) \<and>
   ud_geometry (objects (stateOf rawAfter) ! 0) \<noteq> None \<and>
   ud_material (objects (stateOf rawAfter) ! 0) \<noteq> None \<and>
   ud_mesh (objects (stateOf rawAfter) ! 0) = None"
proof -
  have r: "reachable infoLate"
    unfolding infoLate_def decodedFirst_def by (intro reachable.intros reachable_samples(2))
  have m: "heapAll meshIff infoLate"
    using infoLate_snapshot by (simp add: snapshot_def heapAll_def meshIff_def)
  show ?thesis
    using r m rawAfter_snapshot by (simp add: snapshot_def heapAll_def meshIff_def)
qed

section \<open>Unsupported images\<close>

text \<open>
  C8. An image that is not a compressed image (the source tests the \<open>format\<close> property,
  which a raw image lacks) makes the update throw: the result is the error, never a silent
  return. A raw image is such an image. By the time of the throw the update has made no call
  but geometry disposal, geometry creation and mesh removal: no decode is started (the
  pending decodes are as before), texture and material are untouched, and no mesh is built
  (the mesh is gone or is the one from before). \<open>addImageMessage\<close> with such an image
  throws the same error.
\<close>

theorem unsupported_image_throws:
  assumes "\<not> hasFormat img" and "rid < length (objects st)"
  shows "\<not> hasFormat (RawImage h height width encoding bytes) \<and>
    (\<exists>r' new.
       updateImageRenderable st rid img s =
         Inl (Unhandled img, st\<lparr>objects := (objects st)[rid := r']\<rparr>) \<and>
       calls r' = calls (objects st ! rid) @ new \<and>
       set new \<subseteq> {GeometryDispose, GeometryCreate, MeshRemove} \<and>
       ud_texture r' = ud_texture (objects st ! rid) \<and>
       ud_material r' = ud_material (objects st ! rid) \<and>
       (ud_mesh r' = None \<or>
        ud_mesh r' = ud_mesh (objects st ! rid) \<and> r_children r' = r_children (objects st ! rid))) \<and>
    (\<exists>st'. addImageMessage st topic img = Inl (Unhandled img, st') \<and> pending st' = pending st)"
proof -
  define r where "r = objects st ! rid"
  define r1 where "r1 = r\<lparr>ud_settings := spread (ud_settings r) s\<rparr>"
  define changed where
    "changed = (\<not> (cameraInfoTopic (spread (ud_settings r) s) = cameraInfoTopic (ud_settings r) \<and>
                    distance (spread (ud_settings r) s) = distance (ud_settings r)))"
  define r2 where "r2 = (if changed then disposeGeometry r1 else r1)"
  define r' where "r' = createPlaneGeometry (cameraModels st) s r2"
  have thrown: "updateImageRenderable st rid img s =
                  Inl (Unhandled img, st\<lparr>objects := (objects st)[rid := r']\<rparr>)"
    using assms(1)
    by (simp add: updateImageRenderable_def Let_def setObject_def r'_def r2_def r1_def
          changed_def r_def)
  obtain new2 where new2: "calls r2 = calls r @ new2" "set new2 \<subseteq> {GeometryDispose, MeshRemove}"
    by (cases changed) (auto simp: r2_def r1_def disposeGeometry_calls split: option.split)
  obtain new3 where new3: "calls r' = calls r2 @ new3" "set new3 \<subseteq> {GeometryCreate, MeshRemove}"
    using createPlaneGeometry_calls[of "cameraModels st" s r2] unfolding r'_def by blast
  have c: "calls r' = calls r @ (new2 @ new3)"
    "set (new2 @ new3) \<subseteq> {GeometryDispose, GeometryCreate, MeshRemove}"
    using new2 new3 by auto
  have tm: "ud_texture r' = ud_texture r" "ud_material r' = ud_material r"
    by (simp_all add: r'_def r2_def r1_def)
  have m2: "ud_mesh r2 = None \<or> ud_mesh r2 = ud_mesh r \<and> r_children r2 = r_children r"
    by (simp add: r2_def r1_def)
  have "ud_mesh r' = None \<or> ud_mesh r' = ud_mesh r \<and> r_children r' = r_children r"
    using m2 createPlaneGeometry_mesh[of "cameraModels st" s r2] unfolding r'_def by auto
  with thrown c tm have first: "\<exists>r' new.
       updateImageRenderable st rid img s =
         Inl (Unhandled img, st\<lparr>objects := (objects st)[rid := r']\<rparr>) \<and>
       calls r' = calls (objects st ! rid) @ new \<and>
       set new \<subseteq> {GeometryDispose, GeometryCreate, MeshRemove} \<and>
       ud_texture r' = ud_texture (objects st ! rid) \<and>
       ud_material r' = ud_material (objects st ! rid) \<and>
       (ud_mesh r' = None \<or>
        ud_mesh r' = ud_mesh (objects st ! rid) \<and> r_children r' = r_children (objects st ! rid))"
    unfolding r_def by blast
  obtain st1 rid1 where g: "getOrCreate st topic img = (st1, rid1)"
    by (cases "getOrCreate st topic img")
  have p1: "pending st1 = pending st"
    using g by (auto simp: getOrCreate_def Let_def split: option.splits)
  have p2: "pending (autoSelect st1 rid1 topic) = pending st1"
    by (simp add: autoSelect_def Let_def setObject_def emit_def)
  have "\<exists>st'. addImageMessage st topic img = Inl (Unhandled img, st') \<and> pending st' = pending st"
    using assms(1) p1 p2
    by (simp add: addImageMessage_def g Let_def updateImageRenderable_def setObject_def)
  with first show ?thesis by simp
qed

text \<open>The raw sample image, sent to the manager that holds one compressed image.\<close>

theorem unsupported_image_throws_witness:
  "\<not> hasFormat rgb3 \<and> 0 < length (objects oneImage) \<and>
   (\<exists>st'. updateImageRenderable oneImage 0 rgb3 noSettings = Inl (Unhandled rgb3, st')) \<and>
   (\<exists>st'. addImageMessage oneImage ''cam/image'' rgb3 = Inl (Unhandled rgb3, st') \<and>
          pending st' = [(0, ''cam/image'', jpeg1)])"
proof -
  have h1: "\<not> hasFormat rgb3" by (simp add: rgb3_def)
  have h2: "0 < length (objects oneImage)" by (simp add: oneImage_eval)
  note t = unsupported_image_throws[OF h1 h2, of "camHeader 3" 1 1 "''rgb8''" "[0, 0, 0]"
        noSettings "''cam/image''"]
  have a: "\<exists>st'. updateImageRenderable oneImage 0 rgb3 noSettings = Inl (Unhandled rgb3, st')"
    using t by blast
  have b: "\<exists>st'. addImageMessage oneImage ''cam/image'' rgb3 = Inl (Unhandled rgb3, st') \<and>
          pending st' = pending oneImage"
    using t by blast
  show ?thesis using h1 h2 a b by (simp add: oneImage_eval(3))
qed

section \<open>Setting the settings a renderable already has\<close>

text \<open>
  C9, as amended. In a reachable state, \<open>setTopicSettings\<close> with exactly the current
  settings of the renderable changes at most that renderable, and on it: the settings, the
  texture and the material stay as they are (no material is disposed or built), a geometry
  that exists stays (none is disposed, none is built in its place), and a renderable that has
  a mesh is left exactly as it was (nothing is detached or rebuilt). What the call can still
  do is build what is missing: a geometry where there was none, and a mesh where there was
  none; these are the only library calls it can make. When the topic has no renderable,
  \<open>setTopicSettings\<close> returns the state unchanged, whatever the settings.
\<close>

theorem same_settings_rebuild_nothing:
  assumes "reachable st"
  shows "(map_of (imagesByTopic st) topic = Some rid \<longrightarrow>
      (\<exists>r' new.
         objects (stateOf (setTopicSettings st topic (asPartial (ud_settings (objects st ! rid)))))
           = (objects st)[rid := r'] \<and>
         ud_settings r' = ud_settings (objects st ! rid) \<and>
         ud_texture r' = ud_texture (objects st ! rid) \<and>
         ud_material r' = ud_material (objects st ! rid) \<and>
         (ud_geometry (objects st ! rid) \<noteq> None \<longrightarrow>
            ud_geometry r' = ud_geometry (objects st ! rid)) \<and>
         (ud_mesh (objects st ! rid) \<noteq> None \<longrightarrow> r' = objects st ! rid) \<and>
         calls r' = calls (objects st ! rid) @ new \<and> set new \<subseteq> {GeometryCreate, MeshAdd} \<and>
         (ud_geometry (objects st ! rid) \<noteq> None \<longrightarrow> GeometryCreate \<notin> set new))) \<and>
    (map_of (imagesByTopic st) topic = None \<longrightarrow> setTopicSettings st topic s = Inr st)"
proof -
  have none: "map_of (imagesByTopic st) topic = None \<longrightarrow> setTopicSettings st topic s = Inr st"
    by (simp add: setTopicSettings_def)
  have first: "map_of (imagesByTopic st) topic = Some rid \<longrightarrow> (\<exists>r' new.
         objects (stateOf (setTopicSettings st topic (asPartial (ud_settings (objects st ! rid)))))
           = (objects st)[rid := r'] \<and>
         ud_settings r' = ud_settings (objects st ! rid) \<and>
         ud_texture r' = ud_texture (objects st ! rid) \<and>
         ud_material r' = ud_material (objects st ! rid) \<and>
         (ud_geometry (objects st ! rid) \<noteq> None \<longrightarrow>
            ud_geometry r' = ud_geometry (objects st ! rid)) \<and>
         (ud_mesh (objects st ! rid) \<noteq> None \<longrightarrow> r' = objects st ! rid) \<and>
         calls r' = calls (objects st ! rid) @ new \<and> set new \<subseteq> {GeometryCreate, MeshAdd} \<and>
         (ud_geometry (objects st ! rid) \<noteq> None \<longrightarrow> GeometryCreate \<notin> set new))"
  proof
    assume some: "map_of (imagesByTopic st) topic = Some rid"
    define r where "r = objects st ! rid"
    have inv: "wfImages st" "heapAll sound st"
      using reachable_invariant[OF assms] by simp_all
    have len: "rid < length (objects st)"
      using map_of_wfImages[OF inv(1) some] by simp
    have snd: "meshBacked r" "textured r"
      using heapAll_nth[OF inv(2) len] by (simp_all add: sound_def r_def)
    define g where "g = createPlaneGeometry (cameraModels st) (asPartial (ud_settings r)) r"
    define m where "m = (if ud_material g = None then rebuildMaterial g else g)"
    define r' where "r' = (if hasFormat (ud_image r) then tryCreateMesh m else g)"
    have "setTopicSettings st topic (asPartial (ud_settings r)) =
          updateImageRenderable st rid (ud_image r) (asPartial (ud_settings r))"
      using some by (simp add: setTopicSettings_def r_def)
    then have obj: "objects (stateOf (setTopicSettings st topic (asPartial (ud_settings r))))
               = (objects st)[rid := r']"
      unfolding r'_def m_def g_def
      by (simp add: updateImageRenderable_state r_def[symmetric] geometryUpdated_same
            materialUpdated_def)
    have "\<exists>newg. calls g = calls r @ newg \<and> set newg \<subseteq> {GeometryCreate, MeshRemove} \<and>
            (ud_mesh r = None \<longrightarrow> set newg \<subseteq> {GeometryCreate})"
      unfolding g_def by (rule createPlaneGeometry_calls)
    then obtain newg where n0: "calls g = calls r @ newg \<and>
        set newg \<subseteq> {GeometryCreate, MeshRemove} \<and>
        (ud_mesh r = None \<longrightarrow> set newg \<subseteq> {GeometryCreate})" ..
    have newg: "calls g = calls r @ newg" "ud_mesh r = None \<longrightarrow> set newg \<subseteq> {GeometryCreate}"
      using n0 by simp_all
    have geo: "ud_geometry r \<noteq> None \<longrightarrow> g = r"
      by (simp add: g_def createPlaneGeometry_unchanged)
    have mesh_geo: "ud_mesh r \<noteq> None \<longrightarrow> ud_geometry r \<noteq> None \<and> ud_material r \<noteq> None"
      using snd(1) by (auto simp: meshBacked_def)
    have newg': "set newg \<subseteq> {GeometryCreate}"
    proof (cases "ud_mesh r")
      case None
      then show ?thesis using newg(2) by simp
    next
      case (Some a)
      then have "g = r" using geo mesh_geo by simp
      then show ?thesis using newg(1) by simp
    qed
    have mat: "ud_material g = ud_material r" "ud_texture g = ud_texture r"
      "ud_settings g = ud_settings r"
      by (simp_all add: g_def)
    have no_tex: "ud_material g = None \<longrightarrow> ud_texture g = None \<and> ud_mesh g = None"
    proof
      assume a: "ud_material g = None"
      then have "ud_texture r = None" using snd(2) mat by (auto simp: textured_def)
      moreover have "ud_mesh r = None" using a mat mesh_geo by auto
      then have "ud_mesh g = None"
        using createPlaneGeometry_mesh[of "cameraModels st" "asPartial (ud_settings r)" r]
        unfolding g_def by auto
      ultimately show "ud_texture g = None \<and> ud_mesh g = None" using mat by simp
    qed
    have m_eq: "ud_material m = ud_material g" "ud_texture m = ud_texture g"
      "ud_geometry m = ud_geometry g" "ud_settings m = ud_settings g" "calls m = calls g"
      "ud_mesh r \<noteq> None \<longrightarrow> m = g"
      using no_tex mat mesh_geo
      by (auto simp: m_def rebuildMaterial_material rebuildMaterial_calls split: option.split)
    obtain newm where newm: "calls (tryCreateMesh m) = calls m @ newm" "set newm \<subseteq> {MeshAdd}"
      by (auto simp: tryCreateMesh_calls)
    have fin: "ud_settings r' = ud_settings r" "ud_texture r' = ud_texture r"
      "ud_material r' = ud_material r" "ud_geometry r \<noteq> None \<longrightarrow> ud_geometry r' = ud_geometry r"
      using mat m_eq geo by (auto simp: r'_def)
    have whole: "ud_mesh r \<noteq> None \<longrightarrow> r' = r"
      using geo mesh_geo m_eq(6) by (auto simp: r'_def tryCreateMesh_unchanged)
    have kept_geo: "ud_geometry r \<noteq> None \<longrightarrow> newg = []"
      using geo newg(1) by auto
    have "\<exists>new. calls r' = calls r @ new \<and> set new \<subseteq> {GeometryCreate, MeshAdd} \<and>
            (ud_geometry r \<noteq> None \<longrightarrow> GeometryCreate \<notin> set new)"
    proof (cases "hasFormat (ud_image r)")
      case True
      then have "calls r' = calls r @ (newg @ newm)"
        using newg(1) newm(1) m_eq(5) by (simp add: r'_def)
      moreover have "set (newg @ newm) \<subseteq> {GeometryCreate, MeshAdd}"
        using newg' newm(2) by auto
      moreover have "ud_geometry r \<noteq> None \<longrightarrow> GeometryCreate \<notin> set (newg @ newm)"
        using kept_geo newm(2) by auto
      ultimately show ?thesis by blast
    next
      case False
      then have "calls r' = calls r @ newg" using newg(1) by (simp add: r'_def)
      moreover have "set newg \<subseteq> {GeometryCreate, MeshAdd}" using newg' by auto
      moreover have "ud_geometry r \<noteq> None \<longrightarrow> GeometryCreate \<notin> set newg"
        using kept_geo by auto
      ultimately show ?thesis by blast
    qed
    then obtain new where nw: "calls r' = calls r @ new \<and>
        set new \<subseteq> {GeometryCreate, MeshAdd} \<and>
        (ud_geometry r \<noteq> None \<longrightarrow> GeometryCreate \<notin> set new)" ..
    have body: "objects (stateOf (setTopicSettings st topic (asPartial (ud_settings r))))
           = (objects st)[rid := r'] \<and>
         ud_settings r' = ud_settings r \<and>
         ud_texture r' = ud_texture r \<and>
         ud_material r' = ud_material r \<and>
         (ud_geometry r \<noteq> None \<longrightarrow> ud_geometry r' = ud_geometry r) \<and>
         (ud_mesh r \<noteq> None \<longrightarrow> r' = r) \<and>
         calls r' = calls r @ new \<and> set new \<subseteq> {GeometryCreate, MeshAdd} \<and>
         (ud_geometry r \<noteq> None \<longrightarrow> GeometryCreate \<notin> set new)"
      using obj fin whole nw by simp
    show "\<exists>r' new.
         objects (stateOf (setTopicSettings st topic (asPartial (ud_settings (objects st ! rid)))))
           = (objects st)[rid := r'] \<and>
         ud_settings r' = ud_settings (objects st ! rid) \<and>
         ud_texture r' = ud_texture (objects st ! rid) \<and>
         ud_material r' = ud_material (objects st ! rid) \<and>
         (ud_geometry (objects st ! rid) \<noteq> None \<longrightarrow>
            ud_geometry r' = ud_geometry (objects st ! rid)) \<and>
         (ud_mesh (objects st ! rid) \<noteq> None \<longrightarrow> r' = objects st ! rid) \<and>
         calls r' = calls (objects st ! rid) @ new \<and> set new \<subseteq> {GeometryCreate, MeshAdd} \<and>
         (ud_geometry (objects st ! rid) \<noteq> None \<longrightarrow> GeometryCreate \<notin> set new)"
      unfolding r_def[symmetric]
      by (rule exI[of _ r'], rule exI[of _ new], rule body)
  qed
  show ?thesis using first none by (rule conjI)
qed


text \<open>
  The renderable that shows its image is left as it is, and the new manager, which has no
  renderable, ignores the call.
\<close>

theorem same_settings_rebuild_nothing_witness:
  "reachable decoded \<and> map_of (imagesByTopic decoded) ''cam/image'' = Some 0 \<and>
   objects (stateOf (setTopicSettings decoded ''cam/image''
              (asPartial (ud_settings (objects decoded ! 0))))) = objects decoded \<and>
   reachable started \<and> map_of (imagesByTopic started) ''cam/image'' = None \<and>
   setTopicSettings started ''cam/image'' farther = Inr started"
proof -
  have m: "map_of (imagesByTopic decoded) ''cam/image'' = Some 0"
    and mesh: "ud_mesh (objects decoded ! 0) \<noteq> None"
    using decoded_snapshot by (simp_all add: snapshot_def)
  have n: "map_of (imagesByTopic started) ''cam/image'' = None"
    by (simp add: started_def newImages_def)
  have "\<exists>r'. objects (stateOf (setTopicSettings decoded ''cam/image''
              (asPartial (ud_settings (objects decoded ! 0))))) = (objects decoded)[0 := r'] \<and>
            r' = objects decoded ! 0"
    using same_settings_rebuild_nothing[OF reachable_samples(5), of "''cam/image''" 0] m mesh
    by blast
  then have a: "objects (stateOf (setTopicSettings decoded ''cam/image''
              (asPartial (ud_settings (objects decoded ! 0))))) = objects decoded"
    by auto
  have b: "setTopicSettings started ''cam/image'' farther = Inr started"
    using same_settings_rebuild_nothing[OF reachable_samples(1), of "''cam/image''" 0 farther] n
    by blast
  show ?thesis using m n a b reachable_samples(1,5) by simp
qed


text \<open>
  C9 as stated fails. After the distance was changed, the renderable has its texture and its
  material but neither geometry nor mesh. Setting the settings it has once more builds a
  geometry and a mesh.
\<close>

theorem same_settings_build_geometry_and_mesh:
  "reachable (stateOf movedAway) \<and>
   sameAgain = setTopicSettings (stateOf movedAway) ''cam/image''
                 (asPartial (ud_settings (objects (stateOf movedAway) ! 0))) \<and>
   map_of (imagesByTopic (stateOf movedAway)) ''cam/image'' = Some 0 \<and>
   \<not> isl sameAgain \<and>
   ud_settings (objects (stateOf sameAgain) ! 0) = ud_settings (objects (stateOf movedAway) ! 0) \<and>
   ud_geometry (objects (stateOf movedAway) ! 0) = None \<and>
   ud_mesh (objects (stateOf movedAway) ! 0) = None \<and>
   ud_geometry (objects (stateOf sameAgain) ! 0) = Some (createGeometry pinhole 2) \<and>
   ud_mesh (objects (stateOf sameAgain) ! 0) =
     Some (Mesh (createGeometry pinhole 2)
             \<lparr>mat_name = ''cam/image:Material'', mat_color = ''#ffffff''\<rparr>) \<and>
   r_children (objects (stateOf movedAway) ! 0) = [] \<and>
   r_children (objects (stateOf sameAgain) ! 0) =
     [Mesh (createGeometry pinhole 2)
        \<lparr>mat_name = ''cam/image:Material'', mat_color = ''#ffffff''\<rparr>] \<and>
   calls (objects (stateOf sameAgain) ! 0) =
     calls (objects (stateOf movedAway) ! 0) @ [GeometryCreate, MeshAdd]"
proof -
  have r: "reachable (stateOf movedAway)"
    unfolding movedAway_def by (intro reachable.settings reachable_samples(5))
  have d: "sameAgain = setTopicSettings (stateOf movedAway) ''cam/image''
                 (asPartial (ud_settings (objects (stateOf movedAway) ! 0)))"
    by (rule sameAgain_def)
  have rest: "map_of (imagesByTopic (stateOf movedAway)) ''cam/image'' = Some 0 \<and>
   \<not> isl sameAgain \<and>
   ud_settings (objects (stateOf sameAgain) ! 0) = ud_settings (objects (stateOf movedAway) ! 0) \<and>
   ud_geometry (objects (stateOf movedAway) ! 0) = None \<and>
   ud_mesh (objects (stateOf movedAway) ! 0) = None \<and>
   ud_geometry (objects (stateOf sameAgain) ! 0) = Some (createGeometry pinhole 2) \<and>
   ud_mesh (objects (stateOf sameAgain) ! 0) =
     Some (Mesh (createGeometry pinhole 2)
             \<lparr>mat_name = ''cam/image:Material'', mat_color = ''#ffffff''\<rparr>) \<and>
   r_children (objects (stateOf movedAway) ! 0) = [] \<and>
   r_children (objects (stateOf sameAgain) ! 0) =
     [Mesh (createGeometry pinhole 2)
        \<lparr>mat_name = ''cam/image:Material'', mat_color = ''#ffffff''\<rparr>] \<and>
   calls (objects (stateOf sameAgain) ! 0) =
     calls (objects (stateOf movedAway) ! 0) @ [GeometryCreate, MeshAdd]"
    using movedAway_snapshot sameAgain_snapshot
    by (simp add: snapshot_def)
  show ?thesis by (rule conjI[OF r conjI[OF d rest]])
qed

section \<open>The geometry builder\<close>



end
